(* ===== verification/Prelude.thy ===== *)
theory Prelude
  imports Main "HOL-Library.Word" "HOL-Library.Monad_Syntax"
begin

unbundle bit_operations_syntax

text \<open>
  Shared vocabulary of the xcpfs development: machine-integer types, the C conversions the
  code relies on, error numbers, byte-level access to a 4096-byte page, and the slot arrays
  (arrays of pointers with NULL holes) of the zone manager.

  Conventions used everywhere:
  \<^item> a function of the code that may not return normally yields an option, and \<open>None\<close> stands
    for an execution that has no defined result: a NULL or error pointer that is dereferenced,
    an array access out of bounds, a thread that waits for ever;
  \<^item> an error number returned by the code is a value (\<open>- EIO\<close>), never \<open>None\<close>;
  \<^item> C \<open>int\<close> is \<open>int\<close> (signed overflow is undefined in C and the bounds are stated where they
    matter), unsigned and on-disk integers are words of their width.
\<close>

section \<open>Fact collections\<close>

named_theorems layout \<open>numeric values of structure sizes and field offsets\<close>
named_theorems field_simps_disk \<open>read-over-write laws of the on-disk field accessors\<close>
named_theorems frames \<open>which part of the state an operation leaves alone\<close>

section \<open>Machine integers\<close>

type_synonym u8 = "8 word"
type_synonym u16 = "16 word"
type_synonym u32 = "32 word"
type_synonym u64 = "64 word"
type_synonym sector = u64

text \<open>Conversion of an unsigned value to C \<open>int\<close>: keep 32 bits, read as two's complement.\<close>

definition to_int :: "'a::len word \<Rightarrow> int" where
  "to_int w = sint (ucast w :: u32)"

text \<open>The values of C \<open>int\<close>.\<close>

definition int32 :: "int \<Rightarrow> bool" where
  "int32 x \<longleftrightarrow> - (2 ^ 31) \<le> x \<and> x < 2 ^ 31"

lemma sint_of_int32 [simp]: "int32 x \<Longrightarrow> sint (word_of_int x :: u32) = x"
  by (simp add: int32_def signed_of_int signed_take_bit_int_eq_self)

lemma int32_sint [simp, intro]: "int32 (sint (w :: u32))"
  using sint_range_size [of w] by (simp add: int32_def word_size)

text \<open>C arithmetic on \<open>int\<close>: the mathematical result reduced to 32 bits (the kernel wraps around).\<close>

definition int_wrap :: "int \<Rightarrow> int" where
  "int_wrap x = sint (word_of_int x :: u32)"

lemma int_wrap_id: "int32 x \<Longrightarrow> int_wrap x = x"
  by (simp add: int_wrap_def)

lemma int32_0 [simp]: "int32 0"
  by (simp add: int32_def)

lemma to_int_u32 [simp]: "to_int (w :: u32) = sint w"
  by (simp add: to_int_def)

lemma to_int_small:
  fixes w :: u64
  assumes "uint w < 2 ^ 31"
  shows "to_int w = uint w"
proof -
  have "uint (ucast w :: u32) = uint w"
    using assms by (simp add: unsigned_ucast_eq take_bit_int_eq_self)
  moreover have "- (2 ^ 31) \<le> uint w"
    by (rule order_trans [of _ 0]) simp_all
  ultimately show ?thesis
    using assms by (simp add: to_int_def sint_uint signed_take_bit_int_eq_self del: unsigned_ucast_eq)
qed

text \<open>
  \<open>x / c\<close> and \<open>x % c\<close> where \<open>x\<close> is an \<open>int\<close> and \<open>c\<close> an unsigned 64-bit value: C converts \<open>x\<close> to
  unsigned first, and the caller stores the unsigned result in an \<open>int\<close>.
\<close>

definition udiv :: "int \<Rightarrow> u64 \<Rightarrow> int" where
  "udiv x c = to_int (word_of_int x div c)"

definition umod :: "int \<Rightarrow> u64 \<Rightarrow> int" where
  "umod x c = to_int (word_of_int x mod c)"

lemma uint_word_of_nonneg:
  "0 \<le> x \<Longrightarrow> int32 x \<Longrightarrow> uint (word_of_int x :: u64) = x"
  by (simp add: int32_def unsigned_of_int take_bit_int_eq_self)

lemma int_div_le_nonneg: "0 \<le> (x :: int) \<Longrightarrow> 0 \<le> c \<Longrightarrow> 0 \<le> x div c \<and> x div c \<le> x"
  by (metis div_by_0 div_by_1 order.order_iff_strict pos_imp_zdiv_nonneg_iff zdiv_mono2
      zless_imp_add1_zle add_0 zero_less_one)

lemma int_mod_le_nonneg: "0 \<le> (x :: int) \<Longrightarrow> 0 \<le> c \<Longrightarrow> 0 \<le> x mod c \<and> x mod c \<le> x"
  by (cases "c = 0") (simp_all add: zmod_le_nonneg_dividend)

lemma udiv_nonneg: "0 \<le> x \<Longrightarrow> int32 x \<Longrightarrow> udiv x c = x div uint c"
  using int_div_le_nonneg [of x "uint c"]
  by (simp add: udiv_def to_int_small uint_div uint_word_of_nonneg int32_def)

lemma umod_nonneg: "0 \<le> x \<Longrightarrow> int32 x \<Longrightarrow> umod x c = x mod uint c"
  using int_mod_le_nonneg [of x "uint c"]
  by (simp add: umod_def to_int_small uint_mod uint_word_of_nonneg int32_def)

text \<open>The kernel's \<open>DIV_ROUND_UP\<close> on \<open>int\<close>; C division truncates, and all uses are nonnegative.\<close>

definition c_div :: "int \<Rightarrow> int \<Rightarrow> int" where
  "c_div a b = sgn a * sgn b * (\<bar>a\<bar> div \<bar>b\<bar>)"

definition c_mod :: "int \<Rightarrow> int \<Rightarrow> int" where
  "c_mod a b = a - b * c_div a b"

definition DIV_ROUND_UP :: "int \<Rightarrow> int \<Rightarrow> int" where
  "DIV_ROUND_UP n d = c_div (n + d - 1) d"

lemma c_div_nonneg [simp]: "0 \<le> a \<Longrightarrow> 0 < b \<Longrightarrow> c_div a b = a div b"
  by (cases "a = 0") (simp_all add: c_div_def)

lemma c_mod_nonneg [simp]: "0 \<le> a \<Longrightarrow> 0 < b \<Longrightarrow> c_mod a b = a mod b"
  by (simp add: c_mod_def minus_mult_div_eq_mod)

lemma DIV_ROUND_UP_Suc:
  "0 \<le> n \<Longrightarrow> 0 < d \<Longrightarrow> DIV_ROUND_UP (n + 1) d - 1 = n div d"
  using div_add_self2 [of d n] by (simp add: DIV_ROUND_UP_def)

section \<open>Error numbers\<close>

abbreviation (input) "EPERM \<equiv> (1 :: int)"
abbreviation (input) "ENOENT \<equiv> (2 :: int)"
abbreviation (input) "EIO \<equiv> (5 :: int)"
abbreviation (input) "EAGAIN \<equiv> (11 :: int)"
abbreviation (input) "ENOMEM \<equiv> (12 :: int)"
abbreviation (input) "EEXIST \<equiv> (17 :: int)"
abbreviation (input) "EINVAL \<equiv> (22 :: int)"
abbreviation (input) "ENAMETOOLONG \<equiv> (36 :: int)"
abbreviation (input) "ENOTEMPTY \<equiv> (39 :: int)"
abbreviation (input) "EOPNOTSUPP \<equiv> (95 :: int)"
abbreviation (input) "ENOKEY \<equiv> (126 :: int)"

section \<open>Bytes of a page\<close>

text \<open>
  A page is read and written through packed C structures, and one structure
  (\<open>struct xcpfs_node\<close>) is a union.  A page is therefore its bytes, and a field access is a
  little-endian read or write at an offset (the module stores host integers into \<open>__le\<close>
  fields; on the little-endian hosts it is built for this is the on-disk order).
\<close>

type_synonym bytes = "nat \<Rightarrow> u8"

primrec rd_le :: "nat \<Rightarrow> bytes \<Rightarrow> nat \<Rightarrow> 'a::len word" where
  "rd_le 0 d off = 0"
| "rd_le (Suc n) d off = ucast (d off) OR push_bit 8 (rd_le n d (Suc off))"

definition wr_le :: "nat \<Rightarrow> bytes \<Rightarrow> nat \<Rightarrow> 'a::len word \<Rightarrow> bytes" where
  "wr_le n d off v =
     (\<lambda>i. if off \<le> i \<and> i < off + n then ucast (drop_bit (8 * (i - off)) v) else d i)"

abbreviation rd16 :: "bytes \<Rightarrow> nat \<Rightarrow> u16" where "rd16 \<equiv> rd_le 2"
abbreviation rd32 :: "bytes \<Rightarrow> nat \<Rightarrow> u32" where "rd32 \<equiv> rd_le 4"
abbreviation rd64 :: "bytes \<Rightarrow> nat \<Rightarrow> u64" where "rd64 \<equiv> rd_le 8"
abbreviation wr16 :: "bytes \<Rightarrow> nat \<Rightarrow> u16 \<Rightarrow> bytes" where "wr16 \<equiv> wr_le 2"
abbreviation wr32 :: "bytes \<Rightarrow> nat \<Rightarrow> u32 \<Rightarrow> bytes" where "wr32 \<equiv> wr_le 4"
abbreviation wr64 :: "bytes \<Rightarrow> nat \<Rightarrow> u64 \<Rightarrow> bytes" where "wr64 \<equiv> wr_le 8"

definition zero_bytes :: bytes where
  "zero_bytes = (\<lambda>_. 0)"

text \<open>\<open>zero_user(page, from, len)\<close> and \<open>memset(p, 0, len)\<close>.\<close>

definition zero_range :: "bytes \<Rightarrow> nat \<Rightarrow> nat \<Rightarrow> bytes" where
  "zero_range d from len = (\<lambda>i. if from \<le> i \<and> i < from + len then 0 else d i)"

lemma bit_rd_le:
  "bit (rd_le n d off :: 'a::len word) k \<longleftrightarrow>
     k < LENGTH('a) \<and> k < 8 * n \<and> bit (d (off + k div 8)) (k mod 8)"
proof (induction n arbitrary: off k)
  case 0
  then show ?case by simp
next
  case (Suc n)
  show ?case
  proof (cases "k < 8")
    case True
    then show ?thesis by (auto simp: bit_or_iff bit_push_bit_iff bit_unsigned_iff)
  next
    case False
    then have "k div 8 = Suc ((k - 8) div 8)" and "k mod 8 = (k - 8) mod 8"
      by (simp_all add: le_div_geq le_mod_geq)
    moreover have "\<not> bit (d off) k"
      using False bit_imp_le_length [of "d off" k] by auto
    ultimately show ?thesis
      using False by (auto simp: bit_or_iff bit_push_bit_iff bit_unsigned_iff Suc)
  qed
qed

lemma rd_wr_same [simp]:
  "LENGTH('a) = 8 * n \<Longrightarrow> rd_le n (wr_le n d off v) off = (v :: 'a::len word)"
proof (rule bit_word_eqI)
  fix k
  assume len: "LENGTH('a) = 8 * n" and k: "k < LENGTH('a)"
  from len k have "k div 8 < n" by simp
  with len k show "bit (rd_le n (wr_le n d off v) off :: 'a word) k \<longleftrightarrow> bit v k"
    by (simp add: bit_rd_le wr_le_def bit_unsigned_iff bit_drop_bit_eq)
qed

lemma rd_cong: "(\<And>i. off \<le> i \<Longrightarrow> i < off + n \<Longrightarrow> d i = d' i) \<Longrightarrow> rd_le n d off = rd_le n d' off"
  by (induction n arbitrary: off) simp_all

lemma rd_wr_other [simp]:
  "off + n \<le> off' \<or> off' + m \<le> off \<Longrightarrow> rd_le m (wr_le n d off v) off' = rd_le m d off'"
  by (rule rd_cong) (auto simp: wr_le_def)

text \<open>Arrays: element \<open>k\<close> of width \<open>n\<close> at \<open>b + n * k\<close>.\<close>

lemma array_disjoint: "j \<noteq> k \<Longrightarrow> b + n * k + n \<le> b + n * j \<or> b + n * j + n \<le> b + n * (k :: nat)"
proof -
  assume "j \<noteq> k"
  then consider "Suc k \<le> j" | "Suc j \<le> k" by linarith
  then show ?thesis
    by cases (metis add.assoc add_left_mono mult_Suc_right mult_le_mono2 add.commute)+
qed

lemma rd_wr_array:
  "LENGTH('a) = 8 * n \<Longrightarrow>
    rd_le n (wr_le n d (b + n * k) v) (b + n * j) = (if j = k then v else (rd_le n d (b + n * j) :: 'a::len word))"
  using array_disjoint [of j k b n] by auto

lemmas rd_wr_array0 = rd_wr_array [where b = 0, simplified]

text \<open>Arrays of structures: field at offset \<open>a\<close> of element \<open>k\<close>, structures of \<open>s\<close> bytes.\<close>

lemma rd_wr_struct:
  assumes "j \<noteq> k" "a + n \<le> s" "b + m \<le> s"
  shows "rd_le m (wr_le n d (base + s * k + a) v) (base + s * j + b) = rd_le m d (base + s * j + b)"
proof (rule rd_wr_other)
  show "base + s * k + a + n \<le> base + s * j + b \<or> base + s * j + b + m \<le> base + s * k + a"
    using array_disjoint [OF assms(1), of base s] assms(2,3) by linarith
qed

lemmas rd_wr_struct0 = rd_wr_struct [where base = 0, simplified]

lemma wr_le_other [simp]: "i < off \<or> off + n \<le> i \<Longrightarrow> wr_le n d off v i = d i"
  by (auto simp: wr_le_def)

lemma rd_zero_bytes [simp]: "rd_le n zero_bytes off = 0"
  by (induction n arbitrary: off) (simp_all add: zero_bytes_def)

lemma rd_zero_range_in [simp]:
  "from \<le> off \<Longrightarrow> off + n \<le> from + len \<Longrightarrow> rd_le n (zero_range d from len) off = 0"
  by (rule trans [OF rd_cong rd_zero_bytes]) (simp add: zero_range_def zero_bytes_def)

lemma rd_zero_range_out [simp]:
  "off + n \<le> from \<or> from + len \<le> off \<Longrightarrow> rd_le n (zero_range d from len) off = rd_le n d off"
  by (rule rd_cong) (auto simp: zero_range_def)

section \<open>Bitmaps\<close>

text \<open>
  The kernel's \<open>set_bit\<close>, \<open>clear_bit\<close> and bit test on a bitmap.  The bitmap's longs are
  little-endian, so bit \<open>i\<close> is bit \<open>i mod 8\<close> of byte \<open>i div 8\<close>.
\<close>

definition bm_test :: "bytes \<Rightarrow> nat \<Rightarrow> bool" where
  "bm_test m i = bit (m (i div 8)) (i mod 8)"

definition bm_set :: "bytes \<Rightarrow> nat \<Rightarrow> bytes" where
  "bm_set m i = m(i div 8 := Bit_Operations.set_bit (i mod 8) (m (i div 8)))"

definition bm_clear :: "bytes \<Rightarrow> nat \<Rightarrow> bytes" where
  "bm_clear m i = m(i div 8 := Bit_Operations.unset_bit (i mod 8) (m (i div 8)))"

lemma bit_position_eq: "j div 8 = i div 8 \<Longrightarrow> j mod 8 = i mod 8 \<longleftrightarrow> j = (i :: nat)"
  by (metis div_mult_mod_eq)

lemma bm_test_set: "bm_test (bm_set m i) j = (j = i \<or> bm_test m j)"
proof (cases "j div 8 = i div 8")
  case True
  then show ?thesis
    by (auto simp: bm_test_def bm_set_def bit_set_bit_iff bit_position_eq eq_commute [of "i mod 8"])
next
  case False
  then show ?thesis by (auto simp: bm_test_def bm_set_def)
qed

lemma bm_test_clear: "bm_test (bm_clear m i) j = (j \<noteq> i \<and> bm_test m j)"
proof (cases "j div 8 = i div 8")
  case True
  then show ?thesis
    by (auto simp: bm_test_def bm_clear_def bit_unset_bit_iff bit_position_eq eq_commute [of "i mod 8"])
next
  case False
  then show ?thesis by (auto simp: bm_test_def bm_clear_def)
qed

section \<open>Loops\<close>

text \<open>A \<open>for\<close> loop over the values its variable takes; it stops where a round has no result.\<close>

primrec for_each :: "('i \<Rightarrow> 's \<Rightarrow> 's option) \<Rightarrow> 'i list \<Rightarrow> 's \<Rightarrow> 's option" where
  "for_each f [] s = Some s"
| "for_each f (i # l) s = Option.bind (f i s) (for_each f l)"

lemma for_each_append: "for_each f (l @ l') s = Option.bind (for_each f l s) (for_each f l')"
  by (induction l arbitrary: s) (simp_all add: bind_eq_None_conv split: Option.bind_split)

lemma for_each_invariant:
  assumes "for_each f l s = Some s'" "P s" "\<And>i s s'. i \<in> set l \<Longrightarrow> P s \<Longrightarrow> f i s = Some s' \<Longrightarrow> P s'"
  shows "P s'"
  using assms by (induction l arbitrary: s) (auto simp: bind_eq_Some_conv)

section \<open>Slot arrays\<close>

text \<open>
  The zone manager keeps arrays of pointers in which a free slot is NULL.  A pointer to
  \<open>zm->zone_info[k]\<close> is the index \<open>k\<close>.
\<close>

definition occupied :: "'a option list \<Rightarrow> nat" where
  "occupied xs = length (filter (\<lambda>x. x \<noteq> None) xs)"

definition slot_set :: "'a option list \<Rightarrow> 'a set" where
  "slot_set xs = {a. Some a \<in> set xs}"

definition slots_distinct :: "'a option list \<Rightarrow> bool" where
  "slots_distinct xs \<longleftrightarrow> distinct (filter (\<lambda>x. x \<noteq> None) xs)"

lemma occupied_simps [simp]:
  "occupied [] = 0"
  "occupied (None # xs) = occupied xs"
  "occupied (Some a # xs) = Suc (occupied xs)"
  by (simp_all add: occupied_def)

lemma slot_set_simps [simp]:
  "slot_set [] = {}"
  "slot_set (None # xs) = slot_set xs"
  "slot_set (Some a # xs) = insert a (slot_set xs)"
  by (auto simp: slot_set_def)

lemma slots_distinct_simps [simp]:
  "slots_distinct []"
  "slots_distinct (None # xs) \<longleftrightarrow> slots_distinct xs"
  "slots_distinct (Some a # xs) \<longleftrightarrow> a \<notin> slot_set xs \<and> slots_distinct xs"
  by (auto simp: slots_distinct_def slot_set_def)

lemma occupied_le: "occupied xs \<le> length xs"
  by (simp add: occupied_def)

lemma occupied_less: "None \<in> set xs \<Longrightarrow> occupied xs < length xs"
  by (simp add: occupied_def length_filter_less)

lemma occupied_full: "occupied xs = length xs \<longleftrightarrow> None \<notin> set xs"
proof
  assume "occupied xs = length xs"
  then show "None \<notin> set xs" using occupied_less by fastforce
next
  assume "None \<notin> set xs"
  then have "filter (\<lambda>x. x \<noteq> None) xs = xs" by (subst filter_id_conv) (metis not_None_eq)
  then show "occupied xs = length xs" by (simp add: occupied_def)
qed

end
