(* ===== verification/Layout.thy ===== *)
theory Layout
  imports Prelude
begin

text \<open>
  On-disk format (\<open>xcpfs.h\<close>, \<open>mkfs/mkfs.h\<close>): the packed structures as lists of fields with their
  sizes, the constants of the layout, and typed accessors that read and write a field of a
  page at its byte offset.  The lemmas evaluate the offsets, show which structures fill a
  page, and give the read-over-write laws every other theory uses.
\<close>

section \<open>Packed structures\<close>

text \<open>A packed C structure: field names with their sizes in bytes, in declaration order.\<close>

type_synonym struct_layout = "(string \<times> nat) list"

definition sizeof :: "struct_layout \<Rightarrow> nat" where
  "sizeof l = sum_list (map snd l)"

fun offset_of :: "struct_layout \<Rightarrow> string \<Rightarrow> nat" where
  "offset_of [] f = 0"
| "offset_of ((g, n) # l) f = (if f = g then 0 else n + offset_of l f)"

definition PAGE_SIZE :: nat where "PAGE_SIZE = 4096"
definition PAGE_SHIFT :: nat where "PAGE_SHIFT = 12"
definition PAGE_SECTORS_SHIFT :: nat where "PAGE_SECTORS_SHIFT = 3"
definition XCPFS_MAGIC :: u32 where "XCPFS_MAGIC = 0x520264"

definition DEF_ADDRS_PER_INODE :: nat where "DEF_ADDRS_PER_INODE = 900"
definition DEF_NIDS_PER_INODE :: nat where "DEF_NIDS_PER_INODE = 5"
definition DEF_ADDRS_PER_BLOCK :: nat where "DEF_ADDRS_PER_BLOCK = 1018"
definition DEF_NIDS_PER_BLOCK :: nat where "DEF_NIDS_PER_BLOCK = 1018"

definition xcpfs_nat_entry_sb :: struct_layout where
  "xcpfs_nat_entry_sb = [(''nid'', 4), (''version'', 1), (''ino'', 4), (''block_addr'', 4)]"

definition xcpfs_super_block :: struct_layout where
  "xcpfs_super_block =
     [(''magic'', 4), (''root_ino'', 4), (''meta_ino'', 4), (''node_ino'', 4),
      (''nat_page_count'', 4), (''zit_page_count'', 4), (''ssa_page_count'', 4),
      (''meta_nat_cnt'', 2), (''meta_nat'', 0)]"

definition xcpfs_inode_layout :: struct_layout where
  "xcpfs_inode_layout =
     [(''i_mode'', 2), (''i_uid'', 4), (''i_gid'', 4), (''i_links'', 4), (''i_size'', 8),
      (''i_blocks'', 8), (''i_atime'', 8), (''i_ctime'', 8), (''i_mtime'', 8),
      (''i_atime_nsec'', 4), (''i_ctime_nsec'', 4), (''i_mtime_nsec'', 4), (''i_generation'', 4),
      (''i_addr'', 4 * DEF_ADDRS_PER_INODE), (''i_nid'', 4 * DEF_NIDS_PER_INODE)]"

definition direct_node :: struct_layout where
  "direct_node = [(''addr'', 4 * DEF_ADDRS_PER_BLOCK)]"

definition indirect_node :: struct_layout where
  "indirect_node = [(''nid'', 4 * DEF_NIDS_PER_BLOCK)]"

definition node_footer :: struct_layout where
  "node_footer = [(''nid'', 4), (''ino'', 4), (''flag'', 4), (''cp_ver'', 8), (''next_blkaddr'', 4)]"

text \<open>The node union starts at offset 0; the footer follows its largest member.\<close>

definition node_union_size :: nat where
  "node_union_size = Max {sizeof xcpfs_inode_layout, sizeof direct_node, sizeof indirect_node}"

definition sizeof_node :: nat where
  "sizeof_node = node_union_size + sizeof node_footer"

definition ZONE_VALID_MAP_SIZE :: nat where "ZONE_VALID_MAP_SIZE = 64"

text \<open>The bit field \<open>zone_type:6, vblocks:10\<close> shares one 16-bit unit.\<close>

definition xcpfs_zit_entry :: struct_layout where
  "xcpfs_zit_entry = [(''zone_type_vblocks'', 2), (''valid_map'', ZONE_VALID_MAP_SIZE), (''mtime'', 8)]"

definition ZIT_ENTRY_PER_BLOCK :: nat where
  "ZIT_ENTRY_PER_BLOCK = PAGE_SIZE div sizeof xcpfs_zit_entry"

definition xcpfs_nat_entry :: struct_layout where
  "xcpfs_nat_entry = [(''version'', 1), (''ino'', 4), (''block_addr'', 4)]"

definition NAT_ENTRY_PER_BLOCK :: nat where
  "NAT_ENTRY_PER_BLOCK = PAGE_SIZE div sizeof xcpfs_nat_entry"

text \<open>\<open>sizeof(struct xcpfs_super_block)\<close> does not count the flexible array.\<close>

definition META_NAT_NR :: nat where
  "META_NAT_NR = (PAGE_SIZE - sizeof xcpfs_super_block + 8) div sizeof xcpfs_nat_entry_sb"

definition xcpfs_summary :: struct_layout where
  "xcpfs_summary = [(''nid'', 4), (''version'', 1), (''ofs_in_node'', 2)]"

definition ENTRIES_IN_SUM :: nat where "ENTRIES_IN_SUM = 512"

text \<open>Block ranges of the meta file: NAT blocks of meta nodes, of regular nodes, ZIT, SSA.\<close>

definition REG_NAT_START :: nat where "REG_NAT_START = 6000"
definition ZIT_START :: nat where "ZIT_START = 600000"
definition SSA_START :: nat where "SSA_START = 800000"

definition XCPFS_MAX_FNAME_LEN :: nat where "XCPFS_MAX_FNAME_LEN = 256"

definition xcpfs_dentry :: struct_layout where
  "xcpfs_dentry = [(''name'', XCPFS_MAX_FNAME_LEN), (''ino'', 4), (''namelen'', 4)]"

lemmas layout_consts =
  PAGE_SIZE_def PAGE_SHIFT_def PAGE_SECTORS_SHIFT_def DEF_ADDRS_PER_INODE_def DEF_NIDS_PER_INODE_def
  DEF_ADDRS_PER_BLOCK_def DEF_NIDS_PER_BLOCK_def ZONE_VALID_MAP_SIZE_def ENTRIES_IN_SUM_def
  REG_NAT_START_def ZIT_START_def SSA_START_def XCPFS_MAX_FNAME_LEN_def

lemmas layout_structs =
  xcpfs_nat_entry_sb_def xcpfs_super_block_def xcpfs_inode_layout_def direct_node_def
  indirect_node_def node_footer_def xcpfs_zit_entry_def xcpfs_nat_entry_def xcpfs_summary_def
  xcpfs_dentry_def

lemma struct_sizes [layout]:
  "sizeof xcpfs_nat_entry_sb = 13" "sizeof xcpfs_super_block = 30" "sizeof xcpfs_inode_layout = 3690"
  "sizeof direct_node = 4072" "sizeof indirect_node = 4072" "sizeof node_footer = 24"
  "sizeof xcpfs_zit_entry = 74" "sizeof xcpfs_nat_entry = 9" "sizeof xcpfs_summary = 7"
  "sizeof xcpfs_dentry = 264"
  by (simp_all add: sizeof_def layout_structs layout_consts)

lemma node_sizes [layout]: "node_union_size = 4072" "sizeof_node = 4096"
  by (simp_all add: node_union_size_def sizeof_node_def struct_sizes)

lemma per_block [layout]:
  "ZIT_ENTRY_PER_BLOCK = 55" "NAT_ENTRY_PER_BLOCK = 455" "META_NAT_NR = 313"
  by (simp_all add: ZIT_ENTRY_PER_BLOCK_def NAT_ENTRY_PER_BLOCK_def META_NAT_NR_def struct_sizes
      PAGE_SIZE_def)

section \<open>Field accessors\<close>

subsection \<open>Inode and node pages\<close>

definition i_addr_off :: "nat \<Rightarrow> nat" where
  "i_addr_off k = offset_of xcpfs_inode_layout ''i_addr'' + 4 * k"

definition i_nid_off :: "nat \<Rightarrow> nat" where
  "i_nid_off k = offset_of xcpfs_inode_layout ''i_nid'' + 4 * k"

definition i_addr :: "bytes \<Rightarrow> nat \<Rightarrow> u32" where "i_addr d k = rd32 d (i_addr_off k)"
definition i_nid :: "bytes \<Rightarrow> nat \<Rightarrow> u32" where "i_nid d k = rd32 d (i_nid_off k)"
definition set_i_addr :: "bytes \<Rightarrow> nat \<Rightarrow> u32 \<Rightarrow> bytes" where
  "set_i_addr d k v = wr32 d (i_addr_off k) v"
definition set_i_nid :: "bytes \<Rightarrow> nat \<Rightarrow> u32 \<Rightarrow> bytes" where
  "set_i_nid d k v = wr32 d (i_nid_off k) v"

text \<open>\<open>node->dn.addr[k]\<close> and \<open>node->in.nid[k]\<close> are the same four bytes of the union.\<close>

definition dn_addr :: "bytes \<Rightarrow> nat \<Rightarrow> u32" where "dn_addr d k = rd32 d (4 * k)"
definition in_nid :: "bytes \<Rightarrow> nat \<Rightarrow> u32" where "in_nid d k = rd32 d (4 * k)"
definition set_dn_addr :: "bytes \<Rightarrow> nat \<Rightarrow> u32 \<Rightarrow> bytes" where
  "set_dn_addr d k v = wr32 d (4 * k) v"
definition set_in_nid :: "bytes \<Rightarrow> nat \<Rightarrow> u32 \<Rightarrow> bytes" where
  "set_in_nid d k v = wr32 d (4 * k) v"

lemma inode_offsets [layout]: "i_addr_off k = 70 + 4 * k" "i_nid_off k = 3670 + 4 * k"
  by (simp_all add: i_addr_off_def i_nid_off_def layout_structs layout_consts)

lemma i_addr_set_i_addr [field_simps_disk]:
  "i_addr (set_i_addr d k v) j = (if j = k then v else i_addr d j)"
  by (simp add: i_addr_def set_i_addr_def inode_offsets rd_wr_array)

lemma i_nid_set_i_nid [field_simps_disk]:
  "i_nid (set_i_nid d k v) j = (if j = k then v else i_nid d j)"
  by (simp add: i_nid_def set_i_nid_def inode_offsets rd_wr_array)

lemma dn_addr_set_dn_addr [field_simps_disk]:
  "dn_addr (set_dn_addr d k v) j = (if j = k then v else dn_addr d j)"
  by (simp add: dn_addr_def set_dn_addr_def rd_wr_array0)

lemma in_nid_set_in_nid [field_simps_disk]:
  "in_nid (set_in_nid d k v) j = (if j = k then v else in_nid d j)"
  by (simp add: in_nid_def set_in_nid_def rd_wr_array0)

lemma i_nid_set_i_addr [field_simps_disk]: "k < 900 \<Longrightarrow> i_nid (set_i_addr d k v) j = i_nid d j"
  by (auto simp: i_nid_def set_i_addr_def inode_offsets)

lemma i_addr_set_i_nid [field_simps_disk]: "j < 900 \<Longrightarrow> i_addr (set_i_nid d k v) j = i_addr d j"
  by (auto simp: i_addr_def set_i_nid_def inode_offsets)

lemma dn_in_same: "dn_addr d k = in_nid d k" "set_dn_addr d k v = set_in_nid d k v"
  by (simp_all add: dn_addr_def in_nid_def set_dn_addr_def set_in_nid_def)

lemma zero_fields [simp]:
  "i_addr zero_bytes k = 0" "i_nid zero_bytes k = 0" "dn_addr zero_bytes k = 0"
  "in_nid zero_bytes k = 0"
  by (simp_all add: i_addr_def i_nid_def dn_addr_def in_nid_def)

subsection \<open>Inode attributes\<close>

text \<open>Scalar fields of \<open>struct xcpfs_inode\<close> by name and width.\<close>

definition ri16 :: "bytes \<Rightarrow> string \<Rightarrow> u16" where
  "ri16 d f = rd16 d (offset_of xcpfs_inode_layout f)"
definition ri32 :: "bytes \<Rightarrow> string \<Rightarrow> u32" where
  "ri32 d f = rd32 d (offset_of xcpfs_inode_layout f)"
definition ri64 :: "bytes \<Rightarrow> string \<Rightarrow> u64" where
  "ri64 d f = rd64 d (offset_of xcpfs_inode_layout f)"
definition set_ri16 :: "string \<Rightarrow> u16 \<Rightarrow> bytes \<Rightarrow> bytes" where
  "set_ri16 f v d = wr16 d (offset_of xcpfs_inode_layout f) v"
definition set_ri32 :: "string \<Rightarrow> u32 \<Rightarrow> bytes \<Rightarrow> bytes" where
  "set_ri32 f v d = wr32 d (offset_of xcpfs_inode_layout f) v"
definition set_ri64 :: "string \<Rightarrow> u64 \<Rightarrow> bytes \<Rightarrow> bytes" where
  "set_ri64 f v d = wr64 d (offset_of xcpfs_inode_layout f) v"

lemma inode_field_offsets [layout]:
  "offset_of xcpfs_inode_layout ''i_mode'' = 0"
  "offset_of xcpfs_inode_layout ''i_uid'' = 2"
  "offset_of xcpfs_inode_layout ''i_gid'' = 6"
  "offset_of xcpfs_inode_layout ''i_links'' = 10"
  "offset_of xcpfs_inode_layout ''i_size'' = 14"
  "offset_of xcpfs_inode_layout ''i_blocks'' = 22"
  "offset_of xcpfs_inode_layout ''i_atime'' = 30"
  "offset_of xcpfs_inode_layout ''i_ctime'' = 38"
  "offset_of xcpfs_inode_layout ''i_mtime'' = 46"
  "offset_of xcpfs_inode_layout ''i_atime_nsec'' = 54"
  "offset_of xcpfs_inode_layout ''i_ctime_nsec'' = 58"
  "offset_of xcpfs_inode_layout ''i_mtime_nsec'' = 62"
  "offset_of xcpfs_inode_layout ''i_generation'' = 66"
  by (simp_all add: layout_structs)

lemmas inode_field_defs = ri16_def ri32_def ri64_def set_ri16_def set_ri32_def set_ri64_def

subsection \<open>NAT blocks\<close>

text \<open>Entry \<open>k\<close> of a \<open>struct xcpfs_nat_block\<close>.\<close>

definition raw_ne_ino :: "bytes \<Rightarrow> nat \<Rightarrow> u32" where
  "raw_ne_ino d k = rd32 d (sizeof xcpfs_nat_entry * k + offset_of xcpfs_nat_entry ''ino'')"
definition raw_ne_block_addr :: "bytes \<Rightarrow> nat \<Rightarrow> u32" where
  "raw_ne_block_addr d k =
     rd32 d (sizeof xcpfs_nat_entry * k + offset_of xcpfs_nat_entry ''block_addr'')"
definition set_raw_ne_ino :: "nat \<Rightarrow> u32 \<Rightarrow> bytes \<Rightarrow> bytes" where
  "set_raw_ne_ino k v d =
     wr32 d (sizeof xcpfs_nat_entry * k + offset_of xcpfs_nat_entry ''ino'') v"
definition set_raw_ne_block_addr :: "nat \<Rightarrow> u32 \<Rightarrow> bytes \<Rightarrow> bytes" where
  "set_raw_ne_block_addr k v d =
     wr32 d (sizeof xcpfs_nat_entry * k + offset_of xcpfs_nat_entry ''block_addr'') v"

lemma nat_entry_offsets [layout]:
  "offset_of xcpfs_nat_entry ''ino'' = 1" "offset_of xcpfs_nat_entry ''block_addr'' = 5"
  by (simp_all add: layout_structs)

lemmas raw_ne_defs = raw_ne_ino_def raw_ne_block_addr_def set_raw_ne_ino_def set_raw_ne_block_addr_def

lemma raw_ne_laws [field_simps_disk]:
  "raw_ne_ino (set_raw_ne_ino k v d) j = (if j = k then v else raw_ne_ino d j)"
  "raw_ne_block_addr (set_raw_ne_block_addr k v d) j = (if j = k then v else raw_ne_block_addr d j)"
  "raw_ne_ino (set_raw_ne_block_addr k v d) j = raw_ne_ino d j"
  "raw_ne_block_addr (set_raw_ne_ino k v d) j = raw_ne_block_addr d j"
  by (cases "j = k"; simp add: raw_ne_defs layout rd_wr_struct0 del: One_nat_def)+

subsection \<open>The super block\<close>

definition sb32 :: "bytes \<Rightarrow> string \<Rightarrow> u32" where
  "sb32 d f = rd32 d (offset_of xcpfs_super_block f)"
definition set_sb32 :: "string \<Rightarrow> u32 \<Rightarrow> bytes \<Rightarrow> bytes" where
  "set_sb32 f v d = wr32 d (offset_of xcpfs_super_block f) v"
definition meta_nat_cnt :: "bytes \<Rightarrow> u16" where
  "meta_nat_cnt d = rd16 d (offset_of xcpfs_super_block ''meta_nat_cnt'')"
definition set_meta_nat_cnt :: "u16 \<Rightarrow> bytes \<Rightarrow> bytes" where
  "set_meta_nat_cnt v d = wr16 d (offset_of xcpfs_super_block ''meta_nat_cnt'') v"

definition meta_nat_off :: "nat \<Rightarrow> string \<Rightarrow> nat" where
  "meta_nat_off k f = offset_of xcpfs_super_block ''meta_nat'' + sizeof xcpfs_nat_entry_sb * k
     + offset_of xcpfs_nat_entry_sb f"
definition meta_nat32 :: "bytes \<Rightarrow> nat \<Rightarrow> string \<Rightarrow> u32" where
  "meta_nat32 d k f = rd32 d (meta_nat_off k f)"
definition set_meta_nat32 :: "nat \<Rightarrow> string \<Rightarrow> u32 \<Rightarrow> bytes \<Rightarrow> bytes" where
  "set_meta_nat32 k f v d = wr32 d (meta_nat_off k f) v"

lemma sb_offsets [layout]:
  "offset_of xcpfs_super_block ''magic'' = 0"
  "offset_of xcpfs_super_block ''root_ino'' = 4"
  "offset_of xcpfs_super_block ''meta_ino'' = 8"
  "offset_of xcpfs_super_block ''node_ino'' = 12"
  "offset_of xcpfs_super_block ''nat_page_count'' = 16"
  "offset_of xcpfs_super_block ''zit_page_count'' = 20"
  "offset_of xcpfs_super_block ''ssa_page_count'' = 24"
  "offset_of xcpfs_super_block ''meta_nat_cnt'' = 28"
  "meta_nat_off k ''nid'' = 30 + 13 * k + 0"
  "meta_nat_off k ''ino'' = 30 + 13 * k + 5"
  "meta_nat_off k ''block_addr'' = 30 + 13 * k + 9"
  by (simp_all add: meta_nat_off_def sizeof_def layout_structs)

lemmas sb_field_defs = sb32_def set_sb32_def meta_nat_cnt_def set_meta_nat_cnt_def
  meta_nat32_def set_meta_nat32_def

subsection \<open>Zone information table\<close>

definition ze_off :: "nat \<Rightarrow> string \<Rightarrow> nat" where
  "ze_off k f = sizeof xcpfs_zit_entry * k + offset_of xcpfs_zit_entry f"
definition ze_bits :: "bytes \<Rightarrow> nat \<Rightarrow> u16" where
  "ze_bits d k = rd16 d (ze_off k ''zone_type_vblocks'')"
definition ze_zone_type :: "bytes \<Rightarrow> nat \<Rightarrow> u8" where
  "ze_zone_type d k = ucast (take_bit 6 (ze_bits d k))"
definition ze_vblocks :: "bytes \<Rightarrow> nat \<Rightarrow> int" where
  "ze_vblocks d k = uint (drop_bit 6 (ze_bits d k))"
definition ze_valid_map :: "bytes \<Rightarrow> nat \<Rightarrow> nat \<Rightarrow> u8" where
  "ze_valid_map d k i = d (ze_off k ''valid_map'' + i)"

definition set_ze_zone_type :: "nat \<Rightarrow> u8 \<Rightarrow> bytes \<Rightarrow> bytes" where
  "set_ze_zone_type k v d = wr16 d (ze_off k ''zone_type_vblocks'')
     (push_bit 6 (drop_bit 6 (ze_bits d k)) OR take_bit 6 (ucast v))"
definition set_ze_vblocks :: "nat \<Rightarrow> int \<Rightarrow> bytes \<Rightarrow> bytes" where
  "set_ze_vblocks k v d = wr16 d (ze_off k ''zone_type_vblocks'')
     (push_bit 6 (word_of_int v) OR take_bit 6 (ze_bits d k))"

text \<open>\<open>memcpy(ze->valid_map, src, ZONE_VALID_MAP_SIZE)\<close> and its inverse direction.\<close>

definition copy_to_ze_valid_map :: "nat \<Rightarrow> bytes \<Rightarrow> bytes \<Rightarrow> bytes" where
  "copy_to_ze_valid_map k m d =
     (\<lambda>i. if ze_off k ''valid_map'' \<le> i \<and> i < ze_off k ''valid_map'' + ZONE_VALID_MAP_SIZE
          then m (i - ze_off k ''valid_map'') else d i)"
definition copy_from_ze_valid_map :: "bytes \<Rightarrow> nat \<Rightarrow> bytes \<Rightarrow> bytes" where
  "copy_from_ze_valid_map d k m = (\<lambda>i. if i < ZONE_VALID_MAP_SIZE then ze_valid_map d k i else m i)"

lemma ze_offsets [layout]:
  "ze_off k ''zone_type_vblocks'' = 74 * k + 0" "ze_off k ''valid_map'' = 74 * k + 2"
  by (simp_all add: ze_off_def sizeof_def layout_structs layout_consts)

end
