(* ===== verification/State.thy ===== *)
theory State
  imports Layout
begin

text \<open>
  In-memory state (\<open>xcpfs.h\<close>, \<open>xcpfs_rwsem.h\<close>): the zone table, the NAT cache, pages of the page
  cache, VFS inodes, pending I/O, and the record \<open>fs\<close> (\<open>struct xcpfs_sb_info\<close> with what hangs off
  it).  Execution is sequential: spin locks, page locks and page references have no state here;
  the checkpoint semaphore has, because the code tests whether it is held.
\<close>

section \<open>Enumerations\<close>

text \<open>\<open>enum page_type\<close>; its numbers double as zone types.\<close>

datatype page_type = META_NODE | META_DATA | REG_NODE | REG_DATA | SUPERBLOCK

fun type_code :: "page_type \<Rightarrow> u8" where
  "type_code META_NODE = 1"
| "type_code META_DATA = 2"
| "type_code REG_NODE = 3"
| "type_code REG_DATA = 4"
| "type_code SUPERBLOCK = 5"

text \<open>The zone types \<open>ZONE_TYPE_*\<close>.\<close>

abbreviation (input) "ZONE_TYPE_FREE \<equiv> (0 :: u8)"
abbreviation (input) "ZONE_TYPE_META_NODE \<equiv> (1 :: u8)"
abbreviation (input) "ZONE_TYPE_META_DATA \<equiv> (2 :: u8)"
abbreviation (input) "ZONE_TYPE_NODE \<equiv> (3 :: u8)"
abbreviation (input) "ZONE_TYPE_DATA \<equiv> (4 :: u8)"

text \<open>Zone conditions as the block layer reports them.\<close>

datatype zone_cond =
    COND_NOT_WP | COND_EMPTY | COND_IMP_OPEN | COND_EXP_OPEN | COND_CLOSED
  | COND_READONLY | COND_FULL | COND_OFFLINE

datatype req_op =
    REQ_OP_READ | REQ_OP_WRITE | REQ_OP_ZONE_OPEN | REQ_OP_ZONE_CLOSE | REQ_OP_ZONE_FINISH
  | REQ_OP_ZONE_RESET | REQ_OP_ZONE_APPEND | REQ_OP_ZONE_RESET_ALL

text \<open>\<open>zone_type\<close>s and \<open>page_type\<close>s agree number by number.\<close>

lemma type_codes:
  "type_code META_NODE = ZONE_TYPE_META_NODE" "type_code META_DATA = ZONE_TYPE_META_DATA"
  "type_code REG_NODE = ZONE_TYPE_NODE" "type_code REG_DATA = ZONE_TYPE_DATA"
  by simp_all

lemma type_code_inject [simp]: "type_code a = type_code b \<longleftrightarrow> a = b"
  by (cases a; cases b) simp_all

section \<open>Zones\<close>

record xcpfs_zone_info =
  zi_zone_id :: int
  zi_cond :: zone_cond
  zi_wp :: sector
  zi_start :: sector
  zi_write_inflight :: sector
  zi_dirty :: bool
  zi_zone_type :: u8
  zi_vblocks :: int
  zi_valid_map :: bytes

text \<open>
  A pointer into \<open>zone_info\<close> is its index; \<open>zone_opened\<close> and \<open>zone_active\<close> are arrays of
  such pointers with NULL holes.
\<close>

record xcpfs_zm_info =
  zone_size :: sector
  zone_capacity :: sector
  nr_zones :: int
  max_open_zones :: int
  max_active_zones :: int
  nr_type :: "int list"
  limit_type :: "int list"
  zone_info :: "xcpfs_zone_info list"
  zone_opened_count :: int
  zone_opened :: "nat option list"
  zone_active_count :: int
  zone_active :: "nat option list"

section \<open>Node address table\<close>

record nat_entry =
  ne_pinned :: bool
  ne_dirty :: bool
  ne_nid :: int
  ne_ino :: int
  ne_block_addr :: int

record xcpfs_nat_info =
  cached_nat_count :: int
  nat_list :: "nat_entry list"
  free_nat :: "nat_entry list"
  cp_nat :: "nat_entry list"

section \<open>Pages, inodes, I/O\<close>

text \<open>A page of the page cache, and its key: the owning inode number and the page index.\<close>

record page =
  pg_data :: bytes
  pg_uptodate :: bool
  pg_dirty :: bool
  pg_writeback :: bool

type_synonym pkey = "int \<times> int"

text \<open>Which operation tables \<open>xcpfs_set_inode\<close> attached to an inode.\<close>

datatype inode_ops = No_ops | Data_aops | File_ops | Dir_ops

type_synonym timespec = "u64 \<times> u64"

record inode =
  in_mode :: u16
  in_uid :: u32
  in_gid :: u32
  in_nlink :: u32
  in_size :: int
  in_blocks :: u64
  in_atime :: timespec
  in_ctime :: timespec
  in_mtime :: timespec
  in_generation :: u32
  in_ops :: inode_ops
  in_dirty :: bool

text \<open>\<open>struct xcpfs_io_info\<close>; \<open>wbc\<close> and \<open>op_flags\<close> are hints to the block layer only.\<close>

record xcpfs_io_info =
  xio_ino :: int
  xio_iblock :: int
  xio_old_blkaddr :: int
  xio_new_blkaddr :: int
  xio_page :: "pkey option"
  xio_dpage :: "pkey option"
  xio_op :: req_op
  xio_type :: page_type
  xio_unlock :: bool

section \<open>Read-write semaphores\<close>

text \<open>
  \<open>struct xcpfs_rwsem\<close> wraps the kernel's semaphore: any number of readers or one writer.  In a
  sequential run an acquisition that would have to wait never returns.
\<close>

record xcpfs_rwsem =
  sem_readers :: nat
  sem_writer :: bool

definition init_xpcfs_rwsem :: xcpfs_rwsem where
  "init_xpcfs_rwsem = \<lparr>sem_readers = 0, sem_writer = False\<rparr>"

definition xcpfs_rwsem_is_locked :: "xcpfs_rwsem \<Rightarrow> bool" where
  "xcpfs_rwsem_is_locked sem \<longleftrightarrow> sem_readers sem > 0 \<or> sem_writer sem"

definition xcpfs_down_read_trylock :: "xcpfs_rwsem \<Rightarrow> bool \<times> xcpfs_rwsem" where
  "xcpfs_down_read_trylock sem =
     (if sem_writer sem then (False, sem)
      else (True, sem\<lparr>sem_readers := Suc (sem_readers sem)\<rparr>))"

definition xcpfs_down_write_trylock :: "xcpfs_rwsem \<Rightarrow> bool \<times> xcpfs_rwsem" where
  "xcpfs_down_write_trylock sem =
     (if xcpfs_rwsem_is_locked sem then (False, sem) else (True, sem\<lparr>sem_writer := True\<rparr>))"

definition xcpfs_down_read :: "xcpfs_rwsem \<Rightarrow> xcpfs_rwsem option" where
  "xcpfs_down_read sem =
     (case xcpfs_down_read_trylock sem of (ok, sem') \<Rightarrow> if ok then Some sem' else None)"

definition xcpfs_down_write :: "xcpfs_rwsem \<Rightarrow> xcpfs_rwsem option" where
  "xcpfs_down_write sem =
     (case xcpfs_down_write_trylock sem of (ok, sem') \<Rightarrow> if ok then Some sem' else None)"

definition xcpfs_up_read :: "xcpfs_rwsem \<Rightarrow> xcpfs_rwsem" where
  "xcpfs_up_read sem = sem\<lparr>sem_readers := sem_readers sem - 1\<rparr>"

definition xcpfs_up_write :: "xcpfs_rwsem \<Rightarrow> xcpfs_rwsem" where
  "xcpfs_up_write sem = sem\<lparr>sem_writer := False\<rparr>"

text \<open>Readers and a writer exclude each other.\<close>

definition rwsem_ok :: "xcpfs_rwsem \<Rightarrow> bool" where
  "rwsem_ok sem \<longleftrightarrow> \<not> (sem_readers sem > 0 \<and> sem_writer sem)"

lemmas rwsem_defs = xcpfs_rwsem_is_locked_def xcpfs_down_read_trylock_def
  xcpfs_down_write_trylock_def xcpfs_down_read_def xcpfs_down_write_def xcpfs_up_read_def
  xcpfs_up_write_def rwsem_ok_def

lemma up_down_read: "xcpfs_down_read sem = Some sem' \<Longrightarrow> xcpfs_up_read sem' = sem"
  by (auto simp: rwsem_defs split: if_splits)

lemma up_down_write: "xcpfs_down_write sem = Some sem' \<Longrightarrow> xcpfs_up_write sem' = sem"
  by (auto simp: rwsem_defs split: if_splits)

lemma rwsem_ok_preserved:
  "rwsem_ok sem \<Longrightarrow> xcpfs_down_read sem = Some sem' \<Longrightarrow> rwsem_ok sem'"
  "rwsem_ok sem \<Longrightarrow> xcpfs_down_write sem = Some sem' \<Longrightarrow> rwsem_ok sem'"
  by (auto simp: rwsem_defs split: if_splits)

section \<open>The file system\<close>

text \<open>\<open>struct xcpfs_cpc\<close>; its page is the super block being built.\<close>

record xcpfs_cpc =
  cpc_nat_ptr :: int
  cpc_restart :: bool
  cpc_raw_sb :: bytes

text \<open>
  \<open>fs\<close> is \<open>struct xcpfs_sb_info\<close> with the kernel objects the module works on: the page cache,
  the inode cache, the medium (one page per block address), and the writes submitted but not
  yet completed.
\<close>

record fs =
  fs_root_ino :: int
  fs_meta_ino :: int
  fs_node_ino :: int
  nat_page_count :: int
  zit_page_count :: int
  ssa_page_count :: int
  zm :: xcpfs_zm_info
  nm :: xcpfs_nat_info
  cp_sem :: xcpfs_rwsem
  cp_phase :: int
  cpc :: "xcpfs_cpc option"
  cache :: "pkey \<Rightarrow> page option"
  inodes :: "int \<Rightarrow> inode option"
  disk :: "int \<Rightarrow> bytes"
  bios :: "xcpfs_io_info list"

end
