(* ===== verification/Zone.thy ===== *)
theory Zone
  imports State
begin

text \<open>
  The zone manager (\<open>zone_mgmt.c\<close>): the arrays of open and active zones, the zone commands, block
  validity, and the choice of a zone for a write.  The block device is a parameter: what its
  queue reports, and the result of a synchronous zone command.  The manager's spin lock has no
  state in a sequential run.
\<close>

section \<open>Slot arrays and counters\<close>

text \<open>\<open>__insert_zone\<close> and \<open>__remove_zone\<close>: the arrays have exactly \<open>len\<close> slots.\<close>

fun insert_zone_slot :: "'a option list \<Rightarrow> 'a \<Rightarrow> int \<times> 'a option list" where
  "insert_zone_slot [] tar = (-1, [])"
| "insert_zone_slot (None # l) tar = (0, Some tar # l)"
| "insert_zone_slot (Some z # l) tar = (case insert_zone_slot l tar of (r, l') \<Rightarrow> (r, Some z # l'))"

fun remove_zone_slot :: "'a option list \<Rightarrow> 'a \<Rightarrow> int \<times> 'a option list" where
  "remove_zone_slot [] tar = (-1, [])"
| "remove_zone_slot (z # l) tar =
     (if z = Some tar then (0, None # l)
      else case remove_zone_slot l tar of (r, l') \<Rightarrow> (r, z # l'))"

definition insert_zone_opened :: "xcpfs_zm_info \<Rightarrow> nat \<Rightarrow> int \<times> xcpfs_zm_info" where
  "insert_zone_opened m tar = (case insert_zone_slot (zone_opened m) tar of (ret, l) \<Rightarrow>
     if ret \<noteq> 0 then (ret, m)
     else (ret, m\<lparr>zone_opened := l, zone_opened_count := zone_opened_count m + 1\<rparr>))"

definition remove_zone_opened :: "xcpfs_zm_info \<Rightarrow> nat \<Rightarrow> int \<times> xcpfs_zm_info" where
  "remove_zone_opened m tar = (case remove_zone_slot (zone_opened m) tar of (ret, l) \<Rightarrow>
     if ret \<noteq> 0 then (ret, m)
     else (ret, m\<lparr>zone_opened := l, zone_opened_count := zone_opened_count m - 1\<rparr>))"

definition insert_zone_active :: "xcpfs_zm_info \<Rightarrow> nat \<Rightarrow> int \<times> xcpfs_zm_info" where
  "insert_zone_active m tar = (case insert_zone_slot (zone_active m) tar of (ret, l) \<Rightarrow>
     if ret \<noteq> 0 then (ret, m)
     else (ret, m\<lparr>zone_active := l, zone_active_count := zone_active_count m + 1\<rparr>))"

definition remove_zone_active :: "xcpfs_zm_info \<Rightarrow> nat \<Rightarrow> int \<times> xcpfs_zm_info" where
  "remove_zone_active m tar = (case remove_zone_slot (zone_active m) tar of (ret, l) \<Rightarrow>
     if ret \<noteq> 0 then (ret, m)
     else (ret, m\<lparr>zone_active := l, zone_active_count := zone_active_count m - 1\<rparr>))"

section \<open>Zone commands\<close>

text \<open>Access to \<open>zm->zone_info[i]\<close>; an index outside the table is undefined.\<close>

definition zone_at :: "xcpfs_zm_info \<Rightarrow> int \<Rightarrow> xcpfs_zone_info option" where
  "zone_at m i = (if 0 \<le> i \<and> nat i < length (zone_info m) then Some (zone_info m ! nat i) else None)"

definition zone_upd :: "int \<Rightarrow> (xcpfs_zone_info \<Rightarrow> xcpfs_zone_info) \<Rightarrow> xcpfs_zm_info \<Rightarrow> xcpfs_zm_info" where
  "zone_upd i f m = m\<lparr>zone_info := (zone_info m)[nat i := f (zone_info m ! nat i)]\<rparr>"

text \<open>
  The block device: properties of its queue and \<open>submit_bio_wait\<close> on a chain of zone commands
  (the sectors addressed, and the status).
\<close>

record bdev =
  bdev_is_zoned :: bool
  bdev_read_only :: bool
  bdev_zone_sectors :: sector
  bdev_nr_sectors :: sector
  bdev_is_zone_start :: "sector \<Rightarrow> bool"
  submit_bio_wait :: "req_op \<Rightarrow> sector list \<Rightarrow> int"

fun op_is_zone_mgmt :: "req_op \<Rightarrow> bool" where
  "op_is_zone_mgmt REQ_OP_ZONE_RESET = True"
| "op_is_zone_mgmt REQ_OP_ZONE_OPEN = True"
| "op_is_zone_mgmt REQ_OP_ZONE_CLOSE = True"
| "op_is_zone_mgmt REQ_OP_ZONE_FINISH = True"
| "op_is_zone_mgmt _ = False"

text \<open>The loop that chains one bio per zone; it runs for ever when the sectors wrap around.\<close>

partial_function (option) mgmt_bios :: "sector \<Rightarrow> sector \<Rightarrow> sector \<Rightarrow> sector list \<Rightarrow> sector list option"
  where
  "mgmt_bios zone_sectors sector end_sector chain =
     (if sector < end_sector
      then mgmt_bios zone_sectors (sector + zone_sectors) end_sector (chain @ [sector])
      else Some chain)"

definition xcpfs_blkdev_zone_mgmt :: "bdev \<Rightarrow> req_op \<Rightarrow> sector \<Rightarrow> sector \<Rightarrow> int option" where
  "xcpfs_blkdev_zone_mgmt bd rq sector nr_sectors =
     (let end_sector = sector + nr_sectors in
      if \<not> bdev_is_zoned bd then Some (- EOPNOTSUPP)
      else if bdev_read_only bd then Some (- EPERM)
      else if \<not> op_is_zone_mgmt rq then Some (- EOPNOTSUPP)
      else if end_sector \<le> sector \<or> end_sector > bdev_nr_sectors bd then Some (- EINVAL)
      else if \<not> bdev_is_zone_start bd sector then Some (- EINVAL)
      else if \<not> bdev_is_zone_start bd nr_sectors \<and> end_sector \<noteq> bdev_nr_sectors bd
        then Some (- EINVAL)
      else do {
        chain \<leftarrow> mgmt_bios (bdev_zone_sectors bd) sector end_sector [];
        Some (submit_bio_wait bd rq chain)
      })"

abbreviation (input) "EMAXOPEN \<equiv> (1 :: int)"
abbreviation (input) "EMAXACTIVE \<equiv> (2 :: int)"
abbreviation (input) "EZONE \<equiv> (3 :: int)"

definition xcpfs_zone_open :: "bdev \<Rightarrow> xcpfs_zm_info \<Rightarrow> int \<Rightarrow> (int \<times> xcpfs_zm_info) option" where
  "xcpfs_zone_open bd m zid = do {
     zi \<leftarrow> zone_at m zid;
     if zi_cond zi = COND_EXP_OPEN then Some (0, m)
     else if zone_opened_count m = max_open_zones m then Some (- EMAXOPEN, m)
     else if zone_active_count m = max_active_zones m then Some (- EMAXACTIVE, m)
     else do {
       ret \<leftarrow> xcpfs_blkdev_zone_mgmt bd REQ_OP_ZONE_OPEN (zi_start zi) (zone_size m);
       if ret \<noteq> 0 then Some (ret, m)
       else let m1 = snd (insert_zone_opened m (nat zid));
                m2 = (if zi_cond zi \<noteq> COND_CLOSED then snd (insert_zone_active m1 (nat zid)) else m1)
            in Some (ret, zone_upd zid (\<lambda>z. z\<lparr>zi_cond := COND_EXP_OPEN, zi_dirty := True\<rparr>) m2)
     }
   }"

definition xcpfs_zone_close :: "bdev \<Rightarrow> xcpfs_zm_info \<Rightarrow> int \<Rightarrow> (int \<times> xcpfs_zm_info) option" where
  "xcpfs_zone_close bd m zid = do {
     zi \<leftarrow> zone_at m zid;
     if zi_cond zi \<noteq> COND_EXP_OPEN then Some (- EZONE, m)
     else do {
       ret \<leftarrow> xcpfs_blkdev_zone_mgmt bd REQ_OP_ZONE_CLOSE (zi_start zi) (zone_size m);
       if ret \<noteq> 0 then Some (ret, m)
       else Some (ret, zone_upd zid (\<lambda>z. z\<lparr>zi_cond := COND_CLOSED, zi_dirty := True\<rparr>)
                   (snd (remove_zone_opened m (nat zid))))
     }
   }"

definition xcpfs_zone_finish :: "bdev \<Rightarrow> xcpfs_zm_info \<Rightarrow> int \<Rightarrow> (int \<times> xcpfs_zm_info) option" where
  "xcpfs_zone_finish bd m zid = do {
     zi \<leftarrow> zone_at m zid;
     if zi_cond zi = COND_EMPTY then Some (- EZONE, m)
     else do {
       ret \<leftarrow> xcpfs_blkdev_zone_mgmt bd REQ_OP_ZONE_FINISH (zi_start zi) (zone_size m);
       if ret \<noteq> 0 then Some (ret, m)
       else let m1 = snd (remove_zone_opened m (nat zid));
                m2 = snd (remove_zone_active m1 (nat zid))
            in Some (ret, zone_upd zid (\<lambda>z. z\<lparr>zi_cond := COND_FULL, zi_wp := zone_capacity m,
                      zi_dirty := True\<rparr>) m2)
     }
   }"

definition xcpfs_zone_reset :: "bdev \<Rightarrow> xcpfs_zm_info \<Rightarrow> int \<Rightarrow> (int \<times> xcpfs_zm_info) option" where
  "xcpfs_zone_reset bd m zid = do {
     zi \<leftarrow> zone_at m zid;
     ret \<leftarrow> xcpfs_blkdev_zone_mgmt bd REQ_OP_ZONE_RESET (zi_start zi) (zone_size m);
     if ret \<noteq> 0 then Some (ret, m)
     else let m1 = snd (remove_zone_opened m (nat zid));
              m2 = snd (remove_zone_active m1 (nat zid))
          in Some (ret, zone_upd zid (\<lambda>z. z\<lparr>zi_cond := COND_EMPTY, zi_wp := 0, zi_dirty := True\<rparr>) m2)
   }"

definition xcpfs_zone_mgmt :: "bdev \<Rightarrow> xcpfs_zm_info \<Rightarrow> int \<Rightarrow> req_op \<Rightarrow> (int \<times> xcpfs_zm_info) option" where
  "xcpfs_zone_mgmt bd m zid rq =
     (case rq of
        REQ_OP_ZONE_OPEN \<Rightarrow> xcpfs_zone_open bd m zid
      | REQ_OP_ZONE_CLOSE \<Rightarrow> xcpfs_zone_close bd m zid
      | REQ_OP_ZONE_FINISH \<Rightarrow> xcpfs_zone_finish bd m zid
      | REQ_OP_ZONE_RESET \<Rightarrow> xcpfs_zone_reset bd m zid
      | _ \<Rightarrow> Some (- EIO, m))"

section \<open>Block validity\<close>

text \<open>Blocks per zone, \<open>zm->zone_size >> PAGE_SECTORS_SHIFT\<close>; dividing by 0 traps.\<close>

definition zone_blocks :: "xcpfs_zm_info \<Rightarrow> u64" where
  "zone_blocks m = drop_bit PAGE_SECTORS_SHIFT (zone_size m)"

definition blk2zone :: "xcpfs_zm_info \<Rightarrow> int \<Rightarrow> int option" where
  "blk2zone m iblock = (if zone_blocks m = 0 then None else Some (udiv iblock (zone_blocks m)))"

definition blk2idx :: "xcpfs_zm_info \<Rightarrow> int \<Rightarrow> int option" where
  "blk2idx m blkaddr = (if zone_blocks m = 0 then None else Some (umod blkaddr (zone_blocks m)))"

text \<open>The bitmap of a zone is allocated with \<open>ZONE_VALID_MAP_SIZE * 4\<close> bytes.\<close>

definition valid_map_bits :: nat where
  "valid_map_bits = 8 * (ZONE_VALID_MAP_SIZE * 4)"

definition bit_index :: "int \<Rightarrow> nat option" where
  "bit_index i = (if 0 \<le> i \<and> nat i < valid_map_bits then Some (nat i) else None)"

text \<open>
  \<open>(blkaddr + 1) << PAGE_SECTORS_SHIFT\<close> is computed in \<open>int\<close> and then compared as a sector.
\<close>

definition validate_blkaddr :: "xcpfs_zm_info \<Rightarrow> int \<Rightarrow> xcpfs_zm_info option" where
  "validate_blkaddr m blkaddr = do {
     zid \<leftarrow> blk2zone m blkaddr;
     idx \<leftarrow> blk2idx m blkaddr;
     zi \<leftarrow> zone_at m zid;
     b \<leftarrow> bit_index idx;
     let wp = max (zi_wp zi) (word_of_int (int_wrap ((blkaddr + 1) * 2 ^ PAGE_SECTORS_SHIFT)));
         zi1 = zi\<lparr>zi_valid_map := bm_set (zi_valid_map zi) b, zi_vblocks := zi_vblocks zi + 1,
                  zi_dirty := True, zi_wp := wp\<rparr>;
         m1 = zone_upd zid (\<lambda>_. zi1) m
     in if wp = zone_capacity m + zi_start zi
        then let m2 = zone_upd zid (\<lambda>z. z\<lparr>zi_cond := COND_FULL\<rparr>) m1;
                 m3 = snd (remove_zone_active m2 (nat zid))
             in Some (snd (remove_zone_opened m3 (nat zid)))
        else Some m1
   }"

definition invalidate_blkaddr :: "xcpfs_zm_info \<Rightarrow> int \<Rightarrow> xcpfs_zm_info option" where
  "invalidate_blkaddr m blkaddr = do {
     zid \<leftarrow> blk2zone m blkaddr;
     idx \<leftarrow> blk2idx m blkaddr;
     zi \<leftarrow> zone_at m zid;
     b \<leftarrow> bit_index idx;
     Some (zone_upd zid (\<lambda>z. z\<lparr>zi_valid_map := bm_clear (zi_valid_map z) b,
                               zi_vblocks := zi_vblocks z - 1, zi_dirty := True\<rparr>) m)
   }"

section \<open>Choosing a zone for a write\<close>

text \<open>The first empty zone from zone 2 on, and 0 when there is none.\<close>

definition get_empty_zone :: "xcpfs_zm_info \<Rightarrow> int" where
  "get_empty_zone m =
     (case find (\<lambda>z. zi_cond z = COND_EMPTY) (drop 2 (zone_info m)) of
        Some z \<Rightarrow> zi_zone_id z
      | None \<Rightarrow> 0)"

definition zone_is_full :: "xcpfs_zm_info \<Rightarrow> int \<Rightarrow> bool option" where
  "zone_is_full m zid = map_option (\<lambda>z. zi_cond z = COND_FULL) (zone_at m zid)"

definition LONG_MAX :: sector where
  "LONG_MAX = 2 ^ 63 - 1"

text \<open>One pass over the open zones, with the locals \<open>inflight\<close> and \<open>tar\<close>.\<close>

fun scan_opened :: "xcpfs_zm_info \<Rightarrow> u8 \<Rightarrow> nat option list \<Rightarrow> sector \<times> nat option \<Rightarrow> (sector \<times> nat option) option"
  where
  "scan_opened m ty [] acc = Some acc"
| "scan_opened m ty (None # l) acc = scan_opened m ty l acc"
| "scan_opened m ty (Some k # l) (inflight, tar) = do {
     zi \<leftarrow> zone_at m (int k);
     if zi_zone_type zi = ty \<and> zi_wp zi + zi_write_inflight zi - zi_start zi < inflight
     then scan_opened m ty l (zi_wp zi + zi_write_inflight zi, Some k)
     else scan_opened m ty l (inflight, tar)
   }"

text \<open>The block at label \<open>open\<close>: open an empty zone and give it the type.\<close>

definition get_zone_open :: "bdev \<Rightarrow> page_type \<Rightarrow> fs \<Rightarrow> fs option" where
  "get_zone_open bd ty s =
     (let m = zm s in
      if zone_opened_count m < max_open_zones m then do {
        let zid = get_empty_zone m;
        (_, m1) \<leftarrow> xcpfs_zone_open bd m zid;
        _ \<leftarrow> zone_at m1 zid;
        let m2 = zone_upd zid (\<lambda>z. z\<lparr>zi_zone_type := type_code ty\<rparr>) m1;
        let t = unat (type_code ty);
        let m3 = m2\<lparr>nr_type := (nr_type m2)[t := nr_type m2 ! t + 1]\<rparr>;
        let s1 = s\<lparr>zm := m3\<rparr>;
        if xcpfs_rwsem_is_locked (cp_sem s)
        then do {
          c \<leftarrow> cpc s;
          Some (s1\<lparr>cpc := Some (c\<lparr>cpc_restart := True\<rparr>)\<rparr>)
        }
        else Some s1
      }
      else Some s)"

text \<open>The loop from label \<open>retry\<close>; it need not end.\<close>

partial_function (option) get_zone_retry :: "bdev \<Rightarrow> page_type \<Rightarrow> sector \<Rightarrow> fs \<Rightarrow> (int \<times> fs) option" where
  "get_zone_retry bd ty inflight s =
     Option.bind (scan_opened (zm s) (type_code ty) (zone_opened (zm s)) (inflight, None))
       (\<lambda>r. case snd r of
              Some k \<Rightarrow> Some (zi_zone_id (zone_info (zm s) ! k), s)
            | None \<Rightarrow> Option.bind (get_zone_open bd ty s) (\<lambda>s'. get_zone_retry bd ty (fst r) s'))"

definition get_zone :: "bdev \<Rightarrow> page_type \<Rightarrow> fs \<Rightarrow> (int \<times> fs) option" where
  "get_zone bd ty s =
     (let t = unat (type_code ty) in
      if length (nr_type (zm s)) \<le> t \<or> length (limit_type (zm s)) \<le> t then None
      else if nr_type (zm s) ! t < limit_type (zm s) ! t
      then Option.bind (get_zone_open bd ty s) (get_zone_retry bd ty LONG_MAX)
      else get_zone_retry bd ty LONG_MAX s)"

text \<open>\<open>alloc_zone\<close> fills \<open>xio->new_blkaddr\<close>: the old block for a read, a zone start for a write.\<close>

definition alloc_zone :: "bdev \<Rightarrow> xcpfs_io_info \<Rightarrow> fs \<Rightarrow> (xcpfs_io_info \<times> fs) option" where
  "alloc_zone bd xio s =
     (if xio_op xio = REQ_OP_READ
      then Some (xio\<lparr>xio_new_blkaddr := xio_old_blkaddr xio\<rparr>, s)
      else do {
        zid \<leftarrow> blk2zone (zm s) (xio_old_blkaddr xio);
        full \<leftarrow> zone_is_full (zm s) zid;
        (zid', s1) \<leftarrow> (if full \<or> zid = 0 then get_zone bd (xio_type xio) s else Some (zid, s));
        zi \<leftarrow> zone_at (zm s1) zid';
        m2 \<leftarrow> invalidate_blkaddr (zm s1) (xio_old_blkaddr xio);
        Some (xio\<lparr>xio_new_blkaddr := to_int (drop_bit PAGE_SECTORS_SHIFT (zi_start zi))\<rparr>, s1\<lparr>zm := m2\<rparr>)
      })"

text \<open>\<open>start_flight\<close> and \<open>end_flight\<close> have their counter updates commented out.\<close>

definition start_flight :: "xcpfs_zm_info \<Rightarrow> int \<Rightarrow> xcpfs_zm_info" where
  "start_flight m zid = m"

definition end_flight :: "xcpfs_zm_info \<Rightarrow> int \<Rightarrow> xcpfs_zm_info" where
  "end_flight m zid = m"

section \<open>The slot-array interface\<close>

text \<open>
  What the zone manager relies on: insertion of a new element succeeds exactly when there is
  room, removal exactly when the element is there, and a failed operation changes nothing.
\<close>

locale slot_store =
  fixes ins :: "'q \<Rightarrow> 'a \<Rightarrow> int \<times> 'q"
    and rem :: "'q \<Rightarrow> 'a \<Rightarrow> int \<times> 'q"
    and elems :: "'q \<Rightarrow> 'a set"
    and room :: "'q \<Rightarrow> nat"
    and size_of :: "'q \<Rightarrow> nat"
    and invar :: "'q \<Rightarrow> bool"
  assumes ins_room: "invar q \<Longrightarrow> a \<notin> elems q \<Longrightarrow> 0 < room q \<Longrightarrow>
      \<exists>q'. ins q a = (0, q') \<and> invar q' \<and> elems q' = insert a (elems q) \<and> Suc (room q') = room q"
    and ins_full: "room q = 0 \<Longrightarrow> ins q a = (-1, q)"
    and rem_mem: "invar q \<Longrightarrow> a \<in> elems q \<Longrightarrow>
      \<exists>q'. rem q a = (0, q') \<and> invar q' \<and> elems q' = elems q - {a} \<and> room q' = Suc (room q)"
    and rem_nomem: "a \<notin> elems q \<Longrightarrow> rem q a = (-1, q)"
    and size_elems: "invar q \<Longrightarrow> finite (elems q) \<and> size_of q = card (elems q) + room q"
    and size_ins: "size_of (snd (ins q a)) = size_of q"
    and size_rem: "size_of (snd (rem q a)) = size_of q"
begin

text \<open>A counter kept next to the store: it starts as the number of elements and stays so.\<close>

lemma ins_counted:
  assumes "invar q" "cnt = int (card (elems q))" "a \<notin> elems q" "cnt < int (size_of q)"
  shows "\<exists>q'. ins q a = (0, q') \<and> invar q' \<and> elems q' = insert a (elems q) \<and>
    cnt + 1 = int (card (elems q')) \<and> size_of q' = size_of q"
proof -
  have "0 < room q"
    using assms size_elems [of q] by auto
  then obtain q' where q': "ins q a = (0, q')" "invar q'" "elems q' = insert a (elems q)"
    using ins_room assms by blast
  moreover have "size_of q' = size_of q"
    using q'(1) size_ins [of q a] by simp
  ultimately show ?thesis
    using assms size_elems [of q] by auto
qed

lemma rem_counted:
  assumes "invar q" "cnt = int (card (elems q))"
  shows "\<exists>r q'. rem q a = (r, q') \<and> (r = 0 \<longleftrightarrow> a \<in> elems q) \<and> invar q' \<and> elems q' = elems q - {a} \<and>
    (if r = 0 then cnt - 1 else cnt) = int (card (elems q')) \<and> size_of q' = size_of q"
proof (cases "a \<in> elems q")
  case True
  then obtain q' where q': "rem q a = (0, q')" "invar q'" "elems q' = elems q - {a}"
    using rem_mem assms by blast
  moreover have "size_of q' = size_of q"
    using q'(1) size_rem [of q a] by simp
  moreover have "0 < card (elems q)"
    using True assms(1) size_elems card_gt_0_iff by blast
  ultimately show ?thesis
    using True assms by (simp add: card_Diff_singleton)
next
  case False
  then show ?thesis using rem_nomem assms by simp
qed

lemma ins_then_rem:
  "invar q \<Longrightarrow> a \<notin> elems q \<Longrightarrow> 0 < room q \<Longrightarrow> elems (snd (rem (snd (ins q a)) a)) = elems q"
  using ins_room [of q a] rem_mem [of "snd (ins q a)" a] by fastforce

end

lemma insert_zone_slot_free:
  "slots_distinct l \<Longrightarrow> a \<notin> slot_set l \<Longrightarrow> None \<in> set l \<Longrightarrow>
    \<exists>l'. insert_zone_slot l a = (0, l') \<and> slots_distinct l' \<and> slot_set l' = insert a (slot_set l) \<and>
      occupied l' = Suc (occupied l) \<and> length l' = length l"
proof (induction l a rule: insert_zone_slot.induct)
  case (3 z l tar)
  then obtain l' where "insert_zone_slot l tar = (0, l')" "slots_distinct l'"
    "slot_set l' = insert tar (slot_set l)" "occupied l' = Suc (occupied l)" "length l' = length l"
    by auto
  with 3 show ?case by auto
qed auto

lemma insert_zone_slot_full: "None \<notin> set l \<Longrightarrow> insert_zone_slot l a = (-1, l)"
  by (induction l a rule: insert_zone_slot.induct) auto

lemma remove_zone_slot_mem:
  "slots_distinct l \<Longrightarrow> a \<in> slot_set l \<Longrightarrow>
    \<exists>l'. remove_zone_slot l a = (0, l') \<and> slots_distinct l' \<and> slot_set l' = slot_set l - {a} \<and>
      Suc (occupied l') = occupied l \<and> length l' = length l"
proof (induction l a rule: remove_zone_slot.induct)
  case (2 z l tar)
  show ?case
  proof (cases "z = Some tar")
    case True
    with 2 show ?thesis by auto
  next
    case False
    with 2 have "slots_distinct l" "tar \<in> slot_set l" by (cases z; simp)+
    with 2 False obtain l' where "remove_zone_slot l tar = (0, l')" "slots_distinct l'"
      "slot_set l' = slot_set l - {tar}" "Suc (occupied l') = occupied l" "length l' = length l"
      by auto
    with 2 False show ?thesis by (cases z) auto
  qed
qed simp

lemma remove_zone_slot_nomem: "a \<notin> slot_set l \<Longrightarrow> remove_zone_slot l a = (-1, l)"
proof (induction l a rule: remove_zone_slot.induct)
  case (2 z l tar)
  then show ?case by (cases z) auto
qed simp

lemma slot_length:
  "length (snd (insert_zone_slot l a)) = length l"
  "length (snd (remove_zone_slot l a)) = length l"
proof -
  show "length (snd (insert_zone_slot l a)) = length l"
    by (induction l a rule: insert_zone_slot.induct) (auto split: prod.splits)
  show "length (snd (remove_zone_slot l a)) = length l"
    by (induction l) (auto split: prod.splits)
qed

lemma finite_slot_set [simp]: "finite (slot_set l)"
proof (induction l)
  case (Cons z l)
  then show ?case by (cases z) auto
qed simp

lemma card_slot_set: "slots_distinct l \<Longrightarrow> card (slot_set l) = occupied l"
proof (induction l)
  case (Cons z l)
  then show ?case by (cases z) auto
qed simp

lemma free_slot: "occupied l < length l \<longleftrightarrow> None \<in> set l"
  using occupied_le [of l] occupied_full [of l] by linarith

interpretation zs: slot_store insert_zone_slot remove_zone_slot slot_set
  "\<lambda>l. length l - occupied l" length slots_distinct
proof unfold_locales
  fix q :: "'a option list" and a
  show "slots_distinct q \<Longrightarrow> a \<notin> slot_set q \<Longrightarrow> 0 < length q - occupied q \<Longrightarrow>
      \<exists>q'. insert_zone_slot q a = (0, q') \<and> slots_distinct q' \<and> slot_set q' = insert a (slot_set q) \<and>
        Suc (length q' - occupied q') = length q - occupied q"
    using insert_zone_slot_free [of q a] free_slot [of q] by fastforce
  show "length q - occupied q = 0 \<Longrightarrow> insert_zone_slot q a = (-1, q)"
    using insert_zone_slot_full [of q a] free_slot [of q] by fastforce
  show "slots_distinct q \<Longrightarrow> a \<in> slot_set q \<Longrightarrow>
      \<exists>q'. remove_zone_slot q a = (0, q') \<and> slots_distinct q' \<and> slot_set q' = slot_set q - {a} \<and>
        length q' - occupied q' = Suc (length q - occupied q)"
    using remove_zone_slot_mem [of q a] occupied_le [of q] by fastforce
  show "a \<notin> slot_set q \<Longrightarrow> remove_zone_slot q a = (-1, q)"
    by (rule remove_zone_slot_nomem)
  show "slots_distinct q \<Longrightarrow> finite (slot_set q) \<and> length q = card (slot_set q) + (length q - occupied q)"
    using occupied_le [of q] by (simp add: card_slot_set)
qed (simp_all add: slot_length)

section \<open>The invariant of the zone table\<close>

definition cond_open :: "zone_cond \<Rightarrow> bool" where
  "cond_open c \<longleftrightarrow> c = COND_IMP_OPEN \<or> c = COND_EXP_OPEN"

definition cond_active :: "zone_cond \<Rightarrow> bool" where
  "cond_active c \<longleftrightarrow> cond_open c \<or> c = COND_CLOSED"

lemma cond_simps [simp]:
  "cond_open COND_EXP_OPEN" "cond_open COND_IMP_OPEN" "\<not> cond_open COND_CLOSED"
  "\<not> cond_open COND_EMPTY" "\<not> cond_open COND_FULL"
  "cond_active COND_EXP_OPEN" "cond_active COND_IMP_OPEN" "cond_active COND_CLOSED"
  "\<not> cond_active COND_EMPTY" "\<not> cond_active COND_FULL"
  by (simp_all add: cond_open_def cond_active_def)

definition zones_with :: "(zone_cond \<Rightarrow> bool) \<Rightarrow> xcpfs_zm_info \<Rightarrow> nat set" where
  "zones_with C m = {k. k < length (zone_info m) \<and> C (zi_cond (zone_info m ! k))}"

text \<open>
  A slot array, its counter and its limit track a set of zones: every zone of the set has one
  slot, the counter is the number of zones, the array has as many slots as the limit.
\<close>

definition tracks :: "nat option list \<Rightarrow> int \<Rightarrow> int \<Rightarrow> nat set \<Rightarrow> bool" where
  "tracks l cnt mx K \<longleftrightarrow>
     slots_distinct l \<and> slot_set l = K \<and> cnt = int (card (slot_set l)) \<and> int (length l) = mx"

definition table_ok :: "xcpfs_zm_info \<Rightarrow> bool" where
  "table_ok m \<longleftrightarrow> nr_zones m = int (length (zone_info m)) \<and>
     (\<forall>k < length (zone_info m). zi_zone_id (zone_info m ! k) = int k)"

definition zm_ok :: "xcpfs_zm_info \<Rightarrow> bool" where
  "zm_ok m \<longleftrightarrow> table_ok m \<and>
     tracks (zone_opened m) (zone_opened_count m) (max_open_zones m) (zones_with cond_open m) \<and>
     tracks (zone_active m) (zone_active_count m) (max_active_zones m) (zones_with cond_active m)"

lemma finite_zones_with [simp]: "finite (zones_with C m)"
  by (simp add: zones_with_def)

lemma zone_at_Some:
  "zone_at m zid = Some zi \<longleftrightarrow> 0 \<le> zid \<and> nat zid < length (zone_info m) \<and> zi = zone_info m ! nat zid"
  by (auto simp: zone_at_def)

lemma zones_with_upd:
  "nat zid < length (zone_info m) \<Longrightarrow>
    zones_with C (zone_upd zid f m) =
      (if C (zi_cond (f (zone_info m ! nat zid))) then insert (nat zid) (zones_with C m)
       else zones_with C m - {nat zid})"
  by (auto simp: zones_with_def zone_upd_def nth_list_update split: if_splits)

lemma table_ok_upd:
  "table_ok m \<Longrightarrow> (\<And>z. zi_zone_id (f z) = zi_zone_id z) \<Longrightarrow> table_ok (zone_upd zid f m)"
  unfolding table_ok_def zone_upd_def
  by simp (metis nth_list_update_eq nth_list_update_neq)

lemma zone_upd_frame [frames, simp]:
  "zone_opened (zone_upd zid f m) = zone_opened m" "zone_active (zone_upd zid f m) = zone_active m"
  "zone_opened_count (zone_upd zid f m) = zone_opened_count m"
  "zone_active_count (zone_upd zid f m) = zone_active_count m"
  "max_open_zones (zone_upd zid f m) = max_open_zones m"
  "max_active_zones (zone_upd zid f m) = max_active_zones m"
  "nr_zones (zone_upd zid f m) = nr_zones m" "zone_size (zone_upd zid f m) = zone_size m"
  "zone_capacity (zone_upd zid f m) = zone_capacity m"
  "nr_type (zone_upd zid f m) = nr_type m" "limit_type (zone_upd zid f m) = limit_type m"
  "length (zone_info (zone_upd zid f m)) = length (zone_info m)"
  by (simp_all add: zone_upd_def)

lemma zone_info_upd:
  "k < length (zone_info m) \<Longrightarrow>
    zone_info (zone_upd zid f m) ! k = (if k = nat zid then f (zone_info m ! k) else zone_info m ! k)"
  by (simp add: zone_upd_def nth_list_update)

text \<open>The four list operations change one array and its counter.\<close>

lemma opened_frame [frames, simp]:
  "zone_info (snd (insert_zone_opened m k)) = zone_info m"
  "zone_info (snd (remove_zone_opened m k)) = zone_info m"
  "zone_active (snd (insert_zone_opened m k)) = zone_active m"
  "zone_active (snd (remove_zone_opened m k)) = zone_active m"
  "zone_active_count (snd (insert_zone_opened m k)) = zone_active_count m"
  "zone_active_count (snd (remove_zone_opened m k)) = zone_active_count m"
  "max_active_zones (snd (insert_zone_opened m k)) = max_active_zones m"
  "max_active_zones (snd (remove_zone_opened m k)) = max_active_zones m"
  "max_open_zones (snd (insert_zone_opened m k)) = max_open_zones m"
  "max_open_zones (snd (remove_zone_opened m k)) = max_open_zones m"
  "nr_zones (snd (insert_zone_opened m k)) = nr_zones m"
  "nr_zones (snd (remove_zone_opened m k)) = nr_zones m"
  "zone_size (snd (insert_zone_opened m k)) = zone_size m"
  "zone_size (snd (remove_zone_opened m k)) = zone_size m"
  "zone_capacity (snd (insert_zone_opened m k)) = zone_capacity m"
  "zone_capacity (snd (remove_zone_opened m k)) = zone_capacity m"
  "nr_type (snd (insert_zone_opened m k)) = nr_type m"
  "nr_type (snd (remove_zone_opened m k)) = nr_type m"
  "limit_type (snd (insert_zone_opened m k)) = limit_type m"
  "limit_type (snd (remove_zone_opened m k)) = limit_type m"
  by (simp_all add: insert_zone_opened_def remove_zone_opened_def split: prod.split)

lemma active_frame [frames, simp]:
  "zone_info (snd (insert_zone_active m k)) = zone_info m"
  "zone_info (snd (remove_zone_active m k)) = zone_info m"
  "zone_opened (snd (insert_zone_active m k)) = zone_opened m"
  "zone_opened (snd (remove_zone_active m k)) = zone_opened m"
  "zone_opened_count (snd (insert_zone_active m k)) = zone_opened_count m"
  "zone_opened_count (snd (remove_zone_active m k)) = zone_opened_count m"
  "max_active_zones (snd (insert_zone_active m k)) = max_active_zones m"
  "max_active_zones (snd (remove_zone_active m k)) = max_active_zones m"
  "max_open_zones (snd (insert_zone_active m k)) = max_open_zones m"
  "max_open_zones (snd (remove_zone_active m k)) = max_open_zones m"
  "nr_zones (snd (insert_zone_active m k)) = nr_zones m"
  "nr_zones (snd (remove_zone_active m k)) = nr_zones m"
  "zone_size (snd (insert_zone_active m k)) = zone_size m"
  "zone_size (snd (remove_zone_active m k)) = zone_size m"
  "zone_capacity (snd (insert_zone_active m k)) = zone_capacity m"
  "zone_capacity (snd (remove_zone_active m k)) = zone_capacity m"
  "nr_type (snd (insert_zone_active m k)) = nr_type m"
  "nr_type (snd (remove_zone_active m k)) = nr_type m"
  "limit_type (snd (insert_zone_active m k)) = limit_type m"
  "limit_type (snd (remove_zone_active m k)) = limit_type m"
  by (simp_all add: insert_zone_active_def remove_zone_active_def split: prod.split)

lemma frame_derived [frames, simp]:
  "zones_with C (snd (insert_zone_opened m k)) = zones_with C m"
  "zones_with C (snd (remove_zone_opened m k)) = zones_with C m"
  "zones_with C (snd (insert_zone_active m k)) = zones_with C m"
  "zones_with C (snd (remove_zone_active m k)) = zones_with C m"
  "table_ok (snd (insert_zone_opened m k)) = table_ok m"
  "table_ok (snd (remove_zone_opened m k)) = table_ok m"
  "table_ok (snd (insert_zone_active m k)) = table_ok m"
  "table_ok (snd (remove_zone_active m k)) = table_ok m"
  by (simp_all add: zones_with_def table_ok_def)

text \<open>Insertion and removal keep the tracking, by the slot-array interface.\<close>

lemma tracks_insert:
  assumes "tracks l cnt mx K" "k \<notin> K" "cnt < mx"
  shows "\<exists>l'. insert_zone_slot l k = (0, l') \<and> tracks l' (cnt + 1) mx (insert k K)"
  using zs.ins_counted [of l cnt k] assms by (auto simp: tracks_def)

lemma tracks_remove:
  assumes "tracks l cnt mx K"
  shows "\<exists>r l'. remove_zone_slot l k = (r, l') \<and> (r = 0 \<longleftrightarrow> k \<in> K) \<and>
    tracks l' (if r = 0 then cnt - 1 else cnt) mx (K - {k})"
proof -
  have "slots_distinct l" "cnt = int (card (slot_set l))" and K: "slot_set l = K" "int (length l) = mx"
    using assms by (simp_all add: tracks_def)
  from zs.rem_counted [OF this(1,2), of k] obtain r l'
    where l': "remove_zone_slot l k = (r, l')" "r = 0 \<longleftrightarrow> k \<in> slot_set l"
      "slots_distinct l'" "slot_set l' = slot_set l - {k}" "length l' = length l"
      "(if r = 0 then cnt - 1 else cnt) = int (card (slot_set l'))"
    by (elim exE conjE)
  have t: "tracks l' (if r = 0 then cnt - 1 else cnt) mx (K - {k})"
    unfolding tracks_def l'(6) using l'(3-5) K by simp
  from l'(2) K(1) have "r = 0 \<longleftrightarrow> k \<in> K" by simp
  with l'(1) t show ?thesis by blast
qed

lemma opened_tracks_insert:
  "tracks (zone_opened m) (zone_opened_count m) (max_open_zones m) K \<Longrightarrow> k \<notin> K \<Longrightarrow>
    zone_opened_count m < max_open_zones m \<Longrightarrow>
    m' = snd (insert_zone_opened m k) \<Longrightarrow>
    tracks (zone_opened m') (zone_opened_count m') (max_open_zones m') (insert k K)"
  using tracks_insert [of "zone_opened m" "zone_opened_count m" "max_open_zones m" K k]
  by (auto simp: insert_zone_opened_def)

lemma active_tracks_insert:
  "tracks (zone_active m) (zone_active_count m) (max_active_zones m) K \<Longrightarrow> k \<notin> K \<Longrightarrow>
    zone_active_count m < max_active_zones m \<Longrightarrow>
    m' = snd (insert_zone_active m k) \<Longrightarrow>
    tracks (zone_active m') (zone_active_count m') (max_active_zones m') (insert k K)"
  using tracks_insert [of "zone_active m" "zone_active_count m" "max_active_zones m" K k]
  by (auto simp: insert_zone_active_def)

lemma tracks_nomem: "tracks l cnt mx K \<Longrightarrow> k \<notin> K \<Longrightarrow> remove_zone_slot l k = (-1, l)"
  by (auto simp: tracks_def zs.rem_nomem)

lemma opened_tracks_remove:
  "tracks (zone_opened m) (zone_opened_count m) (max_open_zones m) K \<Longrightarrow>
    m' = snd (remove_zone_opened m k) \<Longrightarrow>
    tracks (zone_opened m') (zone_opened_count m') (max_open_zones m') (K - {k})"
  using tracks_remove [of "zone_opened m" "zone_opened_count m" "max_open_zones m" K k]
    tracks_nomem [of "zone_opened m" "zone_opened_count m" "max_open_zones m" K k]
  by (cases "k \<in> K") (auto simp: remove_zone_opened_def)

lemma active_tracks_remove:
  "tracks (zone_active m) (zone_active_count m) (max_active_zones m) K \<Longrightarrow>
    m' = snd (remove_zone_active m k) \<Longrightarrow>
    tracks (zone_active m') (zone_active_count m') (max_active_zones m') (K - {k})"
  using tracks_remove [of "zone_active m" "zone_active_count m" "max_active_zones m" K k]
    tracks_nomem [of "zone_active m" "zone_active_count m" "max_active_zones m" K k]
  by (cases "k \<in> K") (auto simp: remove_zone_active_def)

lemma tracks_le: "tracks l cnt mx K \<Longrightarrow> 0 \<le> cnt \<and> cnt \<le> mx"
  using occupied_le [of l] by (auto simp: tracks_def card_slot_set)

text \<open>A zone leaves both lists: the common part of finish, reset and a zone that fills up.\<close>

lemma zm_ok_leave:
  assumes "zm_ok m" "nat zid < length (zone_info m)"
    "\<And>z. zi_zone_id (f z) = zi_zone_id z" "\<And>z. \<not> cond_active (zi_cond (f z))"
    and m': "m' = snd (remove_zone_active (snd (remove_zone_opened m (nat zid))) (nat zid))"
  shows "zm_ok (zone_upd zid f m')"
proof -
  let ?m1 = "snd (remove_zone_opened m (nat zid))"
  have "tracks (zone_opened ?m1) (zone_opened_count ?m1) (max_open_zones ?m1)
      (zones_with cond_open m - {nat zid})"
    using assms(1) by (intro opened_tracks_remove [OF _ refl]) (simp add: zm_ok_def)
  moreover have "tracks (zone_active m') (zone_active_count m') (max_active_zones m')
      (zones_with cond_active m - {nat zid})"
    using assms(1) by (intro active_tracks_remove [OF _ m']) (simp add: zm_ok_def)
  moreover have "\<And>z. \<not> cond_open (zi_cond (f z))"
    using assms(4) by (auto simp: cond_active_def)
  ultimately show ?thesis
    using assms by (simp add: zm_ok_def zones_with_upd table_ok_upd)
qed

section \<open>The zone command on the device\<close>

text \<open>One zone is one bio, provided the sectors of the zone do not wrap around.\<close>

lemma mgmt_bios_one:
  "sector < sector + n \<Longrightarrow> mgmt_bios n sector (sector + n) [] = Some [sector]"
  by (simp add: mgmt_bios.simps [of n sector] mgmt_bios.simps [of n "sector + n"])

text \<open>A zero stride never reaches the end: the loop has no result.\<close>

lemma mgmt_bios_zero_stride:
  assumes "sector < end_sector"
  shows "mgmt_bios 0 sector end_sector chain = None"
proof (rule ccontr)
  assume "mgmt_bios 0 sector end_sector chain \<noteq> None"
  then obtain r where r: "mgmt_bios 0 sector end_sector chain = Some r" by auto
  have "zs = 0 \<longrightarrow> sector < end_sector \<longrightarrow> False" if "mgmt_bios zs sector end_sector chain = Some r"
    for zs sector end_sector chain r
    using that
  proof (rule mgmt_bios.raw_induct [where P = "\<lambda>zs sec e c r. zs = 0 \<longrightarrow> sec < e \<longrightarrow> False", rotated])
    fix f and zs sec e :: sector and c r
    assume IH: "\<And>zs sec e c r. f zs sec e c = Some r \<Longrightarrow> zs = 0 \<longrightarrow> sec < e \<longrightarrow> False"
      and eq: "(if sec < e then f zs (sec + zs) e (c @ [sec]) else Some c) = Some r"
    show "zs = 0 \<longrightarrow> sec < e \<longrightarrow> False"
      using IH [of zs "sec + zs" e "c @ [sec]" r] eq by auto
  qed
  with r assms show False by blast
qed

section \<open>Every zone command keeps the invariant\<close>

lemma zone_open_result:
  assumes "xcpfs_zone_open bd m zid = Some (r, m')"
  shows "m' = m \<or> 0 \<le> zid \<and> nat zid < length (zone_info m) \<and> r = 0 \<and>
      zi_cond (zone_info m ! nat zid) \<noteq> COND_EXP_OPEN \<and>
      zone_opened_count m \<noteq> max_open_zones m \<and> zone_active_count m \<noteq> max_active_zones m \<and>
      m' = zone_upd zid (\<lambda>z. z\<lparr>zi_cond := COND_EXP_OPEN, zi_dirty := True\<rparr>)
        (if zi_cond (zone_info m ! nat zid) \<noteq> COND_CLOSED
         then snd (insert_zone_active (snd (insert_zone_opened m (nat zid))) (nat zid))
         else snd (insert_zone_opened m (nat zid)))"
  using assms
  by (simp add: xcpfs_zone_open_def zone_at_def Let_def split: if_split_asm bind_split_asm)

lemma zone_open_cases:
  assumes "xcpfs_zone_open bd m zid = Some (r, m')"
  obtains (same) "m' = m"
  | (opened) "0 \<le> zid" "nat zid < length (zone_info m)" "r = 0"
      "zi_cond (zone_info m ! nat zid) \<noteq> COND_EXP_OPEN"
      "zone_opened_count m \<noteq> max_open_zones m" "zone_active_count m \<noteq> max_active_zones m"
      "m' = zone_upd zid (\<lambda>z. z\<lparr>zi_cond := COND_EXP_OPEN, zi_dirty := True\<rparr>)
        (if zi_cond (zone_info m ! nat zid) \<noteq> COND_CLOSED
         then snd (insert_zone_active (snd (insert_zone_opened m (nat zid))) (nat zid))
         else snd (insert_zone_opened m (nat zid)))"
  using zone_open_result [OF assms] that by blast

lemma zm_ok_zone_open:
  assumes ok: "zm_ok m" and run: "xcpfs_zone_open bd m zid = Some (r, m')"
    and imp: "zi_cond (zone_info m ! nat zid) \<noteq> COND_IMP_OPEN"
  shows "zm_ok m'"
  using run
proof (cases rule: zone_open_cases)
  case same
  with ok show ?thesis by simp
next
  case opened
  let ?k = "nat zid" and ?c = "zi_cond (zone_info m ! nat zid)"
  let ?m1 = "snd (insert_zone_opened m ?k)"
  let ?m2 = "if ?c \<noteq> COND_CLOSED then snd (insert_zone_active ?m1 ?k) else ?m1"
  have o: "?k \<notin> zones_with cond_open m"
    using opened imp by (simp add: zones_with_def cond_open_def)
  have to: "tracks (zone_opened m) (zone_opened_count m) (max_open_zones m) (zones_with cond_open m)"
    and ta: "tracks (zone_active m) (zone_active_count m) (max_active_zones m) (zones_with cond_active m)"
    using ok by (simp_all add: zm_ok_def)
  have t1: "tracks (zone_opened ?m1) (zone_opened_count ?m1) (max_open_zones ?m1)
      (insert ?k (zones_with cond_open m))"
    using tracks_le [OF to] opened(5) by (intro opened_tracks_insert [OF to o _ refl]) simp
  have t2: "tracks (zone_active ?m2) (zone_active_count ?m2) (max_active_zones ?m2)
      (insert ?k (zones_with cond_active m))"
  proof (cases "?c = COND_CLOSED")
    case True
    then have "?k \<in> zones_with cond_active m"
      using opened(2) by (simp add: zones_with_def)
    with True ta show ?thesis by (simp add: insert_absorb)
  next
    case False
    then have "?k \<notin> zones_with cond_active m"
      using o opened(2) by (simp add: zones_with_def cond_active_def)
    moreover have "zone_active_count m < max_active_zones m"
      using tracks_le [OF ta] opened(6) by simp
    ultimately show ?thesis
      using False ta active_tracks_insert [OF _ _ _ refl, of ?m1 "zones_with cond_active m" ?k] by simp
  qed
  show ?thesis
    unfolding opened(7) using opened(2) ok t1 t2
    by (simp add: zm_ok_def zones_with_upd table_ok_upd split: if_splits)
qed

lemma zm_ok_zone_close:
  assumes ok: "zm_ok m" and run: "xcpfs_zone_close bd m zid = Some (r, m')"
  shows "zm_ok m'"
proof (cases "m' = m")
  case False
  let ?k = "nat zid" and ?m1 = "snd (remove_zone_opened m (nat zid))"
  from False run have k: "?k < length (zone_info m)" and c: "zi_cond (zone_info m ! ?k) = COND_EXP_OPEN"
    and m': "m' = zone_upd zid (\<lambda>z. z\<lparr>zi_cond := COND_CLOSED, zi_dirty := True\<rparr>) ?m1"
    by (auto simp: xcpfs_zone_close_def zone_at_Some bind_eq_Some_conv split: if_splits)
  have "tracks (zone_opened ?m1) (zone_opened_count ?m1) (max_open_zones ?m1)
      (zones_with cond_open m - {?k})"
    using ok by (intro opened_tracks_remove [OF _ refl]) (simp add: zm_ok_def)
  moreover have "insert ?k (zones_with cond_active m) = zones_with cond_active m"
    using k c by (auto simp: zones_with_def)
  ultimately show ?thesis
    using k ok by (simp add: m' zm_ok_def zones_with_upd table_ok_upd)
qed (simp add: ok)

lemma zm_ok_leave2:
  "zm_ok m \<Longrightarrow> nat zid < length (zone_info m) \<Longrightarrow> \<forall>z. zi_zone_id (f z) = zi_zone_id z \<Longrightarrow>
    \<forall>z. \<not> cond_active (zi_cond (f z)) \<Longrightarrow>
    zm_ok (zone_upd zid f (snd (remove_zone_active (snd (remove_zone_opened m (nat zid))) (nat zid))))"
  by (rule zm_ok_leave [OF _ _ _ _ refl]) auto

lemma zm_ok_zone_finish:
  "zm_ok m \<Longrightarrow> xcpfs_zone_finish bd m zid = Some (r, m') \<Longrightarrow> zm_ok m'"
  by (auto simp: xcpfs_zone_finish_def zone_at_Some Let_def
      intro!: zm_ok_leave2 split: if_split_asm bind_splits)

lemma zm_ok_zone_reset:
  "zm_ok m \<Longrightarrow> xcpfs_zone_reset bd m zid = Some (r, m') \<Longrightarrow> zm_ok m'"
  by (auto simp: xcpfs_zone_reset_def zone_at_Some Let_def
      intro!: zm_ok_leave2 split: if_split_asm bind_splits)

lemma zm_ok_zone_mgmt:
  assumes "zm_ok m" "xcpfs_zone_mgmt bd m zid rq = Some (r, m')"
    "rq = REQ_OP_ZONE_OPEN \<Longrightarrow> zi_cond (zone_info m ! nat zid) \<noteq> COND_IMP_OPEN"
  shows "zm_ok m'"
  using assms
  by (cases rq) (auto simp: xcpfs_zone_mgmt_def intro: zm_ok_zone_open zm_ok_zone_close
      zm_ok_zone_finish zm_ok_zone_reset)

section \<open>Block validity keeps the invariant\<close>

lemma zm_ok_same_cond:
  assumes "zm_ok m" "\<And>z. zi_zone_id (f z) = zi_zone_id z" "zi_cond (f (zone_info m ! nat zid)) = zi_cond (zone_info m ! nat zid)"
    "nat zid < length (zone_info m)"
  shows "zm_ok (zone_upd zid f m)"
proof -
  have "zones_with C (zone_upd zid f m) = zones_with C m" for C
    using assms(3,4) by (auto simp: zones_with_upd) (auto simp: zones_with_def)
  then show ?thesis
    using assms(1,2) by (simp add: zm_ok_def table_ok_upd)
qed

lemma remove_commute:
  "remove_zone_opened (snd (remove_zone_active m j)) k =
    (fst (remove_zone_opened m k), snd (remove_zone_active (snd (remove_zone_opened m k)) j))"
  by (auto simp: remove_zone_opened_def remove_zone_active_def split: prod.splits)

lemma remove_zone_info:
  "snd (remove_zone_opened (m\<lparr>zone_info := x\<rparr>) k) = (snd (remove_zone_opened m k))\<lparr>zone_info := x\<rparr>"
  "snd (remove_zone_active (m\<lparr>zone_info := x\<rparr>) k) = (snd (remove_zone_active m k))\<lparr>zone_info := x\<rparr>"
  by (auto simp: remove_zone_opened_def remove_zone_active_def split: prod.splits)

lemma zone_upd_twice:
  "nat zid < length (zone_info m) \<Longrightarrow> zone_upd zid g (zone_upd zid f m) = zone_upd zid (\<lambda>z. g (f z)) m"
  by (simp add: zone_upd_def)

lemma validate_cases:
  assumes "validate_blkaddr m b = Some m'"
  obtains zid idx zi wp where
    "blk2zone m b = Some zid" "blk2idx m b = Some idx" "0 \<le> idx" "nat idx < valid_map_bits"
    "0 \<le> zid" "nat zid < length (zone_info m)" "zi = zone_info m ! nat zid"
    "wp = max (zi_wp zi) (word_of_int (int_wrap ((b + 1) * 8)))"
    "m' = (let f = (\<lambda>z. z\<lparr>zi_valid_map := bm_set (zi_valid_map z) (nat idx),
                 zi_vblocks := zi_vblocks z + 1, zi_dirty := True, zi_wp := wp\<rparr>) in
       if wp = zone_capacity m + zi_start zi
       then zone_upd zid (\<lambda>z. (f z)\<lparr>zi_cond := COND_FULL\<rparr>)
              (snd (remove_zone_active (snd (remove_zone_opened m (nat zid))) (nat zid)))
       else zone_upd zid f m)"
proof -
  from assms obtain zid idx where 1: "blk2zone m b = Some zid" "blk2idx m b = Some idx"
    "0 \<le> idx" "nat idx < valid_map_bits" "0 \<le> zid" "nat zid < length (zone_info m)"
    by (auto simp: validate_blkaddr_def zone_at_Some bit_index_def bind_eq_Some_conv split: if_splits)
  show ?thesis
    by (rule that [OF 1 refl refl])
      (use assms 1 in \<open>auto simp: validate_blkaddr_def zone_at_def bit_index_def Let_def
        PAGE_SECTORS_SHIFT_def remove_commute remove_zone_info zone_upd_def split: if_splits\<close>)
qed

lemma zm_ok_validate:
  assumes ok: "zm_ok m" and run: "validate_blkaddr m b = Some m'"
  shows "zm_ok m'"
  using run
proof (cases rule: validate_cases)
  case (1 zid idx zi wp)
  show ?thesis
  proof (cases "wp = zone_capacity m + zi_start zi")
    case True
    then have "m' = zone_upd zid (\<lambda>z. z\<lparr>zi_valid_map := bm_set (zi_valid_map z) (nat idx),
        zi_vblocks := zi_vblocks z + 1, zi_dirty := True, zi_wp := wp, zi_cond := COND_FULL\<rparr>)
        (snd (remove_zone_active (snd (remove_zone_opened m (nat zid))) (nat zid)))"
      using 1(9) by (simp add: Let_def)
    then show ?thesis
      using ok 1(6) by (simp add: zm_ok_leave2)
  next
    case False
    then show ?thesis
      using ok 1(6,9) by (simp add: Let_def zm_ok_same_cond)
  qed
qed

lemma zm_ok_invalidate:
  "zm_ok m \<Longrightarrow> invalidate_blkaddr m b = Some m' \<Longrightarrow> zm_ok m'"
  by (auto simp: invalidate_blkaddr_def zone_at_Some bind_eq_Some_conv intro!: zm_ok_same_cond)

section \<open>Abstract zone machine\<close>

text \<open>
  The contract of the zone commands, with nothing but the conditions of the zones: limits are
  tested by counting the zones that are open or active, \<open>dev\<close> is the device's answer.
\<close>

definition n_with :: "(zone_cond \<Rightarrow> bool) \<Rightarrow> zone_cond list \<Rightarrow> int" where
  "n_with C cs = int (length (filter C cs))"

fun spec_zone_mgmt :: "int \<Rightarrow> int \<Rightarrow> int \<Rightarrow> zone_cond list \<Rightarrow> nat \<Rightarrow> req_op \<Rightarrow> int \<times> zone_cond list" where
  "spec_zone_mgmt mo ma dev cs k REQ_OP_ZONE_OPEN =
     (if cs ! k = COND_EXP_OPEN then (0, cs)
      else if n_with cond_open cs = mo then (- EMAXOPEN, cs)
      else if n_with cond_active cs = ma then (- EMAXACTIVE, cs)
      else if dev \<noteq> 0 then (dev, cs) else (0, cs[k := COND_EXP_OPEN]))"
| "spec_zone_mgmt mo ma dev cs k REQ_OP_ZONE_CLOSE =
     (if cs ! k \<noteq> COND_EXP_OPEN then (- EZONE, cs)
      else if dev \<noteq> 0 then (dev, cs) else (0, cs[k := COND_CLOSED]))"
| "spec_zone_mgmt mo ma dev cs k REQ_OP_ZONE_FINISH =
     (if cs ! k = COND_EMPTY then (- EZONE, cs)
      else if dev \<noteq> 0 then (dev, cs) else (0, cs[k := COND_FULL]))"
| "spec_zone_mgmt mo ma dev cs k REQ_OP_ZONE_RESET =
     (if dev \<noteq> 0 then (dev, cs) else (0, cs[k := COND_EMPTY]))"
| "spec_zone_mgmt mo ma dev cs k _ = (- EIO, cs)"

definition conds :: "xcpfs_zm_info \<Rightarrow> zone_cond list" where
  "conds m = map zi_cond (zone_info m)"

lemma n_with_conds: "n_with C (conds m) = int (card (zones_with C m))"
proof -
  have "{i. i < length (zone_info m) \<and> C (map zi_cond (zone_info m) ! i)} = zones_with C m"
    by (auto simp: zones_with_def)
  then show ?thesis
    by (simp add: n_with_def conds_def length_filter_conv_card)
qed

text \<open>Under the invariant the two counters are the numbers of open and of active zones.\<close>

lemma counters_exact:
  "zm_ok m \<Longrightarrow> zone_opened_count m = n_with cond_open (conds m) \<and>
    zone_active_count m = n_with cond_active (conds m)"
  by (auto simp: zm_ok_def tracks_def n_with_conds)

lemma conds_zone_upd:
  "nat zid < length (zone_info m) \<Longrightarrow> (\<And>z. zi_cond (f z) = c) \<Longrightarrow>
    conds (zone_upd zid f m) = (conds m)[nat zid := c]"
  by (simp add: conds_def zone_upd_def map_update)

lemma conds_frames [simp]:
  "conds (snd (insert_zone_opened m k)) = conds m" "conds (snd (remove_zone_opened m k)) = conds m"
  "conds (snd (insert_zone_active m k)) = conds m" "conds (snd (remove_zone_active m k)) = conds m"
  by (simp_all add: conds_def)

lemma conds_nth: "k < length (zone_info m) \<Longrightarrow> conds m ! k = zi_cond (zone_info m ! k)"
  by (simp add: conds_def)

section \<open>Runs of the zone manager\<close>

text \<open>
  One step: a zone command (never an open of a zone the device opened implicitly), a block that
  becomes valid, a block that becomes invalid.
\<close>

inductive zm_step :: "bdev \<Rightarrow> xcpfs_zm_info \<Rightarrow> xcpfs_zm_info \<Rightarrow> bool" for bd where
  command: "xcpfs_zone_mgmt bd m zid rq = Some (r, m') \<Longrightarrow>
    rq = REQ_OP_ZONE_OPEN \<longrightarrow> zi_cond (zone_info m ! nat zid) \<noteq> COND_IMP_OPEN \<Longrightarrow> zm_step bd m m'"
| validate: "validate_blkaddr m b = Some m' \<Longrightarrow> zm_step bd m m'"
| invalidate: "invalidate_blkaddr m b = Some m' \<Longrightarrow> zm_step bd m m'"

inductive_cases zm_stepE: "zm_step bd m m'"

lemma zm_step_ok: "zm_step bd m m' \<Longrightarrow> zm_ok m \<Longrightarrow> zm_ok m'"
  by (erule zm_stepE) (auto intro: zm_ok_zone_mgmt zm_ok_validate zm_ok_invalidate)

lemma zm_run_ok: "(zm_step bd)\<^sup>*\<^sup>* m m' \<Longrightarrow> zm_ok m \<Longrightarrow> zm_ok m'"
  by (induction rule: rtranclp_induct) (auto intro: zm_step_ok)

lemma zone_mgmt_limits:
  "xcpfs_zone_mgmt bd m zid rq = Some (r, m') \<Longrightarrow>
    max_open_zones m' = max_open_zones m \<and> max_active_zones m' = max_active_zones m"
  by (cases rq)
    (auto simp: xcpfs_zone_mgmt_def xcpfs_zone_open_def xcpfs_zone_close_def xcpfs_zone_finish_def
      xcpfs_zone_reset_def Let_def split: if_split_asm bind_splits)

lemma validate_limits:
  "validate_blkaddr m b = Some m' \<Longrightarrow>
    max_open_zones m' = max_open_zones m \<and> max_active_zones m' = max_active_zones m"
  by (erule validate_cases) (auto simp: Let_def split: if_splits)

lemma invalidate_limits:
  "invalidate_blkaddr m b = Some m' \<Longrightarrow>
    max_open_zones m' = max_open_zones m \<and> max_active_zones m' = max_active_zones m"
  by (auto simp: invalidate_blkaddr_def bind_eq_Some_conv)

lemma zm_step_limits:
  "zm_step bd m m' \<Longrightarrow> max_open_zones m' = max_open_zones m \<and> max_active_zones m' = max_active_zones m"
  by (erule zm_stepE) (auto dest: zone_mgmt_limits validate_limits invalidate_limits)

lemma zm_run_limits:
  "(zm_step bd)\<^sup>*\<^sup>* m m' \<Longrightarrow> max_open_zones m' = max_open_zones m \<and> max_active_zones m' = max_active_zones m"
  by (induction rule: rtranclp_induct) (auto dest: zm_step_limits)

end
