(* ===== verification/Nat_Table.thy ===== *)
theory Nat_Table
  imports State
begin

text \<open>
  The cache of the node address table (\<open>nat_mgmt.c\<close>, \<open>struct xcpfs_nat_info\<close>): two lists of
  entries, \<open>nat_list\<close> for node ids with a block and \<open>free_nat\<close> for free ones.  A pointer to an
  entry is its node id: \<open>nat_ok\<close> says that no id is cached twice, so the id determines the entry.
  The operations that read NAT blocks take the function that prepares a page as a parameter;
  it is the model's own \<open>xcpfs_prepare_page\<close>, defined later because the two call each other.
\<close>

section \<open>The cached lists\<close>

definition find_nid :: "int \<Rightarrow> nat_entry list \<Rightarrow> nat_entry option" where
  "find_nid nid = find (\<lambda>ne. ne_nid ne = nid)"

text \<open>\<open>__lookup_nat\<close>\<close>

definition lookup_nat_cached :: "xcpfs_nat_info \<Rightarrow> int \<Rightarrow> nat_entry option" where
  "lookup_nat_cached m nid =
     (case find_nid nid (nat_list m) of
        Some ne \<Rightarrow> Some ne
      | None \<Rightarrow> find_nid nid (free_nat m))"

text \<open>\<open>__insert_nat\<close>; the argument \<open>dirty\<close> is not used.\<close>

definition insert_nat_cached ::
    "xcpfs_nat_info \<Rightarrow> int \<Rightarrow> int \<Rightarrow> int \<Rightarrow> bool \<Rightarrow> bool \<Rightarrow> int \<times> xcpfs_nat_info" where
  "insert_nat_cached m nid ino blkaddr pinned dirty =
     (let ne = \<lparr>ne_pinned = pinned, ne_dirty = False, ne_nid = nid, ne_ino = ino, ne_block_addr = blkaddr\<rparr> in
      case lookup_nat_cached m nid of
        Some t \<Rightarrow> (- EEXIST, m)
      | None \<Rightarrow>
          (0, (if ne_block_addr ne \<noteq> 0 then m\<lparr>nat_list := ne # nat_list m\<rparr>
               else m\<lparr>free_nat := ne # free_nat m\<rparr>)
              \<lparr>cached_nat_count := cached_nat_count m + 1\<rparr>))"

text \<open>\<open>list_del\<close> of the first entry with an id, and a write through a pointer to it.\<close>

fun remove_nid :: "int \<Rightarrow> nat_entry list \<Rightarrow> nat_entry list" where
  "remove_nid nid [] = []"
| "remove_nid nid (ne # l) = (if ne_nid ne = nid then l else ne # remove_nid nid l)"

fun upd_nid :: "int \<Rightarrow> (nat_entry \<Rightarrow> nat_entry) \<Rightarrow> nat_entry list \<Rightarrow> nat_entry list" where
  "upd_nid nid f [] = []"
| "upd_nid nid f (ne # l) = (if ne_nid ne = nid then f ne # l else ne # upd_nid nid f l)"

text \<open>\<open>__remove_nat\<close>\<close>

definition remove_nat_cached :: "xcpfs_nat_info \<Rightarrow> int \<Rightarrow> int \<times> xcpfs_nat_info" where
  "remove_nat_cached m nid =
     (case find_nid nid (nat_list m) of
        None \<Rightarrow> (- ENOKEY, m)
      | Some ne \<Rightarrow> (0, m\<lparr>nat_list := remove_nid nid (nat_list m), cached_nat_count := cached_nat_count m - 1\<rparr>))"

text \<open>\<open>__update_nat\<close>\<close>

definition update_nat_cached :: "xcpfs_nat_info \<Rightarrow> int \<Rightarrow> int \<Rightarrow> bool \<Rightarrow> int \<times> xcpfs_nat_info" where
  "update_nat_cached m nid new_blkaddr pinned =
     (case find_nid nid (nat_list m) of
        None \<Rightarrow> (- ENOKEY, m)
      | Some ne \<Rightarrow>
          if ne_block_addr ne \<noteq> new_blkaddr
          then (0, m\<lparr>nat_list := ne\<lparr>ne_block_addr := new_blkaddr, ne_pinned := pinned, ne_dirty := True\<rparr>
                       # remove_nid nid (nat_list m)\<rparr>)
          else (0, m))"

text \<open>A write through the pointer \<open>__lookup_nat\<close> returns.\<close>

definition write_nat :: "int \<Rightarrow> (nat_entry \<Rightarrow> nat_entry) \<Rightarrow> xcpfs_nat_info \<Rightarrow> xcpfs_nat_info" where
  "write_nat nid f m =
     (if find_nid nid (nat_list m) \<noteq> None then m\<lparr>nat_list := upd_nid nid f (nat_list m)\<rparr>
      else m\<lparr>free_nat := upd_nid nid f (free_nat m)\<rparr>)"

text \<open>\<open>free_nat_empty\<close>: the first free entry of the wanted range moves to \<open>nat_list\<close>.\<close>

definition is_reg_nid :: "int \<Rightarrow> bool" where
  "is_reg_nid nid \<longleftrightarrow> of_nat (REG_NAT_START * NAT_ENTRY_PER_BLOCK) \<le> (word_of_int nid :: u64)"

definition free_nat_empty :: "xcpfs_nat_info \<Rightarrow> bool \<Rightarrow> (nat_entry \<times> xcpfs_nat_info) option" where
  "free_nat_empty m is_meta =
     (case find (\<lambda>ne. \<not> (is_meta \<and> is_reg_nid (ne_nid ne) \<or> \<not> is_meta \<and> \<not> is_reg_nid (ne_nid ne))) (free_nat m) of
        None \<Rightarrow> None
      | Some ne \<Rightarrow> Some (ne, m\<lparr>free_nat := remove_nid (ne_nid ne) (free_nat m), nat_list := ne # nat_list m\<rparr>))"

text \<open>The loop that inserts the entries of a NAT block; node ids below 3 are skipped.\<close>

definition raw_nid :: "int \<Rightarrow> nat \<Rightarrow> u64" where
  "raw_nid iblock i = word_of_int iblock * of_nat NAT_ENTRY_PER_BLOCK + of_nat i"

definition insert_nat_block :: "int \<Rightarrow> bytes \<Rightarrow> xcpfs_nat_info \<Rightarrow> xcpfs_nat_info" where
  "insert_nat_block iblock d m =
     fold (\<lambda>i m. if raw_nid iblock i < 3 then m
                 else snd (insert_nat_cached m (to_int (raw_nid iblock i)) (sint (raw_ne_ino d i))
                             (sint (raw_ne_block_addr d i)) False False))
       [0..<NAT_ENTRY_PER_BLOCK] m"

section \<open>Operations of the file system\<close>

definition insert_nat :: "fs \<Rightarrow> int \<Rightarrow> int \<Rightarrow> int \<Rightarrow> bool \<Rightarrow> bool \<Rightarrow> int \<times> fs" where
  "insert_nat s nid ino blkaddr pinned dirty =
     (case insert_nat_cached (nm s) nid ino blkaddr pinned dirty of (r, m) \<Rightarrow> (r, s\<lparr>nm := m\<rparr>))"

definition remove_nat :: "fs \<Rightarrow> int \<Rightarrow> int \<times> fs" where
  "remove_nat s nid = (case remove_nat_cached (nm s) nid of (r, m) \<Rightarrow> (r, s\<lparr>nm := m\<rparr>))"

definition update_nat :: "fs \<Rightarrow> int \<Rightarrow> int \<Rightarrow> bool \<Rightarrow> int \<times> fs" where
  "update_nat s nid new_blkaddr pinned =
     (case update_nat_cached (nm s) nid new_blkaddr pinned of (r, m) \<Rightarrow> (r, s\<lparr>nm := m\<rparr>))"

text \<open>
  The function that prepares a page: inode number, page index, \<open>for_write\<close>, \<open>create\<close>.  It yields
  an error number or the page, by its key.
\<close>

type_synonym reader = "fs \<Rightarrow> int \<Rightarrow> int \<Rightarrow> bool \<Rightarrow> bool \<Rightarrow> ((int + pkey) \<times> fs) option"

definition read_raw_nat_block :: "reader \<Rightarrow> fs \<Rightarrow> int \<Rightarrow> bool \<Rightarrow> ((int + pkey) \<times> fs) option" where
  "read_raw_nat_block pp s iblock for_write = pp s (fs_meta_ino s) iblock for_write True"

text \<open>\<open>page_address\<close> of the page, which crashes on an error pointer.\<close>

definition page_of :: "int + pkey \<Rightarrow> pkey option" where
  "page_of r = (case r of Inl e \<Rightarrow> None | Inr k \<Rightarrow> Some k)"

text \<open>The part \<open>lookup_nat\<close> and \<open>alloc_free_nat\<close> share: read a NAT block and cache its entries.\<close>

definition load_nat_block :: "reader \<Rightarrow> fs \<Rightarrow> int \<Rightarrow> fs option" where
  "load_nat_block pp s iblock = do {
     (r, s1) \<leftarrow> read_raw_nat_block pp s iblock False;
     k \<leftarrow> page_of r;
     pg \<leftarrow> cache s1 k;
     Some (s1\<lparr>nm := insert_nat_block iblock (pg_data pg) (nm s1)\<rparr>)
   }"

definition lookup_nat :: "reader \<Rightarrow> fs \<Rightarrow> int \<Rightarrow> (nat_entry option \<times> fs) option" where
  "lookup_nat pp s nid =
     (case lookup_nat_cached (nm s) nid of
        Some ne \<Rightarrow> Some (Some ne, s)
      | None \<Rightarrow> do {
          s1 \<leftarrow> load_nat_block pp s (udiv nid (of_nat NAT_ENTRY_PER_BLOCK));
          Some (lookup_nat_cached (nm s1) nid, s1)
        })"

definition invalidate_nat :: "reader \<Rightarrow> fs \<Rightarrow> int \<Rightarrow> (int \<times> fs) option" where
  "invalidate_nat pp s nid = do {
     (ne, s1) \<leftarrow> lookup_nat pp s nid;
     (case ne of
        None \<Rightarrow> Some (- ENOENT, s1)
      | Some _ \<Rightarrow> Some (0, s1\<lparr>nm := write_nat nid
          (\<lambda>e. e\<lparr>ne_dirty := True, ne_ino := 0, ne_block_addr := 0, ne_pinned := False\<rparr>) (nm s1)\<rparr>))
   }"

text \<open>The \<open>while\<close> of \<open>alloc_free_nat\<close>, which ends only when a free entry turns up.\<close>

partial_function (option) alloc_free_nat_loop :: "reader \<Rightarrow> bool \<Rightarrow> int \<Rightarrow> fs \<Rightarrow> (nat_entry \<times> fs) option" where
  "alloc_free_nat_loop pp is_meta iblock s =
     (case free_nat_empty (nm s) is_meta of
        Some (ne, m) \<Rightarrow> Some (ne, s\<lparr>nm := m\<rparr>)
      | None \<Rightarrow> Option.bind (load_nat_block pp s iblock) (alloc_free_nat_loop pp is_meta (iblock + 1)))"

definition alloc_free_nat :: "reader \<Rightarrow> fs \<Rightarrow> bool \<Rightarrow> (nat_entry \<times> fs) option" where
  "alloc_free_nat pp s is_meta = alloc_free_nat_loop pp is_meta (if is_meta then 0 else int REG_NAT_START) s"

section \<open>The interface of the cache\<close>

text \<open>
  What the loaders rely on: a cache with a lookup and an insertion that never replaces an
  entry.  The lemmas proved once for the interface say what a run of insertions does.
\<close>

locale entry_cache =
  fixes look :: "'c \<Rightarrow> int \<Rightarrow> 'e option"
    and ins :: "int \<Rightarrow> 'v \<Rightarrow> 'c \<Rightarrow> 'c"
    and entry :: "int \<Rightarrow> 'v \<Rightarrow> 'e"
    and ok :: "'c \<Rightarrow> bool"
  assumes ins_ok: "ok c \<Longrightarrow> ok (ins n v c)"
    and look_ins: "ok c \<Longrightarrow>
      look (ins n v c) k = (if k = n \<and> look c n = None then Some (entry n v) else look c k)"
begin

definition ins_all :: "(int \<times> 'v) list \<Rightarrow> 'c \<Rightarrow> 'c" where
  "ins_all l c = fold (\<lambda>(n, v). ins n v) l c"

lemma ins_all_ok: "ok c \<Longrightarrow> ok (ins_all l c)"
  unfolding ins_all_def by (induction l arbitrary: c) (auto simp: ins_ok)

lemma look_ins_all:
  "ok c \<Longrightarrow> look (ins_all l c) k =
    (case look c k of Some e \<Rightarrow> Some e | None \<Rightarrow> map_option (entry k) (map_of l k))"
proof (induction l arbitrary: c)
  case Nil
  then show ?case by (simp add: ins_all_def split: option.split)
next
  case (Cons p l)
  obtain n v where p: "p = (n, v)" by fastforce
  have "ins_all (p # l) c = ins_all l (ins n v c)"
    by (simp add: ins_all_def p)
  with Cons show ?case
    by (auto simp: p ins_ok look_ins split: option.split)
qed

lemma ins_all_rel:
  assumes "\<And>n v c. ok c \<Longrightarrow> R c (ins n v c)" "\<And>c. R c c" "\<And>a b c. R a b \<Longrightarrow> R b c \<Longrightarrow> R a c" "ok c"
  shows "R c (ins_all l c)"
  using assms(4) unfolding ins_all_def
  by (induction l arbitrary: c) (auto intro: assms(1-3) ins_ok split: prod.split)

lemma ins_all_keeps: "ok c \<Longrightarrow> look c k = Some e \<Longrightarrow> look (ins_all l c) k = Some e"
  by (simp add: look_ins_all)

end

section \<open>The invariant of the cache\<close>

definition nat_ok :: "xcpfs_nat_info \<Rightarrow> bool" where
  "nat_ok m \<longleftrightarrow> distinct (map ne_nid (nat_list m @ free_nat m)) \<and>
     cached_nat_count m = int (length (nat_list m) + length (free_nat m)) \<and>
     (\<forall>ne \<in> set (free_nat m). ne_block_addr ne = 0)"

lemma find_nid_simps [simp]:
  "find_nid nid [] = None"
  "find_nid nid (ne # l) = (if ne_nid ne = nid then Some ne else find_nid nid l)"
  by (simp_all add: find_nid_def)

lemma find_nid_None: "find_nid nid l = None \<longleftrightarrow> nid \<notin> ne_nid ` set l"
  by (induction l) auto

lemma find_nid_Some: "find_nid nid l = Some ne \<Longrightarrow> ne \<in> set l \<and> ne_nid ne = nid"
  by (induction l) (auto split: if_splits)

lemma find_nid_in: "ne \<in> set l \<Longrightarrow> distinct (map ne_nid l) \<Longrightarrow> find_nid (ne_nid ne) l = Some ne"
  by (induction l) (auto simp: image_iff)

lemma find_remove_nid:
  "distinct (map ne_nid l) \<Longrightarrow> find_nid k (remove_nid nid l) = (if k = nid then None else find_nid k l)"
  by (induction l) (auto simp: find_nid_None)

lemma set_remove_nid:
  "distinct (map ne_nid l) \<Longrightarrow> set (remove_nid nid l) = {ne \<in> set l. ne_nid ne \<noteq> nid}"
  by (induction l) (auto simp: image_iff)

lemma distinct_remove_nid: "distinct (map ne_nid l) \<Longrightarrow> distinct (map ne_nid (remove_nid nid l))"
  by (induction l) (auto simp: set_remove_nid)

lemma length_remove_nid:
  "find_nid nid l \<noteq> None \<Longrightarrow> Suc (length (remove_nid nid l)) = length l"
  by (induction l) auto

lemma map_nid_upd_nid: "(\<And>ne. ne_nid (f ne) = ne_nid ne) \<Longrightarrow> map ne_nid (upd_nid nid f l) = map ne_nid l"
  by (induction l) auto

lemma find_upd_nid:
  "(\<And>ne. ne_nid (f ne) = ne_nid ne) \<Longrightarrow>
    find_nid k (upd_nid nid f l) = (if k = nid then map_option f (find_nid k l) else find_nid k l)"
  by (induction l) auto

lemma length_upd_nid [simp]: "length (upd_nid nid f l) = length l"
  by (induction l) auto

lemma set_upd_nid: "x \<in> set (upd_nid nid f l) \<Longrightarrow> x \<in> set l \<or> (\<exists>y \<in> set l. x = f y)"
  by (induction l) (auto split: if_splits)

lemma lookup_cached_nid: "lookup_nat_cached m nid = Some ne \<Longrightarrow> ne_nid ne = nid"
  by (auto simp: lookup_nat_cached_def dest: find_nid_Some split: option.splits)

text \<open>Insertion keeps the invariant and adds an entry only where none was.\<close>

lemma insert_nat_cached_ok:
  assumes "nat_ok m"
  shows "nat_ok (snd (insert_nat_cached m nid ino a p d))"
  using assms
  by (auto simp: nat_ok_def insert_nat_cached_def lookup_nat_cached_def find_nid_None Let_def image_iff
      split: option.splits)

lemma lookup_insert_nat_cached:
  assumes "nat_ok m"
  shows "lookup_nat_cached (snd (insert_nat_cached m nid ino a p d)) k =
    (if k = nid \<and> lookup_nat_cached m nid = None
     then Some \<lparr>ne_pinned = p, ne_dirty = False, ne_nid = nid, ne_ino = ino, ne_block_addr = a\<rparr>
     else lookup_nat_cached m k)"
  by (auto simp: insert_nat_cached_def lookup_nat_cached_def Let_def split: option.splits)

lemma insert_nat_result:
  "fst (insert_nat_cached m nid ino a p d) = (if lookup_nat_cached m nid = None then 0 else - EEXIST)"
  by (simp add: insert_nat_cached_def Let_def split: option.split)

definition fresh_entry :: "int \<Rightarrow> int \<times> int \<Rightarrow> nat_entry" where
  "fresh_entry nid v =
     \<lparr>ne_pinned = False, ne_dirty = False, ne_nid = nid, ne_ino = fst v, ne_block_addr = snd v\<rparr>"

interpretation nc: entry_cache lookup_nat_cached
    "\<lambda>n v m. snd (insert_nat_cached m n (fst v) (snd v) False False)" fresh_entry nat_ok
  by unfold_locales (simp_all add: insert_nat_cached_ok lookup_insert_nat_cached fresh_entry_def)

text \<open>A NAT block is inserted entry by entry, so the interface's lemma describes the result.\<close>

definition raw_entries :: "int \<Rightarrow> bytes \<Rightarrow> (int \<times> (int \<times> int)) list" where
  "raw_entries b d = map (\<lambda>i. (to_int (raw_nid b i), (sint (raw_ne_ino d i), sint (raw_ne_block_addr d i))))
     (filter (\<lambda>i. \<not> raw_nid b i < 3) [0..<NAT_ENTRY_PER_BLOCK])"

lemma insert_nat_block_ins_all: "insert_nat_block b d m = nc.ins_all (raw_entries b d) m"
proof -
  have "fold (\<lambda>i m. if raw_nid b i < 3 then m
       else snd (insert_nat_cached m (to_int (raw_nid b i)) (sint (raw_ne_ino d i))
                  (sint (raw_ne_block_addr d i)) False False)) l m =
    fold (\<lambda>(n, v) m. snd (insert_nat_cached m n (fst v) (snd v) False False))
      (map (\<lambda>i. (to_int (raw_nid b i), (sint (raw_ne_ino d i), sint (raw_ne_block_addr d i))))
        (filter (\<lambda>i. \<not> raw_nid b i < 3) l)) m" for l
    by (induction l arbitrary: m) auto
  then show ?thesis
    by (simp add: insert_nat_block_def nc.ins_all_def raw_entries_def)
qed

text \<open>A block whose ids fit in an \<open>int\<close>.\<close>

definition nat_block_ok :: "int \<Rightarrow> bool" where
  "nat_block_ok b \<longleftrightarrow> 0 \<le> b \<and> (b + 1) * 455 \<le> 2 ^ 31"

lemma uint_raw_nid:
  assumes "nat_block_ok b" "i < 455"
  shows "uint (raw_nid b i) = b * 455 + int i"
proof -
  have "0 \<le> b * 455 + int i" "b * 455 + int i < 2 ^ 64"
    using assms by (auto simp: nat_block_ok_def)
  moreover have "raw_nid b i = word_of_int (b * 455 + int i)"
    by (simp add: raw_nid_def layout)
  ultimately show ?thesis
    by (simp only: unsigned_of_int) (simp add: take_bit_int_eq_self)
qed

lemma to_int_raw_nid:
  assumes "nat_block_ok b" "i < 455"
  shows "to_int (raw_nid b i) = b * 455 + int i"
  using assms uint_raw_nid [OF assms]
  by (subst to_int_small) (auto simp: nat_block_ok_def)

lemma raw_nid_less_3:
  assumes "nat_block_ok b" "i < 455"
  shows "raw_nid b i < 3 \<longleftrightarrow> b * 455 + int i < 3"
  by (simp add: word_less_def uint_raw_nid [OF assms])

definition nid_in_block :: "int \<Rightarrow> int \<Rightarrow> bool" where
  "nid_in_block b nid \<longleftrightarrow> 3 \<le> nid \<and> b * 455 \<le> nid \<and> nid < (b + 1) * 455"

lemma map_of_raw_entries:
  assumes "nat_block_ok b"
  shows "map_of (raw_entries b d) nid =
    (if nid_in_block b nid
     then Some (sint (raw_ne_ino d (nat (nid - b * 455))), sint (raw_ne_block_addr d (nat (nid - b * 455))))
     else None)"
proof -
  have "map_of (map (\<lambda>i. (b * 455 + int i, g i)) l) nid =
      (if nid - b * 455 \<ge> 0 \<and> nat (nid - b * 455) \<in> set l then Some (g (nat (nid - b * 455))) else None)"
    for g :: "nat \<Rightarrow> int \<times> int" and l
    by (induction l) auto
  moreover have "raw_entries b d = map (\<lambda>i. (b * 455 + int i, (sint (raw_ne_ino d i), sint (raw_ne_block_addr d i))))
     (filter (\<lambda>i. \<not> b * 455 + int i < 3) [0..<455])"
    unfolding raw_entries_def layout
    using assms by (intro map_cong filter_cong) (auto simp: to_int_raw_nid raw_nid_less_3)
  ultimately show ?thesis
    by (auto simp: nid_in_block_def)
qed

lemma lookup_insert_nat_block:
  assumes "nat_ok m" "nat_block_ok b"
  shows "lookup_nat_cached (insert_nat_block b d m) nid =
    (case lookup_nat_cached m nid of
       Some e \<Rightarrow> Some e
     | None \<Rightarrow> if nid_in_block b nid
         then Some (fresh_entry nid (sint (raw_ne_ino d (nat (nid - b * 455))),
                                     sint (raw_ne_block_addr d (nat (nid - b * 455)))))
         else None)"
  by (simp add: insert_nat_block_ins_all nc.look_ins_all assms map_of_raw_entries split: option.split)

lemma insert_nat_block_ok: "nat_ok m \<Longrightarrow> nat_ok (insert_nat_block b d m)"
  by (simp add: insert_nat_block_ins_all nc.ins_all_ok)

section \<open>The cache as a map\<close>

text \<open>What the cache promises: a partial map from node ids to entries, each in use or free.\<close>

type_synonym nat_view = "int \<Rightarrow> (bool \<times> nat_entry) option"

definition nat_view :: "xcpfs_nat_info \<Rightarrow> nat_view" where
  "nat_view m nid =
     (case find_nid nid (nat_list m) of
        Some e \<Rightarrow> Some (True, e)
      | None \<Rightarrow> map_option (Pair False) (find_nid nid (free_nat m)))"

datatype nat_op = Insert_nat int int int bool | Remove_nat int | Update_nat int int bool

fun run_nat_op :: "nat_op \<Rightarrow> xcpfs_nat_info \<Rightarrow> int \<times> xcpfs_nat_info" where
  "run_nat_op (Insert_nat nid ino a p) m = insert_nat_cached m nid ino a p False"
| "run_nat_op (Remove_nat nid) m = remove_nat_cached m nid"
| "run_nat_op (Update_nat nid a p) m = update_nat_cached m nid a p"

fun spec_nat_op :: "nat_op \<Rightarrow> nat_view \<Rightarrow> int \<times> nat_view" where
  "spec_nat_op (Insert_nat nid ino a p) v =
     (case v nid of
        Some _ \<Rightarrow> (- EEXIST, v)
      | None \<Rightarrow> (0, v(nid \<mapsto> (a \<noteq> 0, \<lparr>ne_pinned = p, ne_dirty = False, ne_nid = nid, ne_ino = ino,
                                       ne_block_addr = a\<rparr>))))"
| "spec_nat_op (Remove_nat nid) v =
     (case v nid of Some (True, e) \<Rightarrow> (0, v(nid := None)) | _ \<Rightarrow> (- ENOKEY, v))"
| "spec_nat_op (Update_nat nid a p) v =
     (case v nid of
        Some (True, e) \<Rightarrow>
          (0, if ne_block_addr e = a then v
              else v(nid \<mapsto> (True, e\<lparr>ne_block_addr := a, ne_pinned := p, ne_dirty := True\<rparr>)))
      | _ \<Rightarrow> (- ENOKEY, v))"

lemma nat_view_lookup: "lookup_nat_cached m nid = map_option snd (nat_view m nid)"
  by (auto simp: lookup_nat_cached_def nat_view_def option.map_comp comp_def option.map_ident split: option.split)

lemma nat_ok_lists:
  assumes "nat_ok m"
  shows "distinct (map ne_nid (nat_list m))" "distinct (map ne_nid (free_nat m))"
    "find_nid nid (nat_list m) \<noteq> None \<Longrightarrow> find_nid nid (free_nat m) = None"
  using assms by (auto simp: nat_ok_def find_nid_None)

lemma remove_nat_ok:
  assumes "nat_ok m"
  shows "nat_ok (snd (remove_nat_cached m nid))"
proof (cases "find_nid nid (nat_list m)")
  case None
  then show ?thesis using assms by (simp add: remove_nat_cached_def)
next
  case (Some e)
  note l = nat_ok_lists [OF assms]
  have len: "Suc (length (remove_nid nid (nat_list m))) = length (nat_list m)"
    using length_remove_nid Some by auto
  show ?thesis
    using assms Some len l(1,2)
    by (auto simp: nat_ok_def remove_nat_cached_def set_remove_nid distinct_remove_nid)
qed

lemma update_nat_ok:
  assumes "nat_ok m"
  shows "nat_ok (snd (update_nat_cached m nid a p))"
proof (cases "find_nid nid (nat_list m)")
  case None
  then show ?thesis using assms by (simp add: update_nat_cached_def)
next
  case (Some e)
  note l = nat_ok_lists [OF assms]
  have len: "Suc (length (remove_nid nid (nat_list m))) = length (nat_list m)"
    using length_remove_nid Some by auto
  have e: "e \<in> set (nat_list m)" "ne_nid e = nid"
    using find_nid_Some [OF Some] by simp_all
  have "nid \<notin> ne_nid ` set (free_nat m)"
    using l(3) [of nid] Some by (simp add: find_nid_None)
  then show ?thesis
    using assms Some len l(1,2) e
    by (auto simp: nat_ok_def update_nat_cached_def set_remove_nid distinct_remove_nid)
qed

lemma nat_view_update:
  assumes "nat_ok m" "find_nid nid (nat_list m) = Some e" "ne_block_addr e \<noteq> a"
  shows "nat_view (snd (update_nat_cached m nid a p)) =
    (nat_view m)(nid \<mapsto> (True, e\<lparr>ne_block_addr := a, ne_pinned := p, ne_dirty := True\<rparr>))"
  using nat_ok_lists [OF assms(1)] assms(2,3) find_nid_Some [OF assms(2)]
  by (auto simp: fun_eq_iff nat_view_def update_nat_cached_def find_remove_nid split: option.split)

lemma nat_view_remove:
  assumes "nat_ok m" "find_nid nid (nat_list m) = Some e"
  shows "nat_view (snd (remove_nat_cached m nid)) = (nat_view m)(nid := None)"
  using nat_ok_lists [OF assms(1)] assms(2)
  by (auto simp: fun_eq_iff nat_view_def remove_nat_cached_def find_remove_nid split: option.split)

lemma nat_view_insert:
  assumes "nat_ok m" "lookup_nat_cached m nid = None"
  shows "nat_view (snd (insert_nat_cached m nid ino a p d)) =
    (nat_view m)(nid \<mapsto> (a \<noteq> 0, \<lparr>ne_pinned = p, ne_dirty = False, ne_nid = nid, ne_ino = ino, ne_block_addr = a\<rparr>))"
  using assms(2)
  by (auto simp: fun_eq_iff nat_view_def insert_nat_cached_def Let_def lookup_nat_cached_def split: option.splits)

text \<open>Writes through a pointer to an entry, and taking a free entry.\<close>

lemma write_nat_ok:
  assumes "nat_ok m" "\<And>e. ne_nid (f e) = ne_nid e" "\<And>e. ne_block_addr e = 0 \<Longrightarrow> ne_block_addr (f e) = 0"
  shows "nat_ok (write_nat nid f m)"
proof -
  have "set (map ne_nid (upd_nid nid f l)) = set (map ne_nid l)" for l
    by (simp only: map_nid_upd_nid [OF assms(2)])
  then have img: "ne_nid ` set (upd_nid nid f l) = ne_nid ` set l" for l
    by (metis list.set_map)
  show ?thesis
    using assms(1,3) unfolding nat_ok_def write_nat_def
    by (auto simp: map_nid_upd_nid [OF assms(2)] img disjoint_iff dest!: set_upd_nid)
qed

lemma nat_view_write:
  assumes "nat_ok m" and nid: "\<And>e. ne_nid (f e) = ne_nid e"
  shows "nat_view (write_nat nid f m) =
    (\<lambda>n. if n = nid then map_option (map_prod id f) (nat_view m n) else nat_view m n)"
proof
  fix n
  show "nat_view (write_nat nid f m) n = (if n = nid then map_option (map_prod id f) (nat_view m n) else nat_view m n)"
    by (cases "find_nid nid (nat_list m)"; cases "find_nid n (nat_list m)"; cases "find_nid n (free_nat m)")
      (auto simp: nat_view_def write_nat_def find_upd_nid [where f = f, OF nid])
qed

lemma free_nat_empty_Some:
  assumes "nat_ok m" "free_nat_empty m is_meta = Some (ne, m')"
  shows "nat_ok m'" "nat_view m (ne_nid ne) = Some (False, ne)" "ne_block_addr ne = 0"
    "nat_view m' = (nat_view m)(ne_nid ne \<mapsto> (True, ne))" "is_reg_nid (ne_nid ne) = (\<not> is_meta)"
proof -
  note l = nat_ok_lists [OF assms(1)]
  from assms(2) have mem: "ne \<in> set (free_nat m)" and m': "m' = m\<lparr>free_nat := remove_nid (ne_nid ne) (free_nat m),
      nat_list := ne # nat_list m\<rparr>"
    and reg: "is_reg_nid (ne_nid ne) = (\<not> is_meta)"
    by (auto simp: free_nat_empty_def find_Some_iff split: option.splits)
  have fr: "find_nid (ne_nid ne) (free_nat m) = Some ne"
    using find_nid_in mem l(2) by blast
  then have nl: "find_nid (ne_nid ne) (nat_list m) = None"
    using l(3) by (metis option.distinct(1))
  have len: "Suc (length (remove_nid (ne_nid ne) (free_nat m))) = length (free_nat m)"
    using length_remove_nid fr by auto
  show "is_reg_nid (ne_nid ne) = (\<not> is_meta)" by (rule reg)
  show "nat_view m (ne_nid ne) = Some (False, ne)" using fr nl by (simp add: nat_view_def)
  show "ne_block_addr ne = 0" using mem assms(1) by (simp add: nat_ok_def)
  show "nat_view m' = (nat_view m)(ne_nid ne \<mapsto> (True, ne))"
    using l nl by (auto simp: fun_eq_iff nat_view_def m' find_remove_nid split: option.split)
  show "nat_ok m'"
    using assms(1) l(1,2) len nl
    by (auto simp: nat_ok_def m' set_remove_nid distinct_remove_nid find_nid_None)
qed

lemma free_nat_empty_None:
  "free_nat_empty m is_meta = None \<Longrightarrow> ne \<in> set (free_nat m) \<Longrightarrow> is_reg_nid (ne_nid ne) = is_meta"
  by (auto simp: free_nat_empty_def find_None_iff split: option.splits)

text \<open>The interface again, with the view as lookup: an inserted entry is free when it has no block.\<close>

lemma nat_view_ins:
  assumes "nat_ok m"
  shows "nat_view (snd (insert_nat_cached m n (fst v) (snd v) False False)) k =
    (if k = n \<and> nat_view m n = None then Some (snd v \<noteq> 0, fresh_entry n v) else nat_view m k)"
proof (cases "nat_view m n")
  case None
  then have "lookup_nat_cached m n = None" by (simp add: nat_view_lookup)
  from nat_view_insert [OF assms this] None show ?thesis by (simp add: fresh_entry_def)
next
  case (Some e)
  then show ?thesis by (simp add: insert_nat_cached_def nat_view_lookup Let_def)
qed

interpretation nv: entry_cache nat_view
    "\<lambda>n v m. snd (insert_nat_cached m n (fst v) (snd v) False False)"
    "\<lambda>n v. (snd v \<noteq> 0, fresh_entry n v)" nat_ok
  by unfold_locales (simp_all add: insert_nat_cached_ok nat_view_ins)

lemma nat_view_insert_nat_block:
  assumes "nat_ok m" "nat_block_ok b"
  shows "nat_view (insert_nat_block b d m) nid =
    (case nat_view m nid of
       Some e \<Rightarrow> Some e
     | None \<Rightarrow> if nid_in_block b nid
         then (let i = nat (nid - b * 455) in
               Some (raw_ne_block_addr d i \<noteq> 0,
                     fresh_entry nid (sint (raw_ne_ino d i), sint (raw_ne_block_addr d i))))
         else None)"
  by (simp add: insert_nat_block_ins_all nv.look_ins_all assms map_of_raw_entries Let_def signed_eq_0_iff
      split: option.split)

section \<open>Properties of the cache\<close>

text \<open>C5: The NAT cache implements a partial map from node ids to entries, each in use or free: inserting,
  removing and updating have the result code and the effect of the map operations, errors
  included, and keep every id cached at most once, the entry count exact and free entries
  without a block.\<close>

theorem nat_cache_refines_map:
  assumes "nat_ok m"
  shows "nat_ok (snd (run_nat_op op m)) \<and>
    fst (run_nat_op op m) = fst (spec_nat_op op (nat_view m)) \<and>
    nat_view (snd (run_nat_op op m)) = snd (spec_nat_op op (nat_view m))"
proof (cases op)
  case (Insert_nat nid ino a p)
  show ?thesis
  proof (cases "nat_view m nid")
    case None
    then have n: "lookup_nat_cached m nid = None" by (simp add: nat_view_lookup)
    with Insert_nat None assms show ?thesis
      by (simp add: insert_nat_cached_ok nat_view_insert [OF assms n] insert_nat_result)
  next
    case (Some b)
    then have "insert_nat_cached m nid ino a p False = (- EEXIST, m)"
      by (simp add: insert_nat_cached_def Let_def nat_view_lookup)
    with Insert_nat Some assms show ?thesis by simp
  qed
next
  case (Remove_nat nid)
  show ?thesis
  proof (cases "find_nid nid (nat_list m)")
    case None
    then show ?thesis using assms Remove_nat
      by (auto simp: remove_nat_cached_def nat_view_def split: option.split)
  next
    case (Some e)
    then have "nat_view m nid = Some (True, e)" by (simp add: nat_view_def)
    moreover have "fst (remove_nat_cached m nid) = 0" using Some by (simp add: remove_nat_cached_def)
    ultimately show ?thesis using Remove_nat remove_nat_ok [OF assms] nat_view_remove [OF assms Some] by simp
  qed
next
  case (Update_nat nid a p)
  show ?thesis
  proof (cases "find_nid nid (nat_list m)")
    case None
    then show ?thesis using assms Update_nat
      by (auto simp: update_nat_cached_def nat_view_def split: option.split)
  next
    case (Some e)
    then have v: "nat_view m nid = Some (True, e)" by (simp add: nat_view_def)
    show ?thesis
    proof (cases "ne_block_addr e = a")
      case True
      then show ?thesis using assms Update_nat Some v by (simp add: update_nat_cached_def)
    next
      case False
      moreover have "fst (update_nat_cached m nid a p) = 0" using Some False by (simp add: update_nat_cached_def)
      ultimately show ?thesis
        using Update_nat v update_nat_ok [OF assms] nat_view_update [OF assms Some False] by simp
    qed
  qed
qed

definition sample_ne :: "int \<Rightarrow> int \<Rightarrow> nat_entry" where
  "sample_ne nid a = \<lparr>ne_pinned = False, ne_dirty = False, ne_nid = nid, ne_ino = nid, ne_block_addr = a\<rparr>"

definition sample_nm :: xcpfs_nat_info where
  "sample_nm = \<lparr>cached_nat_count = 4, nat_list = [sample_ne 3 32, sample_ne 1 16],
     free_nat = [sample_ne 2730000 0, sample_ne 4 0], cp_nat = []\<rparr>"

lemma sample_nm_ok: "nat_ok sample_nm"
  by (simp add: nat_ok_def sample_nm_def sample_ne_def)

theorem nat_cache_refines_map_witness:
  "nat_view (snd (update_nat_cached sample_nm 1 17 False)) 1 =
     Some (True, (sample_ne 1 16)\<lparr>ne_block_addr := 17, ne_dirty := True\<rparr>)"
proof -
  have "nat_view sample_nm 1 = Some (True, sample_ne 1 16)"
    by (simp add: nat_view_def sample_nm_def sample_ne_def)
  then show ?thesis
    using nat_cache_refines_map [OF sample_nm_ok, of "Update_nat 1 17 False"]
    by (simp add: sample_ne_def)
qed

end
