(* ===== verification/Node_Path.thy ===== *)
theory Node_Path
  imports State
begin

text \<open>
  Addressing in a node tree (\<open>meta.c\<close>): the type of a page, and the path of offsets from the
  inode page to the slot of a data block.  An inode addresses 900 blocks directly, two direct
  nodes of 1018 blocks, two indirect nodes of 1018 direct nodes, and one double-indirect node.
\<close>

definition get_page_type :: "fs \<Rightarrow> int \<Rightarrow> int \<Rightarrow> page_type" where
  "get_page_type s ino iblock =
     (if ino = fs_meta_ino s then META_DATA
      else if ino = fs_node_ino s then
        (if (word_of_int iblock :: u64) < of_nat (REG_NAT_START * NAT_ENTRY_PER_BLOCK) then META_NODE else REG_NODE)
      else REG_DATA)"

text \<open>
  \<open>get_path(offset, iblock)\<close> returns the depth and fills the four offsets, \<open>-1\<close> where unused.
\<close>

definition get_path :: "int \<Rightarrow> int \<times> int list" where
  "get_path iblock =
     (let apb = int DEF_ADDRS_PER_BLOCK; npb = int DEF_NIDS_PER_BLOCK; api = int DEF_ADDRS_PER_INODE in
      if iblock < api then (0, [iblock, -1, -1, -1])
      else
        let b = iblock - api; i = DIV_ROUND_UP (b + 1) apb - 1 in
        if i < 2 then
          let b1 = b - i * apb in (1, [api + i, c_mod b1 apb, -1, -1])
        else
          let b = b - 2 * apb; i = DIV_ROUND_UP (b + 1) (npb * apb) - 1 in
          if i < 2 then
            let b1 = b - npb * apb * i; j = DIV_ROUND_UP (b1 + 1) apb - 1 in
            (2, [api + 2 + i, j, b1 - npb * j, -1])
          else
            let b = b - 2 * npb * apb; i1 = DIV_ROUND_UP (b + 1) (npb * apb) - 1;
                b1 = b - i1 * npb * apb; i2 = DIV_ROUND_UP (b1 + 1) apb - 1 in
            (3, [api + 2 + 2, i1, i2, b1 - i2 * apb]))"

text \<open>The number of blocks a file can address.\<close>

definition max_blocks :: int where
  "max_blocks = 900 + 2 * 1018 + 2 * 1018 ^ 2 + 1018 ^ 3"

text \<open>The paths of the tree, and the block a path leads to.\<close>

definition path_ok :: "int \<times> int list \<Rightarrow> bool" where
  "path_ok p =
     (case p of
        (len, [o0, o1, o2, o3]) \<Rightarrow>
          len = 0 \<and> 0 \<le> o0 \<and> o0 < 900 \<and> o1 = -1 \<and> o2 = -1 \<and> o3 = -1 \<or>
          len = 1 \<and> 900 \<le> o0 \<and> o0 < 902 \<and> 0 \<le> o1 \<and> o1 < 1018 \<and> o2 = -1 \<and> o3 = -1 \<or>
          len = 2 \<and> 902 \<le> o0 \<and> o0 < 904 \<and> 0 \<le> o1 \<and> o1 < 1018 \<and> 0 \<le> o2 \<and> o2 < 1018 \<and> o3 = -1 \<or>
          len = 3 \<and> o0 = 904 \<and> 0 \<le> o1 \<and> o1 < 1018 \<and> 0 \<le> o2 \<and> o2 < 1018 \<and> 0 \<le> o3 \<and> o3 < 1018
      | _ \<Rightarrow> False)"

fun path_block :: "int \<times> int list \<Rightarrow> int" where
  "path_block (len, [o0, o1, o2, o3]) =
     (if len = 0 then o0
      else if len = 1 then 900 + (o0 - 900) * 1018 + o1
      else if len = 2 then 900 + 2 * 1018 + (o0 - 902) * 1018 ^ 2 + o1 * 1018 + o2
      else 900 + 2 * 1018 + 2 * 1018 ^ 2 + o1 * 1018 ^ 2 + o2 * 1018 + o3)"
| "path_block _ = -1"

text \<open>Without the round-up divisions, one lemma per depth.\<close>

lemma DIV_ROUND_UP_add1:
  "0 \<le> x \<Longrightarrow> 0 < c \<Longrightarrow> y = x + 1 \<Longrightarrow> DIV_ROUND_UP y c = x div c + 1"
  using DIV_ROUND_UP_Suc [of x c] by simp

lemma get_path_0: "b < 900 \<Longrightarrow> get_path b = (0, [b, -1, -1, -1])"
  by (simp add: get_path_def Let_def layout_consts)

lemma get_path_1:
  assumes "0 \<le> q" "q < 2" "0 \<le> t" "t < 1018" "b = 900 + q * 1018 + t"
  shows "get_path b = (1, [900 + q, t, -1, -1])"
proof -
  have dm: "(q * 1018 + t) div 1018 = q" using assms by simp
  have e: "(b < 900) = False" "DIV_ROUND_UP (b - 900 + 1) 1018 - 1 = q" "(q < 2) = True"
    "c_mod (b - 900 - q * 1018) 1018 = t"
    using assms dm DIV_ROUND_UP_add1 [of "q * 1018 + t" 1018 "b - 900 + 1"] by simp_all
  show ?thesis
    unfolding get_path_def Let_def layout_consts of_nat_numeral by (simp only: e if_True if_False)
qed

lemma digits_of_sum:
  fixes q r t :: int
  assumes "0 \<le> r" "r < 1018" "0 \<le> t" "t < 1018" "x = q * 1036324 + r * 1018 + t"
  shows "x div 1036324 = q" "x mod 1036324 div 1018 = r" "x mod 1018 = t"
proof -
  have rt: "0 \<le> r * 1018 + t" "r * 1018 + t < 1036324" using assms by auto
  have x: "x = q * 1036324 + (r * 1018 + t)" "x = (q * 1018 + r) * 1018 + t" using assms by simp_all
  show "x div 1036324 = q" using rt unfolding x(1) by simp
  have "x mod 1036324 = r * 1018 + t" using rt unfolding x(1) by simp
  then show "x mod 1036324 div 1018 = r" using assms by simp
  show "x mod 1018 = t" using assms(3,4) by (simp only: x(2) mod_mult_self3 mod_pos_pos_trivial)
qed

lemma get_path_2:
  assumes "0 \<le> q" "q < 2" "0 \<le> r" "r < 1018" "0 \<le> t" "t < 1018" "b = 2936 + q * 1036324 + r * 1018 + t"
  shows "get_path b = (2, [902 + q, r, t, -1])"
proof -
  have q: "(q * 1036324 + r * 1018 + t) div 1036324 = q" using digits_of_sum(1) assms by blast
  have r: "(r * 1018 + t) div 1018 = r" using assms by simp
  have k: "(2036 + (q * 1036324 + r * 1018 + t)) div 1018 = q * 1018 + r + 2"
  proof -
    have "2036 + (q * 1036324 + r * 1018 + t) = (q * 1018 + r + 2) * 1018 + t" by simp
    then show ?thesis using assms by simp
  qed
  have e1: "(b < 900) = False" using assms by simp
  have e2: "(DIV_ROUND_UP (b - 900 + 1) 1018 - 1 < 2) = False"
    using assms k DIV_ROUND_UP_add1 [of "2036 + (q * 1036324 + r * 1018 + t)" 1018 "b - 900 + 1"] by simp
  have e3: "DIV_ROUND_UP (b - 900 - 2 * 1018 + 1) (1018 * 1018) - 1 = q"
    using assms q DIV_ROUND_UP_add1 [of "q * 1036324 + r * 1018 + t" 1036324 "b - 900 - 2 * 1018 + 1"] by simp
  have e4: "DIV_ROUND_UP (b - 900 - 2 * 1018 - 1018 * 1018 * q + 1) 1018 - 1 = r"
    using assms r DIV_ROUND_UP_add1 [of "r * 1018 + t" 1018 "b - 900 - 2 * 1018 - 1018 * 1018 * q + 1"] by simp
  have e5: "b - 900 - 2 * 1018 - 1018 * 1018 * q - 1018 * r = t" using assms by simp
  have q2: "(q < 2) = True" using assms by simp
  have "get_path b = (2, [900 + 2 + q, r, t, -1])"
    unfolding get_path_def Let_def layout_consts of_nat_numeral by (simp only: e1 e2 e3 e4 e5 q2 if_True if_False)
  then show ?thesis by simp
qed

lemma get_path_3:
  assumes "0 \<le> q" "0 \<le> r" "r < 1018" "0 \<le> t" "t < 1018" "b = 2075584 + q * 1036324 + r * 1018 + t"
  shows "get_path b = (3, [904, q, r, t])"
proof -
  have q: "(q * 1036324 + r * 1018 + t) div 1036324 = q" using digits_of_sum(1) assms by blast
  have q2: "((q + 2) * 1036324 + r * 1018 + t) div 1036324 = q + 2" using digits_of_sum(1) assms by blast
  have r: "(r * 1018 + t) div 1018 = r" using assms by simp
  have k: "(2074684 + (q * 1036324 + r * 1018 + t)) div 1018 = q * 1018 + r + 2038"
  proof -
    have "2074684 + (q * 1036324 + r * 1018 + t) = (q * 1018 + r + 2038) * 1018 + t" by simp
    then show ?thesis using assms by simp
  qed
  have e1: "(b < 900) = False" using assms by simp
  have e2: "(DIV_ROUND_UP (b - 900 + 1) 1018 - 1 < 2) = False"
    using assms k DIV_ROUND_UP_add1 [of "2074684 + (q * 1036324 + r * 1018 + t)" 1018 "b - 900 + 1"] by simp
  have e3: "(DIV_ROUND_UP (b - 900 - 2 * 1018 + 1) (1018 * 1018) - 1 < 2) = False"
    using assms q2 DIV_ROUND_UP_add1 [of "(q + 2) * 1036324 + r * 1018 + t" 1036324 "b - 900 - 2 * 1018 + 1"] by simp
  have e4: "DIV_ROUND_UP (b - 900 - 2 * 1018 - 2 * 1018 * 1018 + 1) (1018 * 1018) - 1 = q"
    using assms q DIV_ROUND_UP_add1 [of "q * 1036324 + r * 1018 + t" 1036324 "b - 900 - 2 * 1018 - 2 * 1018 * 1018 + 1"] by simp
  have e5: "DIV_ROUND_UP (b - 900 - 2 * 1018 - 2 * 1018 * 1018 - q * 1018 * 1018 + 1) 1018 - 1 = r"
    using assms r
      DIV_ROUND_UP_add1 [of "r * 1018 + t" 1018 "b - 900 - 2 * 1018 - 2 * 1018 * 1018 - q * 1018 * 1018 + 1"] by simp
  have e6: "b - 900 - 2 * 1018 - 2 * 1018 * 1018 - q * 1018 * 1018 - r * 1018 = t"
    using assms by simp
  have "get_path b = (3, [900 + 2 + 2, q, r, t])"
    unfolding get_path_def Let_def layout_consts of_nat_numeral by (simp only: e1 e2 e3 e4 e5 e6 if_True if_False)
  then show ?thesis by simp
qed

section \<open>Paths and blocks\<close>

text \<open>The four ranges of blocks, by the digits of the path.\<close>

lemma digits:
  fixes x :: int
  assumes "0 \<le> x" "x < k * 1036324"
  shows "0 \<le> x div 1036324" "x div 1036324 < k" "0 \<le> x mod 1036324 div 1018"
    "x mod 1036324 div 1018 < 1018" "0 \<le> x mod 1018" "x mod 1018 < 1018"
    "x = x div 1036324 * 1036324 + x mod 1036324 div 1018 * 1018 + x mod 1018"
proof -
  have "x mod 1036324 mod 1018 = x mod 1018" by (rule mod_mod_cancel) simp
  then show "x = x div 1036324 * 1036324 + x mod 1036324 div 1018 * 1018 + x mod 1018"
    by (metis div_mult_mod_eq add.assoc)
  show "0 \<le> x div 1036324" "x div 1036324 < k" "0 \<le> x mod 1036324 div 1018"
    "x mod 1036324 div 1018 < 1018" "0 \<le> x mod 1018" "x mod 1018 < 1018"
    using assms by (simp_all add: div_less_iff_less_mult pos_imp_zdiv_nonneg_iff)
qed

lemma block_cases:
  assumes "0 \<le> (b :: int)" "b < max_blocks"
  obtains (inode) "b < 900"
  | (direct) q t where "0 \<le> q" "q < 2" "0 \<le> t" "t < 1018" "b = 900 + q * 1018 + t"
  | (indirect) q r t where "0 \<le> q" "q < 2" "0 \<le> r" "r < 1018" "0 \<le> t" "t < 1018"
      "b = 2936 + q * 1036324 + r * 1018 + t"
  | (double) q r t where "0 \<le> q" "q < 1018" "0 \<le> r" "r < 1018" "0 \<le> t" "t < 1018"
      "b = 2075584 + q * 1036324 + r * 1018 + t"
proof -
  consider "b < 900" | "900 \<le> b" "b < 2936" | "2936 \<le> b" "b < 2075584" | "2075584 \<le> b"
    by linarith
  then show ?thesis
  proof cases
    case 1
    then show ?thesis by (rule inode)
  next
    case 2
    define x where "x = b - 900"
    have "0 \<le> x div 1018" "x div 1018 < 2" "0 \<le> x mod 1018" "x mod 1018 < 1018"
      using 2 by (simp_all add: x_def div_less_iff_less_mult pos_imp_zdiv_nonneg_iff)
    moreover have "b = 900 + x div 1018 * 1018 + x mod 1018" by (simp add: x_def)
    ultimately show ?thesis by (rule direct)
  next
    case 3
    define x where "x = b - 2936"
    have x: "0 \<le> x" "x < 2 * 1036324" using 3 by (simp_all add: x_def)
    have bx: "b = 2936 + x" by (simp add: x_def)
    have "b = 2936 + x div 1036324 * 1036324 + x mod 1036324 div 1018 * 1018 + x mod 1018"
      using arg_cong [OF digits(7) [OF x], of "(+) 2936"] unfolding bx by (simp only: add.assoc)
    with digits(1-6) [OF x] show ?thesis by (rule indirect)
  next
    case 4
    define x where "x = b - 2075584"
    have x: "0 \<le> x" "x < 1018 * 1036324" using 4 assms(2) by (simp_all add: x_def max_blocks_def)
    have bx: "b = 2075584 + x" by (simp add: x_def)
    have "b = 2075584 + x div 1036324 * 1036324 + x mod 1036324 div 1018 * 1018 + x mod 1018"
      using arg_cong [OF digits(7) [OF x], of "(+) 2075584"] unfolding bx by (simp only: add.assoc)
    with digits(1-6) [OF x] show ?thesis by (rule double)
  qed
qed

lemma path_of_block:
  assumes "0 \<le> b" "b < max_blocks"
  shows "path_ok (get_path b) \<and> path_block (get_path b) = b"
  using assms
proof (cases b rule: block_cases)
  case inode
  then show ?thesis using assms by (simp add: get_path_0 path_ok_def)
next
  case (direct q t)
  then show ?thesis by (simp add: get_path_1 [of q t] path_ok_def)
next
  case (indirect q r t)
  then show ?thesis by (simp add: get_path_2 [of q r t] path_ok_def)
next
  case (double q r t)
  then show ?thesis by (simp add: get_path_3 [of q r t] path_ok_def)
qed

lemma path_ok_cases:
  assumes "path_ok (len, offs)"
  obtains (inode) o0 where "len = 0" "offs = [o0, -1, -1, -1]" "0 \<le> o0" "o0 < 900"
  | (direct) o0 o1 where "len = 1" "offs = [o0, o1, -1, -1]" "900 \<le> o0" "o0 < 902" "0 \<le> o1" "o1 < 1018"
  | (indirect) o0 o1 o2 where "len = 2" "offs = [o0, o1, o2, -1]" "902 \<le> o0" "o0 < 904"
      "0 \<le> o1" "o1 < 1018" "0 \<le> o2" "o2 < 1018"
  | (double) o1 o2 o3 where "len = 3" "offs = [904, o1, o2, o3]"
      "0 \<le> o1" "o1 < 1018" "0 \<le> o2" "o2 < 1018" "0 \<le> o3" "o3 < 1018"
  using assms by (auto simp: path_ok_def split: list.splits)

lemma block_of_path:
  assumes "path_ok p"
  shows "0 \<le> path_block p \<and> path_block p < max_blocks \<and> get_path (path_block p) = p"
proof -
  obtain len offs where p: "p = (len, offs)" by fastforce
  from assms have "path_ok (len, offs)" by (simp add: p)
  then show ?thesis
  proof (cases rule: path_ok_cases)
    case (inode o0)
    then show ?thesis by (simp add: p get_path_0 max_blocks_def)
  next
    case (direct o0 o1)
    then show ?thesis by (simp add: p get_path_1 [of "o0 - 900" o1] max_blocks_def)
  next
    case (indirect o0 o1 o2)
    then show ?thesis by (simp add: p get_path_2 [of "o0 - 902" o1 o2] max_blocks_def)
  next
    case (double o1 o2 o3)
    then show ?thesis by (simp add: p get_path_3 [of o1 o2 o3] max_blocks_def)
  qed
qed

text \<open>C11: The addressing of a file is a bijection.  The block at a path is the sum of the capacities to
  the left of it (\<open>path_block\<close>: offsets count from the left, slots of a node in their order), \<open>get_path\<close>
  is the inverse of that sum, and every path of the tree is the path of exactly one block: no two
  blocks share a slot and no slot is unreachable.\<close>

theorem get_path_bijection:
  "(\<forall>b. 0 \<le> b \<and> b < max_blocks \<longrightarrow> path_ok (get_path b) \<and> path_block (get_path b) = b) \<and>
   (\<forall>p. path_ok p \<longrightarrow> 0 \<le> path_block p \<and> path_block p < max_blocks \<and> get_path (path_block p) = p) \<and>
   bij_betw get_path {0..<max_blocks} {p. path_ok p}"
proof (intro conjI)
  show b: "\<forall>b. 0 \<le> b \<and> b < max_blocks \<longrightarrow> path_ok (get_path b) \<and> path_block (get_path b) = b"
    using path_of_block by blast
  show p: "\<forall>p. path_ok p \<longrightarrow> 0 \<le> path_block p \<and> path_block p < max_blocks \<and> get_path (path_block p) = p"
    using block_of_path by auto
  show "bij_betw get_path {0..<max_blocks} {p. path_ok p}"
    by (rule bij_betw_byWitness [where f' = path_block]) (use b p in auto)
qed

theorem get_path_bijection_witness: "get_path (path_block (2, [903, 7, 1017, -1])) = (2, [903, 7, 1017, -1])"
proof -
  have "path_ok (2, [903, 7, 1017, -1])" by (simp add: path_ok_def)
  then show ?thesis using get_path_bijection by blast
qed

text \<open>All intermediate values of \<open>get_path\<close> fit an \<open>int\<close> on the addressable range.\<close>

lemma get_path_no_overflow: "max_blocks + 1018 * 1018 < 2 ^ 31"
  by (simp add: max_blocks_def)

end
