(* ===== verification/Page_IO.thy ===== *)
theory Page_IO
  imports Zone Nat_Table Node_Path
begin

text \<open>
  Pages and block I/O (\<open>data.c\<close>, the node walk of \<open>meta.c\<close>, \<open>xio.c\<close>, \<open>xcpfs_iget\<close> of
  \<open>inode.c\<close>, \<open>cp_append_nat\<close> of \<open>checkpoint.c\<close>).  Preparing a page walks the node tree, whose
  pages are prepared the same way and are found through the NAT, whose blocks are pages of the
  meta inode: the functions call each other.  They take the reader as a parameter and
  \<open>prepare_page\<close> ties the knot with a nesting depth; \<open>None\<close> at every depth means that the call
  never returns.

  A page stays locked from the submission of its write until the completion; those are the only
  locks held between operations, so \<open>page_locked\<close> reads them off the pending I/O.
\<close>

section \<open>The page cache\<close>

text \<open>\<open>page_offset\<close>, truncated to \<open>int\<close> as the callers of \<open>xcpfs_commit_write\<close> pass it.\<close>

definition page_offset :: "pkey \<Rightarrow> int" where
  "page_offset k = int_wrap (snd k * int PAGE_SIZE)"

definition upd_page :: "pkey \<Rightarrow> (page \<Rightarrow> page) \<Rightarrow> fs \<Rightarrow> fs" where
  "upd_page k f s = s\<lparr>cache := (cache s)(k := map_option f (cache s k))\<rparr>"

definition page_locked :: "fs \<Rightarrow> pkey \<Rightarrow> bool" where
  "page_locked s k \<longleftrightarrow> list_ex (\<lambda>x. xio_page x = Some k \<or> xio_dpage x = Some k) (bios s)"

text \<open>
  \<open>grab_cache_page\<close> and \<open>pagecache_get_page\<close> with \<open>FGP_LOCK | FGP_CREAT\<close>: the cached page or a
  new one that is not up to date, locked.  A page of a pending write is waited for.
\<close>

definition new_page :: page where
  "new_page = \<lparr>pg_data = zero_bytes, pg_uptodate = False, pg_dirty = False, pg_writeback = False\<rparr>"

definition grab_page :: "pkey \<Rightarrow> fs \<Rightarrow> fs option" where
  "grab_page k s =
     (if page_locked s k then None
      else Some (case cache s k of Some _ \<Rightarrow> s | None \<Rightarrow> s\<lparr>cache := (cache s)(k \<mapsto> new_page)\<rparr>))"

text \<open>\<open>xcpfs_dirty_folio\<close>, reached through \<open>set_page_dirty\<close>; true when the page was clean.\<close>

definition xcpfs_dirty_folio :: "pkey \<Rightarrow> fs \<Rightarrow> bool \<times> fs" where
  "xcpfs_dirty_folio k s =
     ((case cache s k of Some p \<Rightarrow> \<not> pg_dirty p | None \<Rightarrow> False),
      upd_page k (\<lambda>p. p\<lparr>pg_uptodate := True, pg_dirty := True\<rparr>) s)"

abbreviation set_page_dirty :: "pkey \<Rightarrow> fs \<Rightarrow> fs" where
  "set_page_dirty k s \<equiv> snd (xcpfs_dirty_folio k s)"

abbreviation set_data :: "pkey \<Rightarrow> bytes \<Rightarrow> fs \<Rightarrow> fs" where
  "set_data k d \<equiv> upd_page k (\<lambda>p. p\<lparr>pg_data := d\<rparr>)"

section \<open>Node pages\<close>

definition get_node_page :: "reader \<Rightarrow> fs \<Rightarrow> int \<Rightarrow> bool \<Rightarrow> ((int + pkey) \<times> fs) option" where
  "get_node_page pp s nid create = pp s (fs_node_ino s) nid False create"

definition get_node_page_for_wb :: "reader \<Rightarrow> fs \<Rightarrow> int \<Rightarrow> bool \<Rightarrow> ((int + pkey) \<times> fs) option" where
  "get_node_page_for_wb pp s nid create = pp s (fs_node_ino s) nid True create"

text \<open>
  The slots of a node page: at depth 0 the page is an inode, deeper it is a direct or indirect
  node.  An offset outside the array has no defined result.
\<close>

definition slot_addr :: "int \<Rightarrow> bytes \<Rightarrow> int \<Rightarrow> u32 option" where
  "slot_addr i d off =
     (if i = 0 then if 0 \<le> off \<and> off < int DEF_ADDRS_PER_INODE then Some (i_addr d (nat off)) else None
      else if 0 \<le> off \<and> off < int DEF_ADDRS_PER_BLOCK then Some (dn_addr d (nat off)) else None)"

definition set_slot_addr :: "int \<Rightarrow> bytes \<Rightarrow> int \<Rightarrow> u32 \<Rightarrow> bytes option" where
  "set_slot_addr i d off v =
     (if i = 0 then if 0 \<le> off \<and> off < int DEF_ADDRS_PER_INODE then Some (set_i_addr d (nat off) v) else None
      else if 0 \<le> off \<and> off < int DEF_ADDRS_PER_BLOCK then Some (set_dn_addr d (nat off) v) else None)"

definition child_nid :: "int \<Rightarrow> bytes \<Rightarrow> int \<Rightarrow> u32 option" where
  "child_nid i d off =
     (if i = 0 then
        (let j = off - int DEF_ADDRS_PER_INODE in
         if 0 \<le> j \<and> j < int DEF_NIDS_PER_INODE then Some (i_nid d (nat j)) else None)
      else if 0 \<le> off \<and> off < int DEF_NIDS_PER_BLOCK then Some (in_nid d (nat off)) else None)"

definition set_child_nid :: "int \<Rightarrow> bytes \<Rightarrow> int \<Rightarrow> u32 \<Rightarrow> bytes option" where
  "set_child_nid i d off v =
     (if i = 0 then
        (let j = off - int DEF_ADDRS_PER_INODE in
         if 0 \<le> j \<and> j < int DEF_NIDS_PER_INODE then Some (set_i_nid d (nat j) v) else None)
      else if 0 \<le> off \<and> off < int DEF_NIDS_PER_BLOCK then Some (set_in_nid d (nat off) v) else None)"

text \<open>
  The part of the loop of \<open>get_dnode_page\<close> that gives a node without a child a new one: a free
  node id is stored in the parent, and its NAT entry gets the owner and no block yet.
\<close>

definition new_child :: "reader \<Rightarrow> fs \<Rightarrow> int \<Rightarrow> int \<Rightarrow> int \<Rightarrow> pkey \<Rightarrow> (int \<times> fs) option" where
  "new_child pp s ino i off k = do {
     (ne, s1) \<leftarrow> alloc_free_nat pp s (ino = 1);
     pg \<leftarrow> cache s1 k;
     d \<leftarrow> set_child_nid i (pg_data pg) off (word_of_int (ne_nid ne));
     let s2 = set_page_dirty k (set_data k d s1);
     Some (ne_nid ne, s2\<lparr>nm := write_nat (ne_nid ne)
       (\<lambda>e. e\<lparr>ne_ino := ino, ne_block_addr := 0, ne_dirty := True, ne_pinned := False\<rparr>) (nm s2)\<rparr>)
   }"

text \<open>
  The loop of \<open>get_dnode_page\<close> with \<open>n\<close> rounds left (\<open>i = 4 - n\<close>).  The result is the node page
  that holds the block's slot, and whether the slot is empty (\<open>*need\<close>).
\<close>

primrec dnode_walk ::
    "reader \<Rightarrow> int \<Rightarrow> int \<Rightarrow> int list \<Rightarrow> bool \<Rightarrow> nat \<Rightarrow> int \<Rightarrow> fs \<Rightarrow> (((int + pkey) \<times> bool) \<times> fs) option" where
  "dnode_walk pp ino len offset create 0 next_nid s = Some ((Inl (- EIO), False), s)"
| "dnode_walk pp ino len offset create (Suc n) next_nid s =
     (let i = 3 - int n in do {
        (r, s1) \<leftarrow> get_node_page pp s next_nid create;
        (case r of
           Inl e \<Rightarrow> Some ((Inl e, False), s1)
         | Inr k \<Rightarrow> do {
             pg \<leftarrow> cache s1 k;
             if i = len then do {
               a \<leftarrow> slot_addr i (pg_data pg) (offset ! nat i);
               Some ((Inr k, a = 0), s1)
             } else do {
               c \<leftarrow> child_nid i (pg_data pg) (offset ! nat i);
               if c = 0 \<and> \<not> create then Some ((Inl (- EIO), False), s1)
               else do {
                 (nxt, s2) \<leftarrow> (if c = 0 then new_child pp s1 ino i (offset ! nat i) k else Some (sint c, s1));
                 dnode_walk pp ino len offset create n nxt s2
               }
             }
           })
      })"

definition get_dnode_page :: "reader \<Rightarrow> fs \<Rightarrow> pkey \<Rightarrow> bool \<Rightarrow> (((int + pkey) \<times> bool) \<times> fs) option" where
  "get_dnode_page pp s k create =
     (case get_path (snd k) of (len, offset) \<Rightarrow> dnode_walk pp (fst k) len offset create 4 (fst k) s)"

section \<open>Inodes in memory\<close>

text \<open>\<open>xcpfs_fill_inode\<close>; \<open>i_blocks\<close> is not read back.\<close>

definition xcpfs_fill_inode :: "bytes \<Rightarrow> inode \<Rightarrow> inode" where
  "xcpfs_fill_inode ri inode = inode
     \<lparr>in_mode := ri16 ri ''i_mode'', in_uid := ri32 ri ''i_uid'', in_gid := ri32 ri ''i_gid'',
      in_nlink := ri32 ri ''i_links'', in_size := sint (ri64 ri ''i_size''),
      in_atime := (ri64 ri ''i_atime'', ucast (ri32 ri ''i_atime_nsec'')),
      in_ctime := (ri64 ri ''i_ctime'', ucast (ri32 ri ''i_ctime_nsec'')),
      in_mtime := (ri64 ri ''i_mtime'', ucast (ri32 ri ''i_mtime_nsec'')),
      in_generation := ri32 ri ''i_generation''\<rparr>"

definition S_IFMT :: u16 where "S_IFMT = 0xF000"
definition S_IFDIR :: u16 where "S_IFDIR = 0x4000"
definition S_IFREG :: u16 where "S_IFREG = 0x8000"

definition S_ISREG :: "u16 \<Rightarrow> bool" where "S_ISREG m \<longleftrightarrow> m AND S_IFMT = S_IFREG"
definition S_ISDIR :: "u16 \<Rightarrow> bool" where "S_ISDIR m \<longleftrightarrow> m AND S_IFMT = S_IFDIR"

definition xcpfs_set_inode :: "int \<Rightarrow> inode \<Rightarrow> inode" where
  "xcpfs_set_inode ino inode =
     (if ino = 1 \<or> ino = 2 then inode\<lparr>in_ops := Data_aops\<rparr>
      else if S_ISREG (in_mode inode) then inode\<lparr>in_ops := File_ops\<rparr>
      else if S_ISDIR (in_mode inode) then inode\<lparr>in_ops := Dir_ops\<rparr>
      else inode)"

text \<open>\<open>xcpfs_alloc_inode\<close> zeroes the inode; the VFS starts it with one link.\<close>

definition xcpfs_alloc_inode :: inode where
  "xcpfs_alloc_inode = \<lparr>in_mode = 0, in_uid = 0, in_gid = 0, in_nlink = 1, in_size = 0, in_blocks = 0,
     in_atime = (0, 0), in_ctime = (0, 0), in_mtime = (0, 0), in_generation = 0, in_ops = No_ops,
     in_dirty = False\<rparr>"

definition xcpfs_iget :: "reader \<Rightarrow> fs \<Rightarrow> int \<Rightarrow> ((int + int) \<times> fs) option" where
  "xcpfs_iget pp s ino =
     (if inodes s ino \<noteq> None then Some (Inr ino, s)
      else if ino = 2 then
        Some (Inr ino, s\<lparr>inodes := (inodes s)(ino \<mapsto> xcpfs_set_inode ino xcpfs_alloc_inode)\<rparr>)
      else do {
        (r, s1) \<leftarrow> get_node_page pp s ino False;
        (case r of
           Inl e \<Rightarrow> Some (Inl (- EIO), s1)
         | Inr k \<Rightarrow> do {
             pg \<leftarrow> cache s1 k;
             Some (Inr ino, s1\<lparr>inodes := (inodes s1)
               (ino \<mapsto> xcpfs_set_inode ino (xcpfs_fill_inode (pg_data pg) xcpfs_alloc_inode))\<rparr>)
           })
      })"

section \<open>Submitting I/O\<close>

text \<open>
  The block a bio addresses: \<open>new_blkaddr << PAGE_SECTORS_SHIFT\<close> is computed in \<open>int\<close>.
\<close>

definition bio_block :: "xcpfs_io_info \<Rightarrow> int" where
  "bio_block xio = int_wrap (xio_new_blkaddr xio * 2 ^ PAGE_SECTORS_SHIFT) div 2 ^ PAGE_SECTORS_SHIFT"

definition xcpfs_read_end_io :: "xcpfs_io_info \<Rightarrow> fs \<Rightarrow> fs" where
  "xcpfs_read_end_io xio s =
     (case xio_page xio of
        None \<Rightarrow> s
      | Some k \<Rightarrow> upd_page k (\<lambda>p. p\<lparr>pg_uptodate := True\<rparr>) s)"

text \<open>\<open>__alloc_bio\<close>\<close>

definition alloc_bio :: "xcpfs_io_info \<Rightarrow> fs \<Rightarrow> fs option" where
  "alloc_bio xio s =
     (if xio_op xio = REQ_OP_READ then Some s
      else do {
        zid \<leftarrow> blk2zone (zm s) (xio_new_blkaddr xio);
        Some (s\<lparr>zm := start_flight (zm s) zid\<rparr>)
      })"

text \<open>
  \<open>submit_bio\<close>.  The readers wait for the page, so a read is complete when they go on: the page
  has the block's bytes.  A write is queued until the device reports its completion.
\<close>

definition submit_bio :: "xcpfs_io_info \<Rightarrow> fs \<Rightarrow> fs" where
  "submit_bio xio s =
     (if xio_op xio = REQ_OP_READ
      then (case xio_page xio of
              None \<Rightarrow> s
            | Some k \<Rightarrow> xcpfs_read_end_io xio (set_data k (disk s (bio_block xio)) s))
      else s\<lparr>bios := bios s @ [xio]\<rparr>)"

text \<open>\<open>submit_node_xio\<close>: a node id without an entry is dereferenced as NULL.\<close>

definition submit_node_xio :: "bdev \<Rightarrow> reader \<Rightarrow> xcpfs_io_info \<Rightarrow> fs \<Rightarrow> (int \<times> fs) option" where
  "submit_node_xio bd pp xio s =
     (case xio_page xio of
        None \<Rightarrow> Some (- EIO, s)
      | Some k \<Rightarrow> do {
          (r, s1) \<leftarrow> lookup_nat pp s (xio_iblock xio);
          ne \<leftarrow> r;
          let xio1 = xio\<lparr>xio_old_blkaddr := ne_block_addr ne\<rparr>;
          if ne_block_addr ne = 0 \<and> xio_op xio = REQ_OP_READ
          then Some (0, upd_page k (\<lambda>p. p\<lparr>pg_data := if pg_uptodate p then pg_data p else zero_bytes,
                                          pg_uptodate := True\<rparr>) s1)
          else do {
            (xio2, s2) \<leftarrow> alloc_zone bd xio1 s1;
            s3 \<leftarrow> alloc_bio xio2 s2;
            Some (0, submit_bio xio2 s3)
          }
        })"

definition end_page_writeback :: "pkey \<Rightarrow> fs \<Rightarrow> fs" where
  "end_page_writeback k = upd_page k (\<lambda>p. p\<lparr>pg_writeback := False\<rparr>)"

text \<open>\<open>submit_data_xio\<close>: the inode is dereferenced whatever \<open>xcpfs_iget\<close> returned.\<close>

definition submit_data_xio :: "bdev \<Rightarrow> reader \<Rightarrow> xcpfs_io_info \<Rightarrow> fs \<Rightarrow> (int \<times> fs) option" where
  "submit_data_xio bd pp xio s = do {
     (i, s1) \<leftarrow> xcpfs_iget pp s (xio_ino xio);
     _ \<leftarrow> (case i of Inl e \<Rightarrow> None | Inr ino \<Rightarrow> Some ino);
     (case xio_page xio of
        None \<Rightarrow> Some (- EIO, s1)
      | Some k \<Rightarrow> do {
          ((r, _), s2) \<leftarrow> get_dnode_page pp s1 k False;
          (case r of
             Inl e \<Rightarrow> Some (e, if xio_op xio \<noteq> REQ_OP_READ then end_page_writeback k s2 else s2)
           | Inr dk \<Rightarrow> do {
               pg \<leftarrow> cache s2 dk;
               a \<leftarrow> (case get_path (xio_iblock xio) of (len, offset) \<Rightarrow>
                      slot_addr len (pg_data pg) (offset ! nat len));
               let xio1 = xio\<lparr>xio_old_blkaddr := sint a,
                              xio_dpage := if xio_op xio = REQ_OP_READ then None else Some dk\<rparr>;
               (xio2, s3) \<leftarrow> alloc_zone bd xio1 s2;
               s4 \<leftarrow> alloc_bio xio2 s3;
               Some (0, submit_bio xio2 s4)
             })
        })
   }"

definition xcpfs_submit_xio :: "bdev \<Rightarrow> reader \<Rightarrow> xcpfs_io_info \<Rightarrow> fs \<Rightarrow> (int \<times> fs) option" where
  "xcpfs_submit_xio bd pp xio s =
     (if xio_type xio = META_NODE \<or> xio_type xio = REG_NODE
      then submit_node_xio bd pp xio s
      else submit_data_xio bd pp xio s)"

text \<open>\<open>alloc_xio\<close> returns a zeroed structure.\<close>

definition alloc_xio :: xcpfs_io_info where
  "alloc_xio = \<lparr>xio_ino = 0, xio_iblock = 0, xio_old_blkaddr = 0, xio_new_blkaddr = 0, xio_page = None,
     xio_dpage = None, xio_op = REQ_OP_READ, xio_type = META_NODE, xio_unlock = False\<rparr>"

section \<open>Preparing and committing pages\<close>

text \<open>
  The label \<open>read_disk\<close> of \<open>do_prepare_page\<close>.  The result of the submission is ignored; when it
  failed nobody unlocks the page and \<open>lock_page\<close> waits for ever.
\<close>

definition read_disk :: "bdev \<Rightarrow> reader \<Rightarrow> fs \<Rightarrow> pkey \<Rightarrow> (int \<times> fs) option" where
  "read_disk bd pp s k = do {
     let xio = alloc_xio\<lparr>xio_ino := fst k, xio_iblock := snd k, xio_op := REQ_OP_READ,
       xio_type := get_page_type s (fst k) (snd k), xio_page := Some k, xio_unlock := True\<rparr>;
     (r, s1) \<leftarrow> xcpfs_submit_xio bd pp xio s;
     if r = 0 then Some (0, s1) else None
   }"

definition do_prepare_page :: "bdev \<Rightarrow> reader \<Rightarrow> fs \<Rightarrow> pkey \<Rightarrow> bool \<Rightarrow> (int \<times> fs) option" where
  "do_prepare_page bd pp s k create = do {
     pg \<leftarrow> cache s k;
     if pg_uptodate pg then Some (0, s)
     else if fst k = 2 then read_disk bd pp s k
     else do {
       ((r, need), s1) \<leftarrow> get_dnode_page pp s k create;
       (case r of
          Inl e \<Rightarrow> Some (- EIO, s1)
        | Inr dk \<Rightarrow>
            if need then Some (0, upd_page k (\<lambda>p. p\<lparr>pg_data := zero_bytes, pg_uptodate := True\<rparr>) s1)
            else read_disk bd pp s1 k)
     }
   }"

text \<open>
  \<open>__prepare_page\<close>.  With \<open>lock\<close> the semaphore is released on every path but the last one of a
  write, where \<open>__commit_write\<close> releases it.
\<close>

definition prepare_page_locked ::
    "bdev \<Rightarrow> reader \<Rightarrow> fs \<Rightarrow> int \<Rightarrow> int \<Rightarrow> bool \<Rightarrow> bool \<Rightarrow> bool \<Rightarrow> ((int + pkey) \<times> fs) option" where
  "prepare_page_locked bd pp s ino index for_write create lock = do {
     let k = (ino, index);
     let up = (\<lambda>s. if lock then s\<lparr>cp_sem := xcpfs_up_read (cp_sem s)\<rparr> else s);
     s0 \<leftarrow> (if lock then map_option (\<lambda>sem. s\<lparr>cp_sem := sem\<rparr>) (xcpfs_down_read (cp_sem s)) else Some s);
     s1 \<leftarrow> grab_page k s0;
     pg \<leftarrow> cache s1 k;
     if pg_uptodate pg then Some (Inr k, up s1)
     else do {
       (ret, s2) \<leftarrow> do_prepare_page bd pp s1 k create;
       if ret \<noteq> 0 then Some (Inl ret, up s2)
       else Some (Inr k, if \<not> for_write then up s2 else s2)
     }
   }"

text \<open>
  \<open>xcpfs_prepare_page\<close>, with the nesting depth of the calls: every caller passes \<open>lock = false\<close>.
\<close>

primrec prepare_page :: "bdev \<Rightarrow> nat \<Rightarrow> reader" where
  "prepare_page bd 0 = (\<lambda>s ino index for_write create. None)"
| "prepare_page bd (Suc n) = (\<lambda>s ino index for_write create.
     prepare_page_locked bd (prepare_page bd n) s ino index for_write create False)"

text \<open>
  \<open>__commit_write\<close>: \<open>pos\<close> is an \<open>int\<close>, and \<open>pos + copied\<close> wraps around (the kernel is compiled
  with wrapping signed arithmetic).
\<close>

definition commit_write_locked :: "fs \<Rightarrow> pkey \<Rightarrow> int \<Rightarrow> int \<Rightarrow> bool \<Rightarrow> (int \<times> fs) option" where
  "commit_write_locked s k pos copied locked = do {
     i \<leftarrow> inodes s (fst k);
     let s1 = set_page_dirty k (upd_page k (\<lambda>p. p\<lparr>pg_uptodate := True\<rparr>) s);
     let s2 = (if fst k \<noteq> 2
       then if int_wrap (pos + copied) > in_size i
            then s1\<lparr>inodes := (inodes s1)(fst k \<mapsto> i\<lparr>in_size := int_wrap (pos + copied), in_dirty := True\<rparr>)\<rparr>
            else s1
       else s1\<lparr>inodes := (inodes s1)(fst k \<mapsto> i\<lparr>in_dirty := True\<rparr>)\<rparr>);
     Some (copied, if locked then s2\<lparr>cp_sem := xcpfs_up_read (cp_sem s2)\<rparr> else s2)
   }"

definition xcpfs_commit_write :: "fs \<Rightarrow> pkey \<Rightarrow> int \<Rightarrow> int \<Rightarrow> (int \<times> fs) option" where
  "xcpfs_commit_write s k pos copied = commit_write_locked s k pos copied False"

definition xcpfs_commit_meta_write :: "fs \<Rightarrow> pkey \<Rightarrow> int \<Rightarrow> int \<Rightarrow> (int \<times> fs) option" where
  "xcpfs_commit_meta_write s k pos copied = commit_write_locked s k pos copied False"

text \<open>The common use: commit the whole page, ignoring the result.\<close>

definition commit_page :: "pkey \<Rightarrow> fs \<Rightarrow> fs option" where
  "commit_page k s = map_option snd (xcpfs_commit_write s k (page_offset k) (int PAGE_SIZE))"

section \<open>Writing pages\<close>

definition do_write_single_page :: "bdev \<Rightarrow> reader \<Rightarrow> fs \<Rightarrow> pkey \<Rightarrow> (int \<times> fs) option" where
  "do_write_single_page bd pp s k =
     xcpfs_submit_xio bd pp (alloc_xio\<lparr>xio_ino := fst k, xio_iblock := snd k, xio_op := REQ_OP_ZONE_APPEND,
       xio_type := get_page_type s (fst k) (snd k), xio_page := Some k, xio_unlock := True\<rparr>) s"

text \<open>\<open>write_single_page\<close>: a page whose write is pending is waited for.\<close>

definition write_single_page :: "bdev \<Rightarrow> reader \<Rightarrow> fs \<Rightarrow> pkey \<Rightarrow> (int \<times> fs) option" where
  "write_single_page bd pp s k = do {
     pg \<leftarrow> cache s k;
     if pg_writeback pg then None
     else do_write_single_page bd pp (upd_page k (\<lambda>p. p\<lparr>pg_writeback := True\<rparr>) s) k
   }"

text \<open>
  \<open>cp_append_nat\<close>: entry \<open>meta_nat_cnt\<close> of the super block being built.  The array has no bound
  check; past the end of the page the write has no defined result.
\<close>

definition cp_append_nat :: "fs \<Rightarrow> nat_entry \<Rightarrow> fs option" where
  "cp_append_nat s ne = do {
     c \<leftarrow> cpc s;
     let d = cpc_raw_sb c;
     let n = unat (meta_nat_cnt d);
     if PAGE_SIZE < meta_nat_off n ''nid'' + sizeof xcpfs_nat_entry_sb then None
     else do {
       let d1 = set_meta_nat32 n ''nid'' (word_of_int (ne_nid ne)) d;
       let d2 = set_meta_nat32 n ''block_addr'' (word_of_int (ne_block_addr ne)) d1;
       let d3 = set_meta_nat32 n ''ino'' (word_of_int (ne_ino ne)) d2;
       Some (s\<lparr>cpc := Some (c\<lparr>cpc_raw_sb := set_meta_nat_cnt (meta_nat_cnt d3 + 1) d3\<rparr>)\<rparr>)
     }
   }"

text \<open>
  The two branches of \<open>xcpfs_write_end_io\<close> that record where the device put the block: in the
  NAT (and during the last phase of a checkpoint in the super block), or in the slot of the
  node page.
\<close>

definition record_node_block :: "reader \<Rightarrow> xcpfs_io_info \<Rightarrow> int \<Rightarrow> fs \<Rightarrow> fs option" where
  "record_node_block pp xio blk s =
     (let s1 = snd (update_nat s (xio_iblock xio) blk False) in
      if xcpfs_rwsem_is_locked (cp_sem s1) \<and> cp_phase s1 = 2 then do {
        (r, s2) \<leftarrow> lookup_nat pp s1 (xio_iblock xio);
        ne \<leftarrow> r;
        cp_append_nat s2 ne
      } else Some s1)"

definition record_data_block :: "xcpfs_io_info \<Rightarrow> int \<Rightarrow> fs \<Rightarrow> fs option" where
  "record_data_block xio blk s = do {
     k \<leftarrow> xio_page xio;
     dk \<leftarrow> xio_dpage xio;
     pg \<leftarrow> cache s dk;
     d \<leftarrow> (case get_path (snd k) of (len, offset) \<Rightarrow>
            set_slot_addr len (pg_data pg) (offset ! nat len) (word_of_int blk));
     Some (set_page_dirty dk (set_data dk d s))
   }"

text \<open>
  The completion of a pending write: the device reports the sector it appended the page to.
\<close>

definition xcpfs_write_end_io :: "reader \<Rightarrow> xcpfs_io_info \<Rightarrow> sector \<Rightarrow> fs \<Rightarrow> fs option" where
  "xcpfs_write_end_io pp xio bi_sector s = do {
     k \<leftarrow> xio_page xio;
     pg \<leftarrow> cache s k;
     let blk = to_int (drop_bit PAGE_SECTORS_SHIFT bi_sector);
     let s0 = s\<lparr>disk := (disk s)(blk := pg_data pg)\<rparr>;
     s1 \<leftarrow> (if xio_type xio = META_NODE \<or> xio_type xio = REG_NODE
            then record_node_block pp xio blk s0 else record_data_block xio blk s0);
     m \<leftarrow> validate_blkaddr (zm s1) blk;
     zid \<leftarrow> blk2zone m (xio_new_blkaddr xio);
     let s2 = s1\<lparr>zm := end_flight m zid\<rparr>;
     let s3 = upd_page k (\<lambda>p. p\<lparr>pg_dirty := False\<rparr>) (end_page_writeback k s2);
     Some (s3\<lparr>bios := remove1 xio (bios s3)\<rparr>)
   }"

end
