(* ===== verification/Reader.thy ===== *)
theory Reader
  imports Page_IO
begin

text \<open>
  What preparing a page may change.  The contract of a reader is stated as a locale: the state
  only grows in the sense of \<open>read_ext\<close>, and a page that is returned is the one asked for and
  up to date.  Every function of the node walk keeps the contract, so \<open>prepare_page\<close> meets it
  at every nesting depth.
\<close>

section \<open>States reached by reading\<close>

text \<open>
  Nothing on the medium, no zone, no pending write and no inode in memory changes; resident
  pages stay resident, and those that are up to date keep their bytes unless they are node
  pages, where a walk may hang a new node into an empty slot.
\<close>

definition page_ext :: "bool \<Rightarrow> page \<Rightarrow> page \<Rightarrow> bool" where
  "page_ext node p p' \<longleftrightarrow> (pg_uptodate p \<longrightarrow> pg_uptodate p') \<and> (pg_dirty p \<longrightarrow> pg_dirty p') \<and>
     pg_writeback p' = pg_writeback p \<and> (pg_uptodate p \<longrightarrow> node \<or> pg_data p' = pg_data p)"

definition nat_ext :: "xcpfs_nat_info \<Rightarrow> xcpfs_nat_info \<Rightarrow> bool" where
  "nat_ext m m' \<longleftrightarrow> (nat_ok m \<longrightarrow> nat_ok m' \<and>
     (\<forall>n e. nat_view m n = Some (True, e) \<longrightarrow> nat_view m' n = Some (True, e)) \<and>
     (\<forall>n. nat_view m n \<noteq> None \<longrightarrow> nat_view m' n \<noteq> None))"

definition read_ext :: "fs \<Rightarrow> fs \<Rightarrow> bool" where
  "read_ext s s' \<longleftrightarrow>
     fs_root_ino s' = fs_root_ino s \<and> fs_meta_ino s' = fs_meta_ino s \<and> fs_node_ino s' = fs_node_ino s \<and>
     nat_page_count s' = nat_page_count s \<and> zit_page_count s' = zit_page_count s \<and>
     ssa_page_count s' = ssa_page_count s \<and> zm s' = zm s \<and> cp_sem s' = cp_sem s \<and>
     cp_phase s' = cp_phase s \<and> cpc s' = cpc s \<and> disk s' = disk s \<and> bios s' = bios s \<and>
     (\<forall>i v. inodes s i = Some v \<longrightarrow> inodes s' i = Some v) \<and>
     (\<forall>k p. cache s k = Some p \<longrightarrow> (\<exists>p'. cache s' k = Some p' \<and> page_ext (fst k = fs_node_ino s) p p')) \<and>
     nat_ext (nm s) (nm s')"

lemma page_ext_refl [simp]: "page_ext b p p"
  by (simp add: page_ext_def)

lemma page_ext_trans: "page_ext b p q \<Longrightarrow> page_ext b q r \<Longrightarrow> page_ext b p r"
  by (auto simp: page_ext_def)

lemma nat_ext_refl [simp]: "nat_ext m m"
  by (simp add: nat_ext_def)

lemma nat_ext_trans: "nat_ext m m' \<Longrightarrow> nat_ext m' m'' \<Longrightarrow> nat_ext m m''"
  by (auto simp: nat_ext_def)

lemma read_ext_refl [simp]: "read_ext s s"
  by (simp add: read_ext_def)

lemma read_ext_trans [trans]: "read_ext s s' \<Longrightarrow> read_ext s' s'' \<Longrightarrow> read_ext s s''"
  unfolding read_ext_def by (fastforce intro: page_ext_trans nat_ext_trans)

lemma read_ext_cache:
  "read_ext s s' \<Longrightarrow> cache s k = Some p \<Longrightarrow>
    \<exists>p'. cache s' k = Some p' \<and> page_ext (fst k = fs_node_ino s) p p'"
  unfolding read_ext_def by blast

lemma read_ext_same:
  assumes "read_ext s s'"
  shows "fs_root_ino s' = fs_root_ino s" "fs_meta_ino s' = fs_meta_ino s" "fs_node_ino s' = fs_node_ino s"
    "zm s' = zm s" "cp_sem s' = cp_sem s" "cp_phase s' = cp_phase s" "cpc s' = cpc s"
    "disk s' = disk s" "bios s' = bios s" "nat_ext (nm s) (nm s')"
    "inodes s i = Some v \<Longrightarrow> inodes s' i = Some v"
    "page_locked s' k = page_locked s k"
  using assms by (auto simp: read_ext_def page_locked_def)

text \<open>Single changes.\<close>

lemma read_ext_nm: "nat_ext (nm s) m \<Longrightarrow> read_ext s (s\<lparr>nm := m\<rparr>)"
  by (auto simp: read_ext_def)

lemma read_ext_inode: "inodes s i = None \<Longrightarrow> read_ext s (s\<lparr>inodes := (inodes s)(i \<mapsto> v)\<rparr>)"
  by (auto simp: read_ext_def)

lemma read_ext_upd_page:
  "(\<And>p. cache s k = Some p \<Longrightarrow> page_ext (fst k = fs_node_ino s) p (f p)) \<Longrightarrow> read_ext s (upd_page k f s)"
  by (auto simp: read_ext_def upd_page_def)

lemma read_ext_grab: "grab_page k s = Some s' \<Longrightarrow> read_ext s s' \<and> (\<exists>p. cache s' k = Some p)"
  by (auto simp: read_ext_def grab_page_def split: if_splits option.splits)

lemma cache_upd_page: "cache (upd_page k f s) j = (if j = k then map_option f (cache s k) else cache s j)"
  by (simp add: upd_page_def)

lemma upd_page_fields [simp]:
  "fs_root_ino (upd_page k f s) = fs_root_ino s" "fs_meta_ino (upd_page k f s) = fs_meta_ino s"
  "fs_node_ino (upd_page k f s) = fs_node_ino s" "nat_page_count (upd_page k f s) = nat_page_count s"
  "zit_page_count (upd_page k f s) = zit_page_count s" "ssa_page_count (upd_page k f s) = ssa_page_count s"
  "zm (upd_page k f s) = zm s" "nm (upd_page k f s) = nm s"
  "cp_sem (upd_page k f s) = cp_sem s" "cp_phase (upd_page k f s) = cp_phase s" "cpc (upd_page k f s) = cpc s"
  "inodes (upd_page k f s) = inodes s" "disk (upd_page k f s) = disk s" "bios (upd_page k f s) = bios s"
  by (simp_all add: upd_page_def)

lemma upd_page_upd_page [simp]: "upd_page k f (upd_page k g s) = upd_page k (f \<circ> g) s"
  by (simp add: upd_page_def option.map_comp)

section \<open>Changes of the NAT cache\<close>

lemma nat_ext_view:
  assumes "nat_ok m \<Longrightarrow> nat_ok m'" "\<And>n. nat_ok m \<Longrightarrow> nat_view m n \<noteq> None \<Longrightarrow> nat_view m' n = nat_view m n"
  shows "nat_ext m m'"
  unfolding nat_ext_def
proof (intro impI conjI allI)
  assume ok: "nat_ok m"
  show "nat_ok m'" by (rule assms(1) [OF ok])
  show "nat_view m' n = Some (True, e)" if "nat_view m n = Some (True, e)" for n e
    using assms(2) [OF ok, of n] that by simp
  show "nat_view m' n \<noteq> None" if "nat_view m n \<noteq> None" for n
    using assms(2) [OF ok that] that by simp
qed

lemma nat_ext_insert: "nat_ext m (snd (insert_nat_cached m n i a p d))"
proof (cases "lookup_nat_cached m n")
  case None
  have "nat_view m n = None" using None by (simp add: nat_view_lookup)
  then show ?thesis
    using nat_view_insert [OF _ None] by (intro nat_ext_view) (auto simp: insert_nat_cached_ok)
next
  case (Some e)
  then show ?thesis by (simp add: insert_nat_cached_def Let_def)
qed

lemma nat_ext_block: "nat_ext m (insert_nat_block b d m)"
proof (cases "nat_ok m")
  case True
  show ?thesis
    unfolding insert_nat_block_ins_all
    by (rule nc.ins_all_rel [where R = nat_ext, OF nat_ext_insert nat_ext_refl nat_ext_trans True])
next
  case False
  then show ?thesis by (simp add: nat_ext_def)
qed

lemma nat_ext_take: "free_nat_empty m b = Some (ne, m') \<Longrightarrow> nat_ext m m'"
  using free_nat_empty_Some [of m b ne m'] by (auto simp: nat_ext_def)

text \<open>Taking a free entry and writing to it changes no entry that was in use.\<close>

lemma nat_ext_write:
  assumes "nat_ext m m'" "nat_ok m \<Longrightarrow> nat_view m n = None \<or> (\<exists>e. nat_view m n = Some (False, e))"
    "\<And>e. ne_nid (f e) = ne_nid e" "\<And>e. ne_block_addr e = 0 \<Longrightarrow> ne_block_addr (f e) = 0"
  shows "nat_ext m (write_nat n f m')"
proof (cases "nat_ok m")
  case True
  then have ok: "nat_ok m'" using assms(1) by (simp add: nat_ext_def)
  show ?thesis
    using assms(1,2) True nat_view_write [OF ok assms(3), of n] write_nat_ok [OF ok assms(3,4), of n]
    by (auto simp: nat_ext_def)
next
  case False
  then show ?thesis by (simp add: nat_ext_def)
qed

text \<open>What \<open>alloc_free_nat\<close> promises: the id was not in use, has no block, and is of the wanted range.\<close>

definition fresh_nid :: "bool \<Rightarrow> fs \<Rightarrow> nat_entry \<Rightarrow> fs \<Rightarrow> bool" where
  "fresh_nid is_meta s ne s' \<longleftrightarrow> (nat_ok (nm s) \<longrightarrow>
     (\<forall>e. nat_view (nm s) (ne_nid ne) \<noteq> Some (True, e)) \<and> nat_view (nm s') (ne_nid ne) = Some (True, ne) \<and>
     ne_block_addr ne = 0 \<and> is_reg_nid (ne_nid ne) = (\<not> is_meta))"

lemma fresh_nid_ext: "nat_ext (nm s) (nm s1) \<Longrightarrow> fresh_nid b s1 ne s' \<Longrightarrow> fresh_nid b s ne s'"
  unfolding fresh_nid_def nat_ext_def by auto

text \<open>Filling a page that was not up to date before.\<close>

definition fills :: "(page \<Rightarrow> page) \<Rightarrow> bool" where
  "fills f \<longleftrightarrow> (\<forall>p. pg_uptodate (f p) \<and> pg_dirty (f p) = pg_dirty p \<and> pg_writeback (f p) = pg_writeback p)"

definition filled :: "bytes \<Rightarrow> page \<Rightarrow> page" where
  "filled d p = p\<lparr>pg_data := d, pg_uptodate := True\<rparr>"

lemma fills_filled [simp]: "fills (filled d)"
  by (simp add: fills_def filled_def)

lemma submit_read:
  assumes "xio_op xio = REQ_OP_READ" "xio_page xio = Some k"
  shows "submit_bio xio s = upd_page k (filled (disk s (bio_block xio))) s"
  using assms by (simp add: submit_bio_def xcpfs_read_end_io_def comp_def filled_def [abs_def])

lemma read_ext_fill:
  assumes "read_ext s s1" "cache s k = Some p" "\<not> pg_uptodate p" "fills f"
  shows "read_ext s (upd_page k f s1) \<and> (\<exists>p. cache (upd_page k f s1) k = Some p \<and> pg_uptodate p)"
proof -
  obtain p1 where p1: "cache s1 k = Some p1" "page_ext (fst k = fs_node_ino s) p p1"
    using read_ext_cache [OF assms(1,2)] by blast
  have "page_ext (fst k = fs_node_ino s) p (f p1)"
    using p1(2) assms(3,4) by (auto simp: page_ext_def fills_def)
  moreover have "pg_uptodate (f p1)" using assms(4) by (simp add: fills_def)
  moreover have "\<exists>p'. cache (upd_page k f s1) j = Some p' \<and> page_ext (fst j = fs_node_ino s) q p'"
    if "cache s j = Some q" for j q
    using read_ext_cache [OF assms(1) that] calculation(1) that assms(2) p1(1)
    by (cases "j = k") (auto simp: cache_upd_page)
  ultimately show ?thesis
    using assms(1) p1(1) unfolding read_ext_def by (simp add: cache_upd_page)
qed

section \<open>The contract of a reader\<close>

locale reader =
  fixes pp :: reader
  assumes pp_ext: "pp s i x w c = Some (r, s') \<Longrightarrow> read_ext s s'"
    and pp_err: "pp s i x w c = Some (Inl e, s') \<Longrightarrow> e = - EIO"
    and pp_page: "pp s i x w c = Some (Inr k, s') \<Longrightarrow> k = (i, x) \<and> (\<exists>p. cache s' k = Some p \<and> pg_uptodate p)"
begin

lemma load_nat_block_ext:
  assumes "load_nat_block pp s b = Some s'"
  shows "read_ext s s'"
proof -
  from assms obtain r s1 d where 1: "pp s (fs_meta_ino s) b False True = Some (r, s1)"
    and s': "s' = s1\<lparr>nm := insert_nat_block b d (nm s1)\<rparr>"
    by (auto simp: load_nat_block_def read_raw_nat_block_def bind_eq_Some_conv)
  show ?thesis
    using read_ext_trans [OF pp_ext [OF 1] read_ext_nm [OF nat_ext_block]] s' by blast
qed

lemma lookup_nat_ext: "lookup_nat pp s nid = Some (r, s') \<Longrightarrow> read_ext s s'"
  by (auto simp: lookup_nat_def bind_eq_Some_conv load_nat_block_ext split: option.splits)

text \<open>A node id handed out was not in use before.\<close>

lemma alloc_free_nat_loop_ext:
  assumes "alloc_free_nat_loop pp b i s = Some (ne, s')"
  shows "read_ext s s' \<and> fresh_nid b s ne s'"
proof -
  have "q = pp \<longrightarrow> read_ext s (snd r) \<and> fresh_nid b s (fst r) (snd r)"
    if "alloc_free_nat_loop q b i s = Some r" for q b i s r
    using that
  proof (rule alloc_free_nat_loop.raw_induct [where
        P = "\<lambda>q b i s r. q = pp \<longrightarrow> read_ext s (snd r) \<and> fresh_nid b s (fst r) (snd r)", rotated])
    fix f q b i s r
    assume IH: "\<And>q b i s r. f q b i s = Some r \<Longrightarrow> q = pp \<longrightarrow> read_ext s (snd r) \<and> fresh_nid b s (fst r) (snd r)"
      and eq: "(case free_nat_empty (nm s) b of
           None \<Rightarrow> load_nat_block q s i \<bind> f q b (i + 1)
         | Some (ne, m) \<Rightarrow> Some (ne, s\<lparr>nm := m\<rparr>)) = Some r"
    show "q = pp \<longrightarrow> read_ext s (snd r) \<and> fresh_nid b s (fst r) (snd r)"
    proof (cases "free_nat_empty (nm s) b")
      case None
      with eq obtain s1 where "load_nat_block q s i = Some s1" "f q b (i + 1) s1 = Some r"
        by (auto simp: bind_eq_Some_conv)
      then show ?thesis
        using IH load_nat_block_ext read_ext_trans fresh_nid_ext read_ext_same(10) by blast
    next
      case (Some p)
      then obtain ne m where p: "free_nat_empty (nm s) b = Some (ne, m)" by (cases p) auto
      with eq have "r = (ne, s\<lparr>nm := m\<rparr>)" by simp
      then show ?thesis
        using nat_ext_take [OF p] free_nat_empty_Some [OF _ p] by (auto simp: read_ext_nm fresh_nid_def)
    qed
  qed
  with assms show ?thesis by fastforce
qed

lemma alloc_free_nat_ext:
  "alloc_free_nat pp s b = Some (ne, s') \<Longrightarrow> read_ext s s' \<and> fresh_nid b s ne s'"
  by (auto simp: alloc_free_nat_def dest: alloc_free_nat_loop_ext)

lemma get_node_page_ext:
  assumes "get_node_page pp s nid c = Some (r, s')"
  shows "read_ext s s'"
    "r = Inr k \<Longrightarrow> k = (fs_node_ino s, nid) \<and> (\<exists>p. cache s' k = Some p \<and> pg_uptodate p)"
  using assms pp_ext pp_page unfolding get_node_page_def by blast+

lemma new_child_ext:
  assumes "new_child pp s ino i off k = Some (n, s')" "fst k = fs_node_ino s"
  shows "read_ext s s'"
proof -
  from assms(1) obtain ne s1 d where al: "alloc_free_nat pp s (ino = 1) = Some (ne, s1)"
    and s': "s' = (let s2 = set_page_dirty k (set_data k d s1) in
      s2\<lparr>nm := write_nat (ne_nid ne) (\<lambda>e. e\<lparr>ne_ino := ino, ne_block_addr := 0, ne_dirty := True, ne_pinned := False\<rparr>) (nm s2)\<rparr>)"
    by (auto simp: new_child_def bind_eq_Some_conv Let_def)
  note ext = alloc_free_nat_ext [OF al]
  let ?s2 = "set_page_dirty k (set_data k d s1)"
  have n: "fs_node_ino s1 = fs_node_ino s" using ext read_ext_same(3) by blast
  have "read_ext s1 ?s2"
    unfolding xcpfs_dirty_folio_def snd_conv upd_page_upd_page
    by (rule read_ext_upd_page) (use assms(2) n in \<open>auto simp: page_ext_def\<close>)
  then have 2: "read_ext s ?s2" using ext read_ext_trans by blast
  have "nat_ext (nm s) (write_nat (ne_nid ne) (\<lambda>e. e\<lparr>ne_ino := ino, ne_block_addr := 0, ne_dirty := True, ne_pinned := False\<rparr>) (nm ?s2))"
  proof (rule nat_ext_write)
    show "nat_ext (nm s) (nm ?s2)" using 2 read_ext_same(10) by blast
    show "nat_view (nm s) (ne_nid ne) = None \<or> (\<exists>e. nat_view (nm s) (ne_nid ne) = Some (False, e))" if "nat_ok (nm s)"
      using ext that unfolding fresh_nid_def by (metis (full_types) old.prod.exhaust option.exhaust)
  qed simp_all
  then show ?thesis
    using 2 by (auto simp: s' Let_def read_ext_def)
qed

lemma dnode_walk_ext:
  "dnode_walk pp ino len offset c n nid s = Some ((r, need), s') \<Longrightarrow>
    read_ext s s' \<and> (\<forall>k. r = Inr k \<longrightarrow> fst k = fs_node_ino s \<and> (\<exists>p. cache s' k = Some p \<and> pg_uptodate p))"
proof (induction n arbitrary: nid s)
  case 0
  then have "r = Inl (- EIO)" "s' = s" by simp_all
  then show ?case by simp
next
  case (Suc n)
  let ?i = "3 - int n"
  from Suc.prems obtain r1 s1 where g: "get_node_page pp s nid c = Some (r1, s1)"
    by (auto simp: Let_def bind_eq_Some_conv)
  note e1 = get_node_page_ext [OF g]
  show ?case
  proof (cases r1)
    case (Inl e)
    then have "r = Inl e" "s' = s1" using Suc.prems g by (simp_all add: Let_def)
    then show ?thesis using e1(1) by simp
  next
    case (Inr k)
    note k = e1(2) [OF Inr]
    obtain pg where pg: "cache s1 k = Some pg" "pg_uptodate pg" using k by blast
    show ?thesis
    proof (cases "?i = len")
      case True
      then show ?thesis using Suc.prems g e1(1) Inr k pg by (auto simp: Let_def bind_eq_Some_conv)
    next
      case False
      with Suc.prems g Inr pg obtain ch where ch: "child_nid ?i (pg_data pg) (offset ! nat ?i) = Some ch"
        by (auto simp: Let_def bind_eq_Some_conv)
      show ?thesis
      proof (cases "ch = 0 \<and> \<not> c")
        case True
        then have "r = Inl (- EIO)" "s' = s1" using Suc.prems g Inr pg ch False by (simp_all add: Let_def)
        then show ?thesis using e1(1) by simp
      next
        case no: False
        with Suc.prems g Inr pg ch False obtain nx s2
          where nx: "(if ch = 0 then new_child pp s1 ino ?i (offset ! nat ?i) k else Some (sint ch, s1)) = Some (nx, s2)"
            and rec: "dnode_walk pp ino len offset c n nx s2 = Some ((r, need), s')"
          by (auto simp: Let_def bind_eq_Some_conv)
        have n1: "fst k = fs_node_ino s1" using k read_ext_same(3) [OF e1(1)] by simp
        have "read_ext s1 s2" using nx new_child_ext n1 by (auto split: if_splits)
        then have e2: "read_ext s s2" using e1(1) read_ext_trans by blast
        from Suc.IH [OF rec] show ?thesis
          using e2 read_ext_trans read_ext_same(3) by metis
      qed
    qed
  qed
qed

lemma get_dnode_page_ext:
  "get_dnode_page pp s k c = Some ((r, need), s') \<Longrightarrow>
    read_ext s s' \<and> (\<forall>k. r = Inr k \<longrightarrow> fst k = fs_node_ino s \<and> (\<exists>p. cache s' k = Some p \<and> pg_uptodate p))"
  by (cases "get_path (snd k)") (simp add: get_dnode_page_def dnode_walk_ext)

lemma xcpfs_iget_ext:
  assumes "xcpfs_iget pp s ino = Some (r, s')"
  shows "read_ext s s'"
proof -
  consider "inodes s ino \<noteq> None" | "inodes s ino = None" "ino = 2" | "inodes s ino = None" "ino \<noteq> 2" by blast
  then show ?thesis
  proof cases
    case 1
    then show ?thesis using assms by (simp add: xcpfs_iget_def)
  next
    case 2
    then show ?thesis using assms by (auto simp: xcpfs_iget_def read_ext_inode)
  next
    case 3
    with assms obtain q s1 where g: "get_node_page pp s ino False = Some (q, s1)"
      by (auto simp: xcpfs_iget_def bind_eq_Some_conv)
    have "s' = s1 \<or> (\<exists>v. s' = s1\<lparr>inodes := (inodes s1)(ino \<mapsto> v)\<rparr>)"
      using assms 3 g by (cases q) (auto simp: xcpfs_iget_def bind_eq_Some_conv)
    moreover have "read_ext s s1" using get_node_page_ext g by blast
    ultimately show ?thesis using 3(1) by (auto simp: read_ext_def)
  qed
qed

text \<open>A submitted read is a growth of the state followed by filling the page.\<close>

definition read_fill :: "pkey \<Rightarrow> fs \<Rightarrow> fs \<Rightarrow> bool" where
  "read_fill k s s' \<longleftrightarrow> (\<exists>f s1. read_ext s s1 \<and> fills f \<and> s' = upd_page k f s1)"

lemma read_fill_ext:
  "read_ext s0 s \<Longrightarrow> read_fill k s s' \<Longrightarrow> cache s0 k = Some p \<Longrightarrow> \<not> pg_uptodate p \<Longrightarrow>
    read_ext s0 s' \<and> (\<exists>p. cache s' k = Some p \<and> pg_uptodate p)"
  unfolding read_fill_def using read_ext_fill read_ext_trans by blast

lemma submit_node_read:
  assumes "submit_node_xio bd pp xio s = Some (0, s')" "xio_op xio = REQ_OP_READ" "xio_page xio = Some k"
  shows "read_fill k s s'"
proof -
  from assms(1,3) obtain ne s1 where l: "lookup_nat pp s (xio_iblock xio) = Some (Some ne, s1)"
    by (auto simp: submit_node_xio_def bind_eq_Some_conv)
  have "\<exists>f. s' = upd_page k f s1 \<and> fills f"
  proof (cases "ne_block_addr ne = 0")
    case True
    then have "s' = upd_page k (\<lambda>p. p\<lparr>pg_data := if pg_uptodate p then pg_data p else zero_bytes, pg_uptodate := True\<rparr>) s1"
      using assms l by (simp add: submit_node_xio_def)
    then show ?thesis by (auto simp: fills_def)
  next
    case False
    then show ?thesis
      using assms l by (auto simp: submit_node_xio_def alloc_zone_def alloc_bio_def submit_read)
  qed
  then show ?thesis
    using lookup_nat_ext [OF l] unfolding read_fill_def by blast
qed

lemma dnode_walk_err:
  "dnode_walk pp ino len offset c n nid s = Some ((Inl e, need), s') \<Longrightarrow> e = - EIO"
proof (induction n arbitrary: nid s)
  case (Suc n)
  then obtain r s1 where g: "pp s (fs_node_ino s) nid False c = Some (r, s1)"
    by (auto simp: Let_def bind_eq_Some_conv get_node_page_def)
  show ?case
  proof (cases r)
    case (Inl x)
    then show ?thesis using Suc.prems g pp_err by (auto simp: Let_def get_node_page_def)
  next
    case (Inr k)
    then show ?thesis
      using Suc g by (auto simp: Let_def bind_eq_Some_conv get_node_page_def split: if_splits)
  qed
qed simp

lemma get_dnode_page_err: "get_dnode_page pp s k c = Some ((Inl e, need), s') \<Longrightarrow> e = - EIO"
  by (cases "get_path (snd k)") (simp add: get_dnode_page_def dnode_walk_err)

lemma submit_data_read:
  assumes "submit_data_xio bd pp xio s = Some (0, s')" "xio_op xio = REQ_OP_READ" "xio_page xio = Some k"
  shows "read_fill k s s'"
proof -
  from assms(1) obtain i s1 where g: "xcpfs_iget pp s (xio_ino xio) = Some (i, s1)"
    by (auto simp: submit_data_xio_def bind_eq_Some_conv)
  obtain j where j: "i = Inr j" using assms(1) g by (cases i) (auto simp: submit_data_xio_def)
  from assms(1,3) g j obtain q s2 where d: "get_dnode_page pp s1 k False = Some (q, s2)"
    by (auto simp: submit_data_xio_def bind_eq_Some_conv)
  obtain r need where q: "q = (r, need)" by fastforce
  have e: "read_ext s s2"
    using xcpfs_iget_ext [OF g] get_dnode_page_ext d q read_ext_trans by blast
  have "\<exists>f. s' = upd_page k f s2 \<and> fills f"
  proof (cases r)
    case (Inl e)
    with assms(1,3) g j d q have "e = 0" by (simp add: submit_data_xio_def)
    moreover have "e = - EIO" using get_dnode_page_err d q Inl by blast
    ultimately show ?thesis by simp
  next
    case (Inr dk)
    obtain len offset where p: "get_path (xio_iblock xio) = (len, offset)" by fastforce
    with assms g j d q Inr show ?thesis
      by (auto simp: submit_data_xio_def alloc_zone_def alloc_bio_def submit_read bind_eq_Some_conv Let_def)
  qed
  then show ?thesis
    using e unfolding read_fill_def by blast
qed

lemma read_disk_fill:
  assumes "read_disk bd pp s k = Some (r, s')"
  shows "r = 0 \<and> read_fill k s s'"
proof -
  define xio where "xio = alloc_xio\<lparr>xio_ino := fst k, xio_iblock := snd k, xio_op := REQ_OP_READ,
    xio_type := get_page_type s (fst k) (snd k), xio_page := Some k, xio_unlock := True\<rparr>"
  have x: "xio_op xio = REQ_OP_READ" "xio_page xio = Some k" by (simp_all add: xio_def)
  have "xcpfs_submit_xio bd pp xio s = Some (0, s')" "r = 0"
    using assms by (auto simp: read_disk_def xio_def [symmetric] bind_eq_Some_conv split: if_splits)
  then show ?thesis
    using x submit_node_read submit_data_read by (auto simp: xcpfs_submit_xio_def split: if_splits)
qed

lemma do_prepare_page_ext:
  assumes "do_prepare_page bd pp s k c = Some (r, s')"
  shows "read_ext s s' \<and> (r = 0 \<longrightarrow> (\<exists>p. cache s' k = Some p \<and> pg_uptodate p)) \<and> (r = 0 \<or> r = - EIO)"
proof -
  obtain p where p: "cache s k = Some p"
    using assms by (auto simp: do_prepare_page_def bind_eq_Some_conv)
  consider "pg_uptodate p" | "\<not> pg_uptodate p" "fst k = 2" | "\<not> pg_uptodate p" "fst k \<noteq> 2" by blast
  then show ?thesis
  proof cases
    case 1
    then show ?thesis using assms p by (simp add: do_prepare_page_def)
  next
    case 2
    then have "read_disk bd pp s k = Some (r, s')" using assms p by (simp add: do_prepare_page_def)
    then show ?thesis using read_disk_fill read_fill_ext [OF read_ext_refl _ p 2(1)] by blast
  next
    case 3
    then obtain q s1 where d: "get_dnode_page pp s k c = Some (q, s1)"
      using assms p by (auto simp: do_prepare_page_def bind_eq_Some_conv)
    obtain x need where q: "q = (x, need)" by fastforce
    have e: "read_ext s s1" using get_dnode_page_ext d q by blast
    show ?thesis
    proof (cases x)
      case (Inl y)
      then have "r = - EIO" "s' = s1" using assms p 3 d q by (simp_all add: do_prepare_page_def)
      then show ?thesis using e by simp
    next
      case (Inr dk)
      show ?thesis
      proof (cases need)
        case True
        then have "r = 0" "s' = upd_page k (filled zero_bytes) s1"
          using assms p 3 d q Inr by (simp_all add: do_prepare_page_def filled_def [abs_def])
        then show ?thesis using read_ext_fill [OF e p 3(1) fills_filled] by simp
      next
        case False
        then have "read_disk bd pp s1 k = Some (r, s')"
          using assms p 3 d q Inr by (simp add: do_prepare_page_def)
        then show ?thesis using read_disk_fill read_fill_ext [OF e _ p 3(1)] by blast
      qed
    qed
  qed
qed

lemma prepare_page_unlocked:
  assumes "prepare_page_locked bd pp s i x w c False = Some (r, s')"
  shows "read_ext s s' \<and> (\<forall>e. r = Inl e \<longrightarrow> e = - EIO) \<and>
    (\<forall>k. r = Inr k \<longrightarrow> k = (i, x) \<and> (\<exists>p. cache s' k = Some p \<and> pg_uptodate p))"
proof -
  from assms obtain s1 pg where g: "grab_page (i, x) s = Some s1" "cache s1 (i, x) = Some pg"
    by (auto simp: prepare_page_locked_def bind_eq_Some_conv Let_def)
  have e: "read_ext s s1" using read_ext_grab g by blast
  show ?thesis
  proof (cases "pg_uptodate pg")
    case True
    then show ?thesis using assms g e by (auto simp: prepare_page_locked_def Let_def)
  next
    case False
    then obtain ret s2 where d: "do_prepare_page bd pp s1 (i, x) c = Some (ret, s2)"
      and r: "r = (if ret \<noteq> 0 then Inl ret else Inr (i, x))" "s' = s2"
      using assms g by (auto simp: prepare_page_locked_def Let_def bind_eq_Some_conv split: if_splits)
    then show ?thesis
      using do_prepare_page_ext [OF d] read_ext_trans [OF e] by auto
  qed
qed

end

section \<open>The model's reader meets the contract\<close>

lemma reader_prepare_page: "reader (prepare_page bd n)"
proof (induction n)
  case 0
  show ?case by unfold_locales simp_all
next
  case (Suc n)
  show ?case
  proof
    fix s i x w c r s' e k
    show "read_ext s s'" if "prepare_page bd (Suc n) s i x w c = Some (r, s')"
      using reader.prepare_page_unlocked [OF Suc] that by simp
    show "e = - EIO" if "prepare_page bd (Suc n) s i x w c = Some (Inl e, s')"
      using reader.prepare_page_unlocked [OF Suc] that by simp
    show "k = (i, x) \<and> (\<exists>p. cache s' k = Some p \<and> pg_uptodate p)"
      if "prepare_page bd (Suc n) s i x w c = Some (Inr k, s')"
      using reader.prepare_page_unlocked [OF Suc, of bd s i x w c "Inr k" s'] that
      unfolding prepare_page.simps by blast
  qed
qed

lemma prepare_page_Suc:
  "prepare_page bd (Suc n) s ino x w c = prepare_page_locked bd (prepare_page bd n) s ino x w c False"
  by simp

declare prepare_page.simps [simp del]

interpretation pr: reader "prepare_page bd n" for bd n
  by (rule reader_prepare_page)

end
