(* ===== verification/Zone_Alloc.thy ===== *)
theory Zone_Alloc
  imports Zone
begin

text \<open>
  Choosing a zone for a write (\<open>get_zone\<close>, \<open>alloc_zone\<close> in \<open>zone_mgmt.c\<close>) and the validity
  of single blocks: what the search over the open zones returns, when it returns, and the
  properties of the zone manager with their instances.
\<close>

section \<open>Finding a zone\<close>


lemma scan_opened_none:
  "(\<forall>k \<in> slot_set l. k < length (zone_info m) \<and> zi_zone_type (zone_info m ! k) \<noteq> ty) \<Longrightarrow>
    scan_opened m ty l acc = Some acc"
proof (induction m ty l acc rule: scan_opened.induct)
  case (3 m ty k l inflight tar)
  then have "zone_at m (int k) = Some (zone_info m ! k)" by (simp add: zone_at_def)
  with 3 show ?case by simp
qed simp_all

text \<open>
  A pass finds a zone as soon as one open zone of the type has not wrapped: its distance from the
  zone start is below the initial bound.
\<close>

lemma scan_opened_keeps:
  "\<forall>k \<in> slot_set l. k < length (zone_info m) \<Longrightarrow> \<exists>f t. scan_opened m ty l acc = Some (f, t) \<and>
     (snd acc \<noteq> None \<longrightarrow> t \<noteq> None)"
proof (induction m ty l acc rule: scan_opened.induct)
  case (3 m ty k l inflight tar)
  then have "zone_at m (int k) = Some (zone_info m ! k)" by (simp add: zone_at_def)
  with 3 show ?case by auto
qed auto

lemma scan_opened_finds:
  assumes "\<forall>j \<in> slot_set l. j < length (zone_info m)" "k \<in> slot_set l"
    "zi_zone_type (zone_info m ! k) = ty"
    "zi_wp (zone_info m ! k) + zi_write_inflight (zone_info m ! k) - zi_start (zone_info m ! k) < bound"
  shows "\<exists>f t. scan_opened m ty l (bound, None) = Some (f, Some t)"
  using assms
proof (induction l)
  case (Cons x l)
  show ?case
  proof (cases x)
    case None
    with Cons show ?thesis by simp
  next
    case (Some j)
    then have at: "zone_at m (int j) = Some (zone_info m ! j)"
      using Cons.prems(1) by (simp add: zone_at_def)
    have later: "\<exists>f t. scan_opened m ty l acc = Some (f, t) \<and> (snd acc \<noteq> None \<longrightarrow> t \<noteq> None)" for acc
      using Cons.prems(1) Some by (intro scan_opened_keeps) simp
    show ?thesis
    proof (cases "zi_zone_type (zone_info m ! j) = ty \<and>
        zi_wp (zone_info m ! j) + zi_write_inflight (zone_info m ! j) - zi_start (zone_info m ! j) < bound")
      case True
      with later [of "(zi_wp (zone_info m ! j) + zi_write_inflight (zone_info m ! j), Some j)"]
      show ?thesis using Some at by auto
    next
      case False
      then have "k \<in> slot_set l"
        using Cons.prems(2-4) Some by auto
      with False Cons Some at show ?thesis by auto
    qed
  qed
qed simp

lemma get_empty_zone_cases:
  assumes "table_ok m"
  shows "get_empty_zone m = 0 \<and> (\<forall>k < length (zone_info m). 2 \<le> k \<longrightarrow> zi_cond (zone_info m ! k) \<noteq> COND_EMPTY)
    \<or> (\<exists>k. get_empty_zone m = int k \<and> 2 \<le> k \<and> k < length (zone_info m) \<and>
        zi_cond (zone_info m ! k) = COND_EMPTY)"
proof (cases "find (\<lambda>z. zi_cond z = COND_EMPTY) (drop 2 (zone_info m))")
  case None
  then have n: "\<forall>z \<in> set (drop 2 (zone_info m)). zi_cond z \<noteq> COND_EMPTY"
    by (auto simp: find_None_iff)
  have "zi_cond (zone_info m ! k) \<noteq> COND_EMPTY" if "k < length (zone_info m)" "2 \<le> k" for k
  proof -
    from that(2) obtain j where "k = 2 + j" using le_Suc_ex by blast
    with that(1) have "zone_info m ! k \<in> set (drop 2 (zone_info m))"
      by (auto simp: in_set_conv_nth intro: exI [of _ j])
    with n show ?thesis by blast
  qed
  with None show ?thesis by (simp add: get_empty_zone_def)
next
  case (Some z)
  then obtain i where i: "i < length (drop 2 (zone_info m))" "zi_cond z = COND_EMPTY"
    "z = drop 2 (zone_info m) ! i"
    by (auto simp: find_Some_iff)
  then have "zi_zone_id z = int (2 + i)"
    using assms by (simp add: table_ok_def)
  with Some i show ?thesis
    by (intro disjI2 exI [of _ "2 + i"]) (simp add: get_empty_zone_def)
qed

text \<open>What one pass through label \<open>open\<close> does.\<close>

lemma get_zone_open_cases:
  assumes "get_zone_open bd ty s = Some s'"
  obtains (full) "\<not> zone_opened_count (zm s) < max_open_zones (zm s)" "s' = s"
  | (opened) r m1 where "zone_opened_count (zm s) < max_open_zones (zm s)"
      "xcpfs_zone_open bd (zm s) (get_empty_zone (zm s)) = Some (r, m1)"
      "zm s' = zone_upd (get_empty_zone (zm s)) (\<lambda>z. z\<lparr>zi_zone_type := type_code ty\<rparr>) m1
         \<lparr>nr_type := (nr_type m1)[unat (type_code ty) := nr_type m1 ! unat (type_code ty) + 1]\<rparr>"
  using assms
  by (auto simp: get_zone_open_def Let_def bind_eq_Some_conv split: if_splits)

lemma zones_with_nr_type [simp]: "zones_with C (m\<lparr>nr_type := x\<rparr>) = zones_with C m"
  by (simp add: zones_with_def)

lemma zm_ok_nr_type [simp]: "zm_ok (m\<lparr>nr_type := x\<rparr>) = zm_ok m"
  by (simp add: zm_ok_def table_ok_def)

text \<open>The fallback zone 0 is opened only by its condition: it must not be implicitly open.\<close>

definition zone0_ok :: "xcpfs_zm_info \<Rightarrow> bool" where
  "zone0_ok m \<longleftrightarrow> zm_ok m \<and> zi_cond (zone_info m ! 0) \<noteq> COND_IMP_OPEN"

lemma zone0_ok_get_zone_open:
  assumes "zone0_ok (zm s)" and run: "get_zone_open bd ty s = Some s'"
  shows "zone0_ok (zm s')"
  using run
proof (cases rule: get_zone_open_cases)
  case full
  with assms show ?thesis by simp
next
  case (opened r m1)
  let ?z = "get_empty_zone (zm s)"
  have ok: "zm_ok (zm s)" and z0: "zi_cond (zone_info (zm s) ! 0) \<noteq> COND_IMP_OPEN"
    using assms by (simp_all add: zone0_ok_def)
  have imp: "zi_cond (zone_info (zm s) ! nat ?z) \<noteq> COND_IMP_OPEN"
    using get_empty_zone_cases [of "zm s"] ok z0 by (auto simp: zm_ok_def)
  have ok1: "zm_ok m1"
    using zm_ok_zone_open [OF ok opened(2) imp] .
  have z: "nat ?z < length (zone_info (zm s))" "length (zone_info m1) = length (zone_info (zm s))"
    using opened(2) by (auto simp: xcpfs_zone_open_def zone_at_Some bind_eq_Some_conv Let_def split: if_splits)
  have "zm_ok (zm s')"
    unfolding opened(3) using ok1 z by (simp add: zm_ok_same_cond)
  moreover have "zi_cond (zone_info m1 ! 0) \<noteq> COND_IMP_OPEN"
    using opened(2)
    by (cases rule: zone_open_cases) (use z0 z in \<open>auto simp: zone_upd_def nth_list_update\<close>)
  moreover have "0 < length (zone_info m1)"
    using z by (metis le0 order.strict_trans1)
  ultimately show ?thesis
    by (simp add: zone0_ok_def opened(3) zone_info_upd)
qed




text \<open>
  When every slot is taken by a zone of another type the loop changes nothing and never ends.
\<close>

definition no_zone_for :: "page_type \<Rightarrow> xcpfs_zm_info \<Rightarrow> bool" where
  "no_zone_for ty m \<longleftrightarrow> \<not> zone_opened_count m < max_open_zones m \<and>
     (\<forall>k \<in> slot_set (zone_opened m). k < length (zone_info m) \<and> zi_zone_type (zone_info m ! k) \<noteq> type_code ty)"

lemma get_zone_retry_stuck:
  assumes "no_zone_for ty (zm s)"
  shows "get_zone_retry bd ty b s = None"
proof (rule ccontr)
  assume "get_zone_retry bd ty b s \<noteq> None"
  then obtain r where r: "get_zone_retry bd ty b s = Some r" by auto
  have "\<not> no_zone_for ty (zm s)"
    using r
  proof (rule get_zone_retry.raw_induct [where P = "\<lambda>bd ty b s r. \<not> no_zone_for ty (zm s)", rotated])
    fix f and bd :: bdev and ty b and s :: fs and r
    assume IH: "\<And>bd ty b s r. f bd ty b s = Some r \<Longrightarrow> \<not> no_zone_for ty (zm s)"
      and eq: "Option.bind (scan_opened (zm s) (type_code ty) (zone_opened (zm s)) (b, None))
       (\<lambda>r. case snd r of
              None \<Rightarrow> Option.bind (get_zone_open bd ty s) (\<lambda>s'. f bd ty (fst r) s')
            | Some k \<Rightarrow> Some (zi_zone_id (zone_info (zm s) ! k), s)) = Some r"
    show "\<not> no_zone_for ty (zm s)"
    proof
      assume st: "no_zone_for ty (zm s)"
      then have "scan_opened (zm s) (type_code ty) (zone_opened (zm s)) (b, None) = Some (b, None)"
        by (intro scan_opened_none) (simp add: no_zone_for_def)
      moreover have "get_zone_open bd ty s = Some s"
        using st by (simp add: get_zone_open_def no_zone_for_def)
      ultimately have "f bd ty b s = Some r" using eq by simp
      with IH st show False by blast
    qed
  qed
  with assms show False by blast
qed

lemma get_zone_stuck:
  assumes "no_zone_for ty (zm s)"
  shows "get_zone bd ty s = None"
proof -
  have "get_zone_open bd ty s = Some s"
    using assms by (simp add: get_zone_open_def no_zone_for_def)
  then show ?thesis
    using assms by (simp add: get_zone_def Let_def get_zone_retry_stuck)
qed

text \<open>
  The loop ends after at most one pass through label \<open>open\<close> when a zone may be opened: there is
  a free slot, an empty zone that has not been written beyond its start, and the device agrees.
\<close>

definition can_open :: "bdev \<Rightarrow> fs \<Rightarrow> bool" where
  "can_open bd s \<longleftrightarrow>
     zone_opened_count (zm s) < max_open_zones (zm s) \<and>
     zone_active_count (zm s) < max_active_zones (zm s) \<and>
     2 \<le> get_empty_zone (zm s) \<and>
     (let zi = zone_info (zm s) ! nat (get_empty_zone (zm s)) in
        xcpfs_blkdev_zone_mgmt bd REQ_OP_ZONE_OPEN (zi_start zi) (zone_size (zm s)) = Some 0 \<and>
        zi_wp zi + zi_write_inflight zi - zi_start zi < LONG_MAX)"

text \<open>Setting \<open>sbi->cpc->restart\<close> needs a checkpoint context when the semaphore is held.\<close>

definition restart_ok :: "fs \<Rightarrow> bool" where
  "restart_ok s \<longleftrightarrow> (xcpfs_rwsem_is_locked (cp_sem s) \<longrightarrow> cpc s \<noteq> None)"

lemma scan_opened_none_same: "scan_opened m ty l acc = Some (f, None) \<Longrightarrow> acc = (f, None)"
  by (induction m ty l acc arbitrary: f rule: scan_opened.induct)
    (fastforce simp: bind_eq_Some_conv split: if_splits)+

lemma opened_slots_valid: "zm_ok m \<Longrightarrow> \<forall>k \<in> slot_set (zone_opened m). k < length (zone_info m)"
  by (simp add: zm_ok_def tracks_def zones_with_def)

lemma get_zone_open_succeeds:
  assumes "zone0_ok (zm s)" "can_open bd s" "restart_ok s"
  obtains s' k where "get_zone_open bd ty s = Some s'" "k \<in> slot_set (zone_opened (zm s'))"
    "zi_zone_type (zone_info (zm s') ! k) = type_code ty"
    "zi_wp (zone_info (zm s') ! k) + zi_write_inflight (zone_info (zm s') ! k)
       - zi_start (zone_info (zm s') ! k) < LONG_MAX"
proof -
  let ?m = "zm s" and ?z = "get_empty_zone (zm s)"
  have ok: "zm_ok ?m" using assms(1) by (simp add: zone0_ok_def)
  note co = assms(2)[unfolded can_open_def Let_def] assms(3)[unfolded restart_ok_def]
  from get_empty_zone_cases [of ?m] co ok obtain k where
    k: "?z = int k" "2 \<le> k" "k < length (zone_info ?m)" "zi_cond (zone_info ?m ! k) = COND_EMPTY"
    by (auto simp: zm_ok_def)
  have at: "zone_at ?m ?z = Some (zone_info ?m ! k)"
    using k by (simp add: zone_at_def)
  let ?m2 = "zone_upd ?z (\<lambda>z. z\<lparr>zi_cond := COND_EXP_OPEN, zi_dirty := True\<rparr>)
    (snd (insert_zone_active (snd (insert_zone_opened ?m k)) k))"
  have run: "xcpfs_zone_open bd ?m ?z = Some (0, ?m2)"
    using co k at by (simp add: xcpfs_zone_open_def)
  have at2: "zone_at ?m2 ?z \<noteq> None"
    using k by (simp add: zone_at_def)
  have "get_zone_open bd ty s \<noteq> None"
    using co run at2 by (auto simp: get_zone_open_def Let_def)
  then obtain s' where s': "get_zone_open bd ty s = Some s'"
    by blast
  have zm': "zm s' = zone_upd ?z (\<lambda>z. z\<lparr>zi_zone_type := type_code ty\<rparr>) ?m2
     \<lparr>nr_type := (nr_type ?m2)[unat (type_code ty) := nr_type ?m2 ! unat (type_code ty) + 1]\<rparr>"
    using s'
    by (cases rule: get_zone_open_cases) (use run co in auto)
  have "k \<notin> zones_with cond_open ?m"
    using k by (simp add: zones_with_def)
  then have "slot_set (zone_opened (snd (insert_zone_opened ?m k))) = insert k (zones_with cond_open ?m)"
    using ok co opened_tracks_insert [OF _ _ _ refl, of ?m "zones_with cond_open ?m" k]
    by (simp add: zm_ok_def tracks_def)
  then have "k \<in> slot_set (zone_opened (zm s'))"
    by (simp add: zm')
  moreover have "zone_info (zm s') ! k = (zone_info ?m ! k)
      \<lparr>zi_cond := COND_EXP_OPEN, zi_dirty := True, zi_zone_type := type_code ty\<rparr>"
    using k by (simp add: zm' zone_upd_def)
  ultimately show ?thesis
    using that [OF s', of k] co k(1) by simp
qed

lemma get_zone_retry_finds:
  assumes "zm_ok (zm s)" "k \<in> slot_set (zone_opened (zm s))"
    "zi_zone_type (zone_info (zm s) ! k) = type_code ty"
    "zi_wp (zone_info (zm s) ! k) + zi_write_inflight (zone_info (zm s) ! k) - zi_start (zone_info (zm s) ! k) < b"
  shows "\<exists>zid. get_zone_retry bd ty b s = Some (zid, s)"
  using scan_opened_finds [OF opened_slots_valid [OF assms(1)] assms(2-4)]
  by (auto simp: get_zone_retry.simps [of bd ty b s])

lemma get_zone_returns_lemma:
  assumes ok: "zone0_ok (zm s)" and co: "can_open bd s" "restart_ok s"
    and len: "unat (type_code ty) < length (nr_type (zm s))" "unat (type_code ty) < length (limit_type (zm s))"
  shows "\<exists>zid s'. get_zone bd ty s = Some (zid, s')"
proof -
  obtain s1 k where s1: "get_zone_open bd ty s = Some s1" "k \<in> slot_set (zone_opened (zm s1))"
    "zi_zone_type (zone_info (zm s1) ! k) = type_code ty"
    "zi_wp (zone_info (zm s1) ! k) + zi_write_inflight (zone_info (zm s1) ! k)
       - zi_start (zone_info (zm s1) ! k) < LONG_MAX"
    using get_zone_open_succeeds [OF ok co] by blast
  have "zm_ok (zm s1)"
    using zone0_ok_get_zone_open [OF ok s1(1)] by (simp add: zone0_ok_def)
  from get_zone_retry_finds [OF this s1(2-4)] obtain zid where
    again: "get_zone_retry bd ty LONG_MAX s1 = Some (zid, s1)" by blast
  have "\<exists>f t. scan_opened (zm s) (type_code ty) (zone_opened (zm s)) (LONG_MAX, None) = Some (f, t)"
    using scan_opened_keeps [OF opened_slots_valid [of "zm s"], of "type_code ty" "(LONG_MAX, None)"] ok
    by (auto simp: zone0_ok_def)
  then obtain f t where scan: "scan_opened (zm s) (type_code ty) (zone_opened (zm s)) (LONG_MAX, None) = Some (f, t)"
    by blast
  have "\<exists>zid s'. get_zone_retry bd ty LONG_MAX s = Some (zid, s')"
  proof (cases t)
    case None
    with scan have "f = LONG_MAX"
      using scan_opened_none_same [of "zm s" "type_code ty" "zone_opened (zm s)"] by blast
    with None scan s1(1) again show ?thesis
      by (simp add: get_zone_retry.simps [of bd ty LONG_MAX s])
  next
    case (Some j)
    with scan show ?thesis by (simp add: get_zone_retry.simps [of bd ty LONG_MAX s])
  qed
  with again s1(1) len show ?thesis by (simp add: get_zone_def Let_def)
qed

lemma get_zone_null_restart:
  assumes ok: "zone0_ok (zm s)" and co: "can_open bd s" "\<not> restart_ok s"
    and lim: "nr_type (zm s) ! unat (type_code ty) < limit_type (zm s) ! unat (type_code ty)"
  shows "get_zone bd ty s = None"
proof -
  let ?m = "zm s" and ?z = "get_empty_zone (zm s)"
  note co' = co(1)[unfolded can_open_def Let_def] co(2)[unfolded restart_ok_def]
  from get_empty_zone_cases [of ?m] co' ok obtain k where
    k: "?z = int k" "2 \<le> k" "k < length (zone_info ?m)" "zi_cond (zone_info ?m ! k) = COND_EMPTY"
    by (auto simp: zone0_ok_def zm_ok_def)
  have at: "zone_at ?m ?z = Some (zone_info ?m ! k)" using k by (simp add: zone_at_def)
  have "get_zone_open bd ty s = None"
    using co' k at by (simp add: get_zone_open_def xcpfs_zone_open_def Let_def zone_at_def split: bind_splits)
  then show ?thesis using lim by (simp add: get_zone_def Let_def)
qed

section \<open>Validity of single blocks\<close>

text \<open>The validity bit of a block address: bit \<open>b mod B\<close> of zone \<open>b div B\<close>.\<close>

definition blocks_per_zone :: "xcpfs_zm_info \<Rightarrow> int" where
  "blocks_per_zone m = uint (zone_blocks m)"

definition block_zone :: "xcpfs_zm_info \<Rightarrow> int \<Rightarrow> nat" where
  "block_zone m b = nat (b div blocks_per_zone m)"

definition block_valid :: "xcpfs_zm_info \<Rightarrow> int \<Rightarrow> bool" where
  "block_valid m b =
     bm_test (zi_valid_map (zone_info m ! block_zone m b)) (nat (b mod blocks_per_zone m))"

text \<open>Addresses of the device: a zone of the table, and an index its bitmap holds.\<close>

definition block_addr_ok :: "xcpfs_zm_info \<Rightarrow> int \<Rightarrow> bool" where
  "block_addr_ok m b \<longleftrightarrow> 0 \<le> b \<and> int32 b \<and> 0 < blocks_per_zone m \<and>
     blocks_per_zone m \<le> int valid_map_bits \<and> b div blocks_per_zone m < nr_zones m"

lemma block_addr_okD:
  assumes "block_addr_ok m b" "table_ok m"
  shows "blk2zone m b = Some (b div blocks_per_zone m)" "blk2idx m b = Some (b mod blocks_per_zone m)"
    "zone_at m (b div blocks_per_zone m) = Some (zone_info m ! block_zone m b)"
    "bit_index (b mod blocks_per_zone m) = Some (nat (b mod blocks_per_zone m))"
    "block_zone m b < length (zone_info m)"
    "nat (b mod blocks_per_zone m) < valid_map_bits"
    "nat (b div blocks_per_zone m) = block_zone m b"
proof -
  have B: "0 < blocks_per_zone m" "blocks_per_zone m \<le> int valid_map_bits" and b: "0 \<le> b" "int32 b"
    using assms by (simp_all add: block_addr_ok_def)
  from B(1) have nz: "zone_blocks m \<noteq> 0"
    by (auto simp: blocks_per_zone_def)
  show "blk2zone m b = Some (b div blocks_per_zone m)" "blk2idx m b = Some (b mod blocks_per_zone m)"
    using nz b by (simp_all add: blk2zone_def blk2idx_def udiv_nonneg umod_nonneg blocks_per_zone_def)
  have q: "0 \<le> b div blocks_per_zone m" "b div blocks_per_zone m < int (length (zone_info m))"
    using assms B b by (simp_all add: block_addr_ok_def table_ok_def pos_imp_zdiv_nonneg_iff)
  show l: "block_zone m b < length (zone_info m)" "nat (b div blocks_per_zone m) = block_zone m b"
    using q by (simp_all add: block_zone_def)
  show "zone_at m (b div blocks_per_zone m) = Some (zone_info m ! block_zone m b)"
    using q l by (simp add: zone_at_def)
  have r: "0 \<le> b mod blocks_per_zone m" "b mod blocks_per_zone m < blocks_per_zone m"
    using B by simp_all
  show "bit_index (b mod blocks_per_zone m) = Some (nat (b mod blocks_per_zone m))"
    "nat (b mod blocks_per_zone m) < valid_map_bits"
    using r order_less_le_trans [OF r(2) B(2)] by (auto simp: bit_index_def nat_less_iff)
qed

lemma block_coords_eq:
  assumes "block_addr_ok m b" "block_addr_ok m c" "block_zone m c = block_zone m b"
    "nat (c mod blocks_per_zone m) = nat (b mod blocks_per_zone m)"
  shows "c = b"
proof -
  have B: "0 < blocks_per_zone m" and nn: "0 \<le> b" "0 \<le> c"
    using assms by (simp_all add: block_addr_ok_def)
  then have "0 \<le> b div blocks_per_zone m" "0 \<le> c div blocks_per_zone m"
    by (simp_all add: pos_imp_zdiv_nonneg_iff)
  then have "c div blocks_per_zone m = b div blocks_per_zone m"
    using assms(3) by (simp add: block_zone_def nat_eq_iff2)
  moreover have "c mod blocks_per_zone m = b mod blocks_per_zone m"
    using assms(4) B by (simp add: nat_eq_iff2)
  ultimately show ?thesis
    by (metis div_mult_mod_eq)
qed

lemma same_size:
  "zone_size m' = zone_size m \<Longrightarrow> blocks_per_zone m' = blocks_per_zone m"
  "zone_size m' = zone_size m \<Longrightarrow> block_zone m' b = block_zone m b"
  by (simp_all add: blocks_per_zone_def block_zone_def zone_blocks_def)

text \<open>The zone of a block after \<open>validate_blkaddr\<close> and \<open>invalidate_blkaddr\<close>.\<close>

definition validated :: "xcpfs_zm_info \<Rightarrow> int \<Rightarrow> xcpfs_zone_info \<Rightarrow> xcpfs_zone_info" where
  "validated m b zi =
     (let wp = max (zi_wp zi) (word_of_int (int_wrap ((b + 1) * 8))) in
      zi\<lparr>zi_valid_map := bm_set (zi_valid_map zi) (nat (b mod blocks_per_zone m)),
         zi_vblocks := zi_vblocks zi + 1, zi_dirty := True, zi_wp := wp,
         zi_cond := (if wp = zone_capacity m + zi_start zi then COND_FULL else zi_cond zi)\<rparr>)"

lemma validate_zone_info:
  assumes "block_addr_ok m b" "table_ok m"
  shows "\<exists>m'. validate_blkaddr m b = Some m' \<and> zone_size m' = zone_size m \<and>
    zone_capacity m' = zone_capacity m \<and> nr_zones m' = nr_zones m \<and>
    zone_info m' = (zone_info m)[block_zone m b := validated m b (zone_info m ! block_zone m b)]"
  using block_addr_okD [OF assms]
  by (auto simp: validate_blkaddr_def Let_def validated_def PAGE_SECTORS_SHIFT_def zone_upd_def)

lemma invalidate_zone_info:
  assumes "block_addr_ok m b" "table_ok m"
  shows "\<exists>m'. invalidate_blkaddr m b = Some m' \<and> zone_size m' = zone_size m \<and>
    zone_capacity m' = zone_capacity m \<and> nr_zones m' = nr_zones m \<and>
    zone_info m' = (zone_info m)[block_zone m b := (zone_info m ! block_zone m b)
      \<lparr>zi_valid_map := bm_clear (zi_valid_map (zone_info m ! block_zone m b)) (nat (b mod blocks_per_zone m)),
       zi_vblocks := zi_vblocks (zone_info m ! block_zone m b) - 1, zi_dirty := True\<rparr>]"
  using block_addr_okD [OF assms]
  by (simp add: invalidate_blkaddr_def zone_upd_def)

lemma block_valid_update:
  assumes "block_addr_ok m b" "block_addr_ok m c" "table_ok m" "zone_size m' = zone_size m"
    "zone_info m' = (zone_info m)[block_zone m b := z]"
    "\<And>j. j < valid_map_bits \<Longrightarrow> bm_test (zi_valid_map z) j =
      (if j = nat (b mod blocks_per_zone m) then v
       else bm_test (zi_valid_map (zone_info m ! block_zone m b)) j)"
  shows "block_valid m' c = (if c = b then v else block_valid m c)"
proof (cases "block_zone m c = block_zone m b")
  case True
  then have "c = b \<longleftrightarrow> nat (c mod blocks_per_zone m) = nat (b mod blocks_per_zone m)"
    using block_coords_eq assms(1,2) by blast
  with True show ?thesis
    using assms(4-6) block_addr_okD(5) [OF assms(1,3)] block_addr_okD(6) [OF assms(2,3)]
    by (simp add: block_valid_def same_size [OF assms(4)])
next
  case False
  with assms(1,4,5) show ?thesis
    by (auto simp: block_valid_def same_size [OF assms(4)])
qed

lemma block_valid_validate:
  assumes "block_addr_ok m b" "table_ok m" "validate_blkaddr m b = Some m'" "block_addr_ok m c"
  shows "block_valid m' c = (c = b \<or> block_valid m c)"
proof -
  have "zone_size m' = zone_size m"
    "zone_info m' = (zone_info m)[block_zone m b := validated m b (zone_info m ! block_zone m b)]"
    using validate_zone_info [OF assms(1,2)] assms(3) by auto
  from block_valid_update [OF assms(1,4,2) this, where v = True] show ?thesis
    by (simp add: validated_def Let_def bm_test_set)
qed

lemma block_valid_invalidate:
  assumes "block_addr_ok m b" "table_ok m" "invalidate_blkaddr m b = Some m'" "block_addr_ok m c"
  shows "block_valid m' c = (c \<noteq> b \<and> block_valid m c)"
proof -
  have "zone_size m' = zone_size m"
    "zone_info m' = (zone_info m)[block_zone m b := (zone_info m ! block_zone m b)
      \<lparr>zi_valid_map := bm_clear (zi_valid_map (zone_info m ! block_zone m b)) (nat (b mod blocks_per_zone m)),
       zi_vblocks := zi_vblocks (zone_info m ! block_zone m b) - 1, zi_dirty := True\<rparr>]"
    using invalidate_zone_info [OF assms(1,2)] assms(3) by auto
  from block_valid_update [OF assms(1,4,2) this, where v = False] show ?thesis
    by (simp add: bm_test_clear)
qed

text \<open>\<open>vblocks\<close> is the number of valid blocks of the zone.\<close>

definition vblocks_ok :: "xcpfs_zone_info \<Rightarrow> bool" where
  "vblocks_ok zi \<longleftrightarrow> zi_vblocks zi = int (card {i. i < valid_map_bits \<and> bm_test (zi_valid_map zi) i})"

lemma vblocks_ok_set:
  assumes "vblocks_ok zi" "i < valid_map_bits" "\<not> bm_test (zi_valid_map zi) i"
    "zi_valid_map z' = bm_set (zi_valid_map zi) i" "zi_vblocks z' = zi_vblocks zi + 1"
  shows "vblocks_ok z'"
proof -
  have "{j. j < valid_map_bits \<and> bm_test (zi_valid_map z') j}
      = insert i {j. j < valid_map_bits \<and> bm_test (zi_valid_map zi) j}"
    using assms by (auto simp: bm_test_set)
  with assms show ?thesis by (simp add: vblocks_ok_def)
qed

lemma vblocks_ok_clear:
  assumes "vblocks_ok zi" "i < valid_map_bits" "bm_test (zi_valid_map zi) i"
    "zi_valid_map z' = bm_clear (zi_valid_map zi) i" "zi_vblocks z' = zi_vblocks zi - 1"
  shows "vblocks_ok z'"
proof -
  let ?S = "{j. j < valid_map_bits \<and> bm_test (zi_valid_map zi) j}"
  have "{j. j < valid_map_bits \<and> bm_test (zi_valid_map z') j} = ?S - {i}"
    using assms by (auto simp: bm_test_clear)
  moreover have "i \<in> ?S" "finite ?S"
    using assms by auto
  moreover from this have "0 < card ?S"
    by (auto simp: card_gt_0_iff)
  ultimately show ?thesis
    using assms by (simp add: vblocks_ok_def card_Diff_singleton of_nat_diff)
qed

section \<open>Properties of the zone manager\<close>

text \<open>A small device and zone table, for the instances below: four zones of sixteen blocks.\<close>

definition sample_zone :: "int \<Rightarrow> zone_cond \<Rightarrow> u8 \<Rightarrow> sector \<Rightarrow> xcpfs_zone_info" where
  "sample_zone k c ty used =
     \<lparr>zi_zone_id = k, zi_cond = c, zi_wp = word_of_int (128 * k) + used, zi_start = word_of_int (128 * k),
      zi_write_inflight = 0, zi_dirty = False, zi_zone_type = ty, zi_vblocks = 0,
      zi_valid_map = zero_bytes\<rparr>"

definition sample_zm :: xcpfs_zm_info where
  "sample_zm =
     \<lparr>zone_size = 128, zone_capacity = 128, nr_zones = 4, max_open_zones = 3, max_active_zones = 3,
      nr_type = [0, 0, 0, 0, 1], limit_type = [0, 1, 1, 2, 1],
      zone_info = [sample_zone 0 COND_EXP_OPEN 0 8, sample_zone 1 COND_EMPTY 0 0,
                   sample_zone 2 COND_EXP_OPEN 4 8, sample_zone 3 COND_EMPTY 0 0],
      zone_opened_count = 2, zone_opened = [Some 0, Some 2, None],
      zone_active_count = 2, zone_active = [Some 0, Some 2, None]\<rparr>"

definition sample_bd :: bdev where
  "sample_bd = \<lparr>bdev_is_zoned = True, bdev_read_only = False, bdev_zone_sectors = 128,
     bdev_nr_sectors = 512, bdev_is_zone_start = (\<lambda>x. x mod 128 = 0),
     submit_bio_wait = (\<lambda>_ _. 0)\<rparr>"

lemma zones_with_upt:
  "zones_with C m = set (filter (\<lambda>k. C (zi_cond (zone_info m ! k))) [0..<length (zone_info m)])"
  by (auto simp: zones_with_def)

lemma sample_zones_with:
  "zones_with cond_open sample_zm = {0, 2}" "zones_with cond_active sample_zm = {0, 2}"
  unfolding zones_with_upt by (simp_all add: sample_zm_def sample_zone_def upt_rec numeral_2_eq_2)

lemma sample_zm_ok: "zm_ok sample_zm"
  unfolding zm_ok_def sample_zones_with
  by (auto simp: table_ok_def tracks_def All_less_Suc sample_zm_def sample_zone_def)

lemma sample_dev:
  "op_is_zone_mgmt rq \<Longrightarrow> s \<in> {0, 128, 256, 384} \<Longrightarrow> xcpfs_blkdev_zone_mgmt sample_bd rq s 128 = Some 0"
  using mgmt_bios_one [of 0 128] mgmt_bios_one [of 128 128] mgmt_bios_one [of 256 128]
    mgmt_bios_one [of 384 128]
  by (auto simp: xcpfs_blkdev_zone_mgmt_def sample_bd_def)

text \<open>C4: The zone commands implement the abstract machine: with the invariant, every command on a
  zone of the table returns the result of the specification, which counts the open and active
  zones to test the device limits, and moves the zone to the condition the specification says.
  No other zone changes.  The arrays and counters of open and active zones agree with the new
  conditions, unless the command opens a zone that the device had opened implicitly.\<close>

theorem zone_mgmt_refines:
  assumes "zm_ok m" "0 \<le> zid" "zid < nr_zones m"
    "op_is_zone_mgmt rq \<Longrightarrow>
       xcpfs_blkdev_zone_mgmt bd rq (zi_start (zone_info m ! nat zid)) (zone_size m) = Some dev"
  shows "\<exists>r m'. xcpfs_zone_mgmt bd m zid rq = Some (r, m') \<and>
    (r, conds m') = spec_zone_mgmt (max_open_zones m) (max_active_zones m) dev (conds m) (nat zid) rq \<and>
    (\<forall>k < length (zone_info m). k \<noteq> nat zid \<longrightarrow> zone_info m' ! k = zone_info m ! k) \<and>
    (rq = REQ_OP_ZONE_OPEN \<and> zi_cond (zone_info m ! nat zid) = COND_IMP_OPEN \<or> zm_ok m')"
proof -
  have k: "nat zid < length (zone_info m)"
    using assms by (simp add: zm_ok_def table_ok_def)
  then have at: "zone_at m zid = Some (zone_info m ! nat zid)"
    using assms by (simp add: zone_at_def)
  note simps = xcpfs_zone_mgmt_def at conds_nth [OF k] Let_def k conds_zone_upd
    counters_exact [OF assms(1), THEN conjunct1] counters_exact [OF assms(1), THEN conjunct2]
  have "\<exists>r m'. xcpfs_zone_mgmt bd m zid rq = Some (r, m') \<and>
    (r, conds m') = spec_zone_mgmt (max_open_zones m) (max_active_zones m) dev (conds m) (nat zid) rq \<and>
    (\<forall>k < length (zone_info m). k \<noteq> nat zid \<longrightarrow> zone_info m' ! k = zone_info m ! k)"
    using assms(4)
    by (cases rq) (simp_all add: simps xcpfs_zone_open_def xcpfs_zone_close_def
        xcpfs_zone_finish_def xcpfs_zone_reset_def zone_info_upd)
  then show ?thesis using zm_ok_zone_mgmt [OF assms(1)] by blast
qed

theorem zone_mgmt_refines_witness:
  "\<exists>r m'. xcpfs_zone_mgmt sample_bd sample_zm 3 REQ_OP_ZONE_OPEN = Some (r, m') \<and>
    (r, conds m') = (0, [COND_EXP_OPEN, COND_EMPTY, COND_EXP_OPEN, COND_EXP_OPEN]) \<and> zm_ok m'"
proof -
  have "spec_zone_mgmt (max_open_zones sample_zm) (max_active_zones sample_zm) 0 (conds sample_zm) (nat 3)
      REQ_OP_ZONE_OPEN = (0, [COND_EXP_OPEN, COND_EMPTY, COND_EXP_OPEN, COND_EXP_OPEN])"
    by (simp add: conds_def sample_zm_def sample_zone_def n_with_def)
  moreover have "xcpfs_blkdev_zone_mgmt sample_bd REQ_OP_ZONE_OPEN
      (zi_start (zone_info sample_zm ! nat 3)) (zone_size sample_zm) = Some 0"
    using sample_dev [of REQ_OP_ZONE_OPEN 384] by (simp add: sample_zm_def sample_zone_def)
  moreover have "3 < nr_zones sample_zm" "zi_cond (zone_info sample_zm ! nat 3) \<noteq> COND_IMP_OPEN"
    by (simp_all add: sample_zm_def sample_zone_def)
  ultimately show ?thesis
    using zone_mgmt_refines [OF sample_zm_ok, of 3 REQ_OP_ZONE_OPEN sample_bd 0] by auto
qed

text \<open>C12: From a zone table that keeps the invariant, through any sequence of zone commands and of blocks
  becoming valid or invalid in which no command opens a zone that the device has opened
  implicitly, the tables agree with the zone conditions, and no more zones are open or active
  than the device allows.\<close>

theorem zone_limits_never_exceeded:
  assumes "(zm_step bd)\<^sup>*\<^sup>* m m'" "zm_ok m"
  shows "zm_ok m' \<and> n_with cond_open (conds m') \<le> max_open_zones m \<and>
    n_with cond_active (conds m') \<le> max_active_zones m"
proof -
  have ok: "zm_ok m'" using zm_run_ok assms by blast
  have "n_with cond_open (conds m') \<le> max_open_zones m'" "n_with cond_active (conds m') \<le> max_active_zones m'"
    using ok counters_exact [OF ok] tracks_le [of "zone_opened m'"] tracks_le [of "zone_active m'"]
    unfolding zm_ok_def by fastforce+
  with ok zm_run_limits [OF assms(1)] show ?thesis by simp
qed

theorem zone_limits_never_exceeded_witness:
  "\<exists>m'. (zm_step sample_bd)\<^sup>*\<^sup>* sample_zm m' \<and> n_with cond_open (conds m') = 3 \<and>
    zm_ok m' \<and> n_with cond_open (conds m') \<le> max_open_zones sample_zm"
proof -
  let ?m1 = "snd (insert_zone_active (snd (insert_zone_opened sample_zm 3)) 3)"
  let ?m = "zone_upd 3 (\<lambda>z. z\<lparr>zi_cond := COND_EXP_OPEN, zi_dirty := True\<rparr>) ?m1"
  have dev: "xcpfs_blkdev_zone_mgmt sample_bd REQ_OP_ZONE_OPEN 384 128 = Some 0"
    by (simp add: sample_dev)
  have "xcpfs_zone_mgmt sample_bd sample_zm 3 REQ_OP_ZONE_OPEN = Some (0, ?m)"
    using dev by (simp add: xcpfs_zone_mgmt_def xcpfs_zone_open_def zone_at_def sample_zm_def sample_zone_def)
  then have "zm_step sample_bd sample_zm ?m"
    by (rule zm_step.command) (simp add: sample_zm_def sample_zone_def)
  then have run: "(zm_step sample_bd)\<^sup>*\<^sup>* sample_zm ?m" by blast
  have n: "n_with cond_open (conds ?m) = 3"
    by (simp add: conds_zone_upd sample_zm_def) (simp add: conds_def sample_zone_def n_with_def)
  from run n zone_limits_never_exceeded [OF run sample_zm_ok] show ?thesis by blast
qed

text \<open>C40: A zone command that fails, whatever the reason, leaves the zone table unchanged.\<close>

theorem zone_mgmt_failure_unchanged:
  assumes "xcpfs_zone_mgmt bd m zid rq = Some (r, m')" "r \<noteq> 0"
  shows "m' = m"
  using assms
  by (cases rq) (auto simp: xcpfs_zone_mgmt_def xcpfs_zone_open_def xcpfs_zone_close_def
      xcpfs_zone_finish_def xcpfs_zone_reset_def Let_def split: if_split_asm bind_splits)

theorem zone_mgmt_failure_unchanged_witness:
  "\<exists>m'. xcpfs_zone_mgmt sample_bd sample_zm 1 REQ_OP_ZONE_CLOSE = Some (- EZONE, m') \<and> m' = sample_zm"
proof -
  have "xcpfs_zone_mgmt sample_bd sample_zm 1 REQ_OP_ZONE_CLOSE = Some (- EZONE, sample_zm)"
    by (simp add: xcpfs_zone_mgmt_def xcpfs_zone_close_def zone_at_def sample_zm_def sample_zone_def)
  with zone_mgmt_failure_unchanged [OF this] show ?thesis by simp
qed

text \<open>C37: With the zone table's invariant, making a block valid succeeds on every address of a
  device with zones of at most 2048 blocks, the bits of a bitmap, and keeps the invariant; it sets exactly that
  block's bit, counts it, and moves the write pointer to the end of the block, computed in
  \<open>int\<close>, if it was behind.  If the write pointer then is the end of the zone's capacity the zone
  becomes full and leaves the open and the active zones, otherwise its condition and both sets
  stay as they were.  No other zone changes.\<close>

theorem validate_blkaddr_effect:
  assumes "zm_ok m" "block_addr_ok m b"
  shows "\<exists>m' zi'. validate_blkaddr m b = Some m' \<and> zm_ok m' \<and>
    zone_info m' = (zone_info m)[block_zone m b := zi'] \<and>
    (\<forall>c. block_addr_ok m c \<longrightarrow> block_valid m' c = (c = b \<or> block_valid m c)) \<and>
    zi_vblocks zi' = zi_vblocks (zone_info m ! block_zone m b) + 1 \<and>
    zi_start zi' = zi_start (zone_info m ! block_zone m b) \<and>
    zi_wp zi' = max (zi_wp (zone_info m ! block_zone m b)) (word_of_int (int_wrap ((b + 1) * 8))) \<and>
    (if zi_wp zi' = zone_capacity m + zi_start zi'
     then zi_cond zi' = COND_FULL \<and>
       slot_set (zone_opened m') = slot_set (zone_opened m) - {block_zone m b} \<and>
       slot_set (zone_active m') = slot_set (zone_active m) - {block_zone m b}
     else zi_cond zi' = zi_cond (zone_info m ! block_zone m b) \<and>
       slot_set (zone_opened m') = slot_set (zone_opened m) \<and> slot_set (zone_active m') = slot_set (zone_active m))"
proof -
  let ?k = "block_zone m b"
  have t: "table_ok m" using assms(1) by (simp add: zm_ok_def)
  from validate_zone_info [OF assms(2) t] obtain m' where m': "validate_blkaddr m b = Some m'"
    "zone_info m' = (zone_info m)[?k := validated m b (zone_info m ! ?k)]"
    by blast
  have ok: "zm_ok m'" using zm_ok_validate [OF assms(1) m'(1)] .
  have k: "?k < length (zone_info m)" using block_addr_okD(5) [OF assms(2) t] .
  have upd: "zones_with C m' = (if C (zi_cond (validated m b (zone_info m ! ?k))) then insert ?k (zones_with C m)
      else zones_with C m - {?k})" for C
    using m'(2) k by (auto simp: zones_with_def nth_list_update split: if_splits)
  have sets: "slot_set (zone_opened m') = zones_with cond_open m'" "slot_set (zone_active m') = zones_with cond_active m'"
    "slot_set (zone_opened m) = zones_with cond_open m" "slot_set (zone_active m) = zones_with cond_active m"
    using ok assms(1) by (simp_all add: zm_ok_def tracks_def)
  have same: "(if C (zi_cond (zone_info m ! ?k)) then insert ?k (zones_with C m) else zones_with C m - {?k}) = zones_with C m" for C
    using k by (auto simp: zones_with_def)
  show ?thesis
    using m' ok block_valid_validate [OF assms(2) t m'(1)] upd [of cond_open] upd [of cond_active]
      same [of cond_open] same [of cond_active]
    by (intro exI [of _ m'] exI [of _ "validated m b (zone_info m ! ?k)"]) (simp add: sets validated_def Let_def)
qed

lemma sample_block_ok: "b \<in> {0..63} \<Longrightarrow> block_addr_ok sample_zm b"
proof -
  have B: "blocks_per_zone sample_zm = 16"
    by (simp add: blocks_per_zone_def zone_blocks_def sample_zm_def PAGE_SECTORS_SHIFT_def)
  assume "b \<in> {0..63}"
  then show ?thesis
    unfolding block_addr_ok_def B by (simp add: int32_def valid_map_bits_def ZONE_VALID_MAP_SIZE_def sample_zm_def)
      presburger
qed

theorem validate_blkaddr_effect_witness:
  "\<exists>m'. validate_blkaddr sample_zm 33 = Some m' \<and> block_valid m' 33 \<and> \<not> block_valid m' 34"
proof -
  have "\<not> block_valid sample_zm 34"
    by (simp add: block_valid_def block_zone_def blocks_per_zone_def zone_blocks_def sample_zm_def
        sample_zone_def PAGE_SECTORS_SHIFT_def bm_test_def zero_bytes_def)
  with validate_blkaddr_effect [OF sample_zm_ok, of 33] sample_block_ok [of 33] sample_block_ok [of 34]
  show ?thesis by fastforce
qed

text \<open>C38: With the zone table's invariant, invalidating a block of the device succeeds, clears exactly that block's bit, counts the block
  down, and keeps the invariant and the condition of every zone.  A block that was not valid, made
  valid and then invalidated, leaves every validity bit of the device as it was before, and the
  count of valid blocks of its zone too.\<close>

theorem invalidate_undoes_validate:
  assumes "zm_ok m" "block_addr_ok m b"
  shows "(\<exists>m'. invalidate_blkaddr m b = Some m' \<and> zm_ok m' \<and> conds m' = conds m \<and>
      (\<forall>c. block_addr_ok m c \<longrightarrow> block_valid m' c = (c \<noteq> b \<and> block_valid m c)) \<and>
      zi_vblocks (zone_info m' ! block_zone m b) = zi_vblocks (zone_info m ! block_zone m b) - 1) \<and>
    (block_valid m b \<or>
     (\<exists>m1 m2. validate_blkaddr m b = Some m1 \<and> invalidate_blkaddr m1 b = Some m2 \<and> zm_ok m2 \<and>
       (\<forall>c. block_addr_ok m c \<longrightarrow> block_valid m2 c = block_valid m c) \<and>
       zi_vblocks (zone_info m2 ! block_zone m b) = zi_vblocks (zone_info m ! block_zone m b)))"
proof -
  have t: "table_ok m" using assms(1) by (simp add: zm_ok_def)
  from validate_zone_info [OF assms(2) t] obtain m1 where m1: "validate_blkaddr m b = Some m1"
    "zone_size m1 = zone_size m" "nr_zones m1 = nr_zones m"
    "zone_info m1 = (zone_info m)[block_zone m b := validated m b (zone_info m ! block_zone m b)]"
    by blast
  have ok1: "zm_ok m1" using zm_ok_validate [OF assms(1) m1(1)] .
  then have t1: "table_ok m1" by (simp add: zm_ok_def)
  have a1: "block_addr_ok m1 c = block_addr_ok m c" for c
    using m1 by (simp add: block_addr_ok_def same_size [OF m1(2)])
  from invalidate_zone_info [OF _ t1, of b] a1 assms(2) obtain m2 where m2:
    "invalidate_blkaddr m1 b = Some m2"
    "zone_info m2 = (zone_info m1)[block_zone m1 b := (zone_info m1 ! block_zone m1 b)
      \<lparr>zi_valid_map := bm_clear (zi_valid_map (zone_info m1 ! block_zone m1 b)) (nat (b mod blocks_per_zone m1)),
       zi_vblocks := zi_vblocks (zone_info m1 ! block_zone m1 b) - 1, zi_dirty := True\<rparr>]"
    by blast
  have "block_valid m2 c = block_valid m c" if "block_addr_ok m c" "\<not> block_valid m b" for c
    using block_valid_validate [OF assms(2) t m1(1) that(1)] that(2)
      block_valid_invalidate [OF _ t1 m2(1), of c] a1 that(1) assms(2) by auto
  moreover have "zi_vblocks (zone_info m2 ! block_zone m b) = zi_vblocks (zone_info m ! block_zone m b)"
    using m1(4) m2(2) block_addr_okD(5) [OF assms(2) t] same_size [OF m1(2)]
    by (simp add: validated_def Let_def)
  ultimately have undone: "\<not> block_valid m b \<Longrightarrow> \<exists>m1 m2. validate_blkaddr m b = Some m1 \<and> invalidate_blkaddr m1 b = Some m2 \<and> zm_ok m2 \<and>
      (\<forall>c. block_addr_ok m c \<longrightarrow> block_valid m2 c = block_valid m c) \<and>
      zi_vblocks (zone_info m2 ! block_zone m b) = zi_vblocks (zone_info m ! block_zone m b)"
    using m1(1) m2(1) zm_ok_invalidate [OF ok1 m2(1)] by blast
  obtain m' where m': "invalidate_blkaddr m b = Some m'"
    "zone_info m' = (zone_info m)[block_zone m b := (zone_info m ! block_zone m b)
      \<lparr>zi_valid_map := bm_clear (zi_valid_map (zone_info m ! block_zone m b)) (nat (b mod blocks_per_zone m)),
       zi_vblocks := zi_vblocks (zone_info m ! block_zone m b) - 1, zi_dirty := True\<rparr>]"
    using invalidate_zone_info [OF assms(2) t] by blast
  then have "conds m' = conds m" "zi_vblocks (zone_info m' ! block_zone m b) = zi_vblocks (zone_info m ! block_zone m b) - 1"
    using block_addr_okD(5) [OF assms(2) t] by (simp_all add: conds_def map_update list_update_same_conv)
  then show ?thesis
    using undone m'(1) zm_ok_invalidate [OF assms(1) m'(1)] block_valid_invalidate [OF assms(2) t m'(1)] by blast
qed

theorem invalidate_undoes_validate_witness:
  "\<not> block_valid sample_zm 20 \<and>
   (\<exists>m1 m2. validate_blkaddr sample_zm 20 = Some m1 \<and> invalidate_blkaddr m1 20 = Some m2 \<and> \<not> block_valid m2 20)"
proof -
  have n: "\<not> block_valid sample_zm 20"
    by (simp add: block_valid_def block_zone_def blocks_per_zone_def zone_blocks_def sample_zm_def
        sample_zone_def PAGE_SECTORS_SHIFT_def bm_test_def zero_bytes_def)
  with invalidate_undoes_validate [OF sample_zm_ok, of 20] sample_block_ok [of 20] show ?thesis
    by fastforce
qed

text \<open>C39: The count of valid blocks of a zone stays the number of set bits as long as only blocks that
  are not valid are made valid and only valid blocks are invalidated.\<close>

theorem vblocks_counts_valid_blocks:
  assumes "zm_ok m" "block_addr_ok m b" "\<forall>zi \<in> set (zone_info m). vblocks_ok zi"
  shows "(\<not> block_valid m b \<longrightarrow> (\<exists>m'. validate_blkaddr m b = Some m' \<and> (\<forall>zi \<in> set (zone_info m'). vblocks_ok zi))) \<and>
    (block_valid m b \<longrightarrow> (\<exists>m'. invalidate_blkaddr m b = Some m' \<and> (\<forall>zi \<in> set (zone_info m'). vblocks_ok zi)))"
proof -
  have t: "table_ok m" using assms(1) by (simp add: zm_ok_def)
  let ?k = "block_zone m b" and ?i = "nat (b mod blocks_per_zone m)"
  have k: "?k < length (zone_info m)" and i: "?i < valid_map_bits"
    using block_addr_okD [OF assms(2) t] by simp_all
  have v: "vblocks_ok (zone_info m ! ?k)" using assms(3) k by simp
  have upd: "\<forall>zi \<in> set ((zone_info m)[?k := z]). vblocks_ok zi" if "vblocks_ok z" for z
    using that assms(3) set_update_subset_insert [of "zone_info m" ?k z] by blast
  from validate_zone_info [OF assms(2) t] obtain m1 where m1: "validate_blkaddr m b = Some m1"
    "zone_info m1 = (zone_info m)[?k := validated m b (zone_info m ! ?k)]" by blast
  from invalidate_zone_info [OF assms(2) t] obtain m2 where m2: "invalidate_blkaddr m b = Some m2"
    "zone_info m2 = (zone_info m)[?k := (zone_info m ! ?k)
      \<lparr>zi_valid_map := bm_clear (zi_valid_map (zone_info m ! ?k)) ?i,
       zi_vblocks := zi_vblocks (zone_info m ! ?k) - 1, zi_dirty := True\<rparr>]" by blast
  have "\<not> block_valid m b \<Longrightarrow> vblocks_ok (validated m b (zone_info m ! ?k))"
    by (rule vblocks_ok_set [OF v i]) (simp_all add: block_valid_def validated_def Let_def)
  moreover have "block_valid m b \<Longrightarrow> vblocks_ok ((zone_info m ! ?k)
      \<lparr>zi_valid_map := bm_clear (zi_valid_map (zone_info m ! ?k)) ?i,
       zi_vblocks := zi_vblocks (zone_info m ! ?k) - 1, zi_dirty := True\<rparr>)"
    by (rule vblocks_ok_clear [OF v i]) (simp_all add: block_valid_def)
  ultimately show ?thesis
    using m1 m2 upd by metis
qed

theorem vblocks_counts_valid_blocks_witness:
  "\<exists>m'. validate_blkaddr sample_zm 5 = Some m' \<and> (\<forall>zi \<in> set (zone_info m'). vblocks_ok zi)"
proof -
  have v: "\<forall>zi \<in> set (zone_info sample_zm). vblocks_ok zi"
    by (simp add: sample_zm_def sample_zone_def vblocks_ok_def bm_test_def zero_bytes_def)
  have n: "\<not> block_valid sample_zm 5"
    by (simp add: block_valid_def block_zone_def blocks_per_zone_def zone_blocks_def sample_zm_def
        sample_zone_def PAGE_SECTORS_SHIFT_def bm_test_def zero_bytes_def)
  from vblocks_counts_valid_blocks [OF sample_zm_ok _ v, of 5] n sample_block_ok [of 5] show ?thesis
    by simp
qed


text \<open>A file system around a zone table.\<close>

definition fs_with_zm :: "xcpfs_zm_info \<Rightarrow> fs" where
  "fs_with_zm m = \<lparr>fs_root_ino = 3, fs_meta_ino = 1, fs_node_ino = 2, nat_page_count = 1,
     zit_page_count = 1, ssa_page_count = 1, zm = m,
     nm = \<lparr>cached_nat_count = 0, nat_list = [], free_nat = [], cp_nat = []\<rparr>,
     cp_sem = init_xpcfs_rwsem, cp_phase = 0, cpc = None, cache = (\<lambda>_. None), inodes = (\<lambda>_. None),
     disk = (\<lambda>_. zero_bytes), bios = []\<rparr>"

lemma fs_with_zm_simps [simp]:
  "zm (fs_with_zm m) = m" "cpc (fs_with_zm m) = None" "\<not> xcpfs_rwsem_is_locked (cp_sem (fs_with_zm m))"
  by (simp_all add: fs_with_zm_def init_xpcfs_rwsem_def xcpfs_rwsem_is_locked_def)

lemma sample_zone0_ok: "zone0_ok sample_zm"
  using sample_zm_ok by (simp add: zone0_ok_def) (simp add: sample_zm_def sample_zone_def)



text \<open>C35: Suppose an open and an active slot are free, the first empty zone from zone 2 on exists and its fill
  level is below \<open>LONG_MAX\<close>, the device carries the command out, the zone table keeps its invariant,
  zone 0 is not implicitly open, and the type has its place in the arrays of counts and limits.
  Then \<open>get_zone\<close> returns a zone as long as the checkpoint semaphore is free or a checkpoint
  context exists.  With the semaphore held and no context, a type below its limit makes the search
  open a zone and crash on the NULL context.\<close>

theorem get_zone_returns:
  assumes "zone0_ok (zm s)" "can_open bd s"
    "unat (type_code ty) < length (nr_type (zm s))" "unat (type_code ty) < length (limit_type (zm s))"
  shows "((xcpfs_rwsem_is_locked (cp_sem s) \<longrightarrow> cpc s \<noteq> None) \<longrightarrow> (\<exists>zid s'. get_zone bd ty s = Some (zid, s'))) \<and>
    (xcpfs_rwsem_is_locked (cp_sem s) \<and> cpc s = None \<and>
      nr_type (zm s) ! unat (type_code ty) < limit_type (zm s) ! unat (type_code ty) \<longrightarrow> get_zone bd ty s = None)"
  using get_zone_returns_lemma [OF assms(1,2) _ assms(3,4)] get_zone_null_restart [OF assms(1,2)]
  by (auto simp: restart_ok_def)

theorem get_zone_returns_witness:
  "can_open sample_bd (fs_with_zm sample_zm) \<and>
   (\<exists>zid s'. get_zone sample_bd REG_NODE (fs_with_zm sample_zm) = Some (zid, s'))"
proof -
  have "xcpfs_blkdev_zone_mgmt sample_bd REQ_OP_ZONE_OPEN 384 128 = Some 0"
    by (simp add: sample_dev)
  then have co: "can_open sample_bd (fs_with_zm sample_zm)"
    by (simp add: can_open_def Let_def get_empty_zone_def sample_zm_def sample_zone_def LONG_MAX_def)
  with get_zone_returns [of "fs_with_zm sample_zm" sample_bd REG_NODE] sample_zone0_ok show ?thesis
    by (simp add: sample_zm_def)
qed

text \<open>C36: When every open slot is taken and no open zone has the requested type, the \<open>goto retry\<close> of
  \<open>get_zone\<close> never ends: the search has no result at all.\<close>

theorem get_zone_hangs:
  assumes "no_zone_for ty (zm s)"
  shows "get_zone bd ty s = None"
  by (rule get_zone_stuck [OF assms])

theorem get_zone_hangs_witness:
  "get_zone sample_bd REG_NODE (fs_with_zm (sample_zm\<lparr>max_open_zones := 2, zone_opened := [Some 0, Some 2]\<rparr>)) = None"
  by (rule get_zone_hangs) (simp add: no_zone_for_def sample_zm_def sample_zone_def)

subsection \<open>What the search for a zone leaves alone\<close>

definition same_maps :: "xcpfs_zm_info \<Rightarrow> xcpfs_zm_info \<Rightarrow> bool" where
  "same_maps m m' \<longleftrightarrow> zone_size m' = zone_size m \<and> nr_zones m' = nr_zones m \<and>
     map zi_valid_map (zone_info m') = map zi_valid_map (zone_info m) \<and>
     map zi_vblocks (zone_info m') = map zi_vblocks (zone_info m) \<and>
     map zi_start (zone_info m') = map zi_start (zone_info m)"

lemma same_maps_refl [simp, intro]: "same_maps m m"
  by (simp add: same_maps_def)



lemma same_maps_lists [simp]:
  "same_maps m (zone_upd zid f (snd (insert_zone_opened m' k))) = same_maps m (zone_upd zid f m')"
  "same_maps m (zone_upd zid f (snd (insert_zone_active m' k))) = same_maps m (zone_upd zid f m')"
  by (simp_all add: same_maps_def zone_upd_def)


lemma same_maps_nr_type [simp]: "same_maps m (m'\<lparr>nr_type := x\<rparr>) = same_maps m m'"
  by (simp add: same_maps_def)








section \<open>Where the zone manager departs from its intention\<close>

text \<open>
  The scan for the zone with the least data compares the offset inside a zone with the absolute
  position it stored for the previous candidate, so a fuller zone behind replaces an emptier one.
\<close>

definition two_data_zones :: xcpfs_zm_info where
  "two_data_zones = sample_zm\<lparr>zone_info := [sample_zone 0 COND_EXP_OPEN 0 8, sample_zone 1 COND_EMPTY 0 0,
     sample_zone 2 COND_EXP_OPEN 4 8, sample_zone 3 COND_EXP_OPEN 4 120],
     zone_opened := [Some 0, Some 2, Some 3], zone_opened_count := 3\<rparr>"

lemma scan_prefers_fuller_zone:
  "scan_opened two_data_zones 4 (zone_opened two_data_zones) (LONG_MAX, None) = Some (504, Some 3) \<and>
   zi_wp (zone_info two_data_zones ! 3) - zi_start (zone_info two_data_zones ! 3) = 120 \<and>
   zi_wp (zone_info two_data_zones ! 2) - zi_start (zone_info two_data_zones ! 2) = 8"
  by (simp add: two_data_zones_def sample_zm_def sample_zone_def zone_at_def LONG_MAX_def)

text \<open>A first write has no old block, address 0, and still takes one valid block off zone 0.\<close>

lemma first_write_decrements_zone0:
  "map_option (\<lambda>m. zi_vblocks (zone_info m ! 0)) (invalidate_blkaddr sample_zm 0) = Some (-1)"
  by (simp add: invalidate_blkaddr_def blk2zone_def blk2idx_def zone_blocks_def sample_zm_def
      PAGE_SECTORS_SHIFT_def udiv_def umod_def to_int_def zone_at_def bit_index_def valid_map_bits_def
      ZONE_VALID_MAP_SIZE_def zone_upd_def sample_zone_def)

text \<open>
  \<open>xcpfs_zone_reset\<close> sets the write pointer to 0 instead of the start of the zone, so the unsigned
  offset of an empty zone wraps around and the zone can never be chosen.
\<close>

lemma reset_zone_never_chosen:
  "\<not> zi_wp zi + zi_write_inflight zi - zi_start zi < LONG_MAX"
  if "zi_wp zi = 0" "zi_write_inflight zi = 0" "zi_start zi = 128"
  using that by (simp add: LONG_MAX_def)

text \<open>Opening a zone the device had opened implicitly registers it a second time.\<close>

lemma open_implicitly_open_zone_twice:
  "xcpfs_zone_open sample_bd (sample_zm\<lparr>zone_info := (zone_info sample_zm)
      [2 := sample_zone 2 COND_IMP_OPEN 4 8]\<rparr>) 2 = Some (r, m') \<Longrightarrow>
    zone_opened m' = [Some 0, Some 2, Some 2]"
proof -
  have "xcpfs_blkdev_zone_mgmt sample_bd REQ_OP_ZONE_OPEN 256 128 = Some 0"
    by (simp add: sample_dev)
  then show "xcpfs_zone_open sample_bd (sample_zm\<lparr>zone_info := (zone_info sample_zm)
      [2 := sample_zone 2 COND_IMP_OPEN 4 8]\<rparr>) 2 = Some (r, m') \<Longrightarrow>
    zone_opened m' = [Some 0, Some 2, Some 2]"
    by (auto simp: xcpfs_zone_open_def zone_at_def sample_zm_def sample_zone_def Let_def
        insert_zone_opened_def)
qed

end
