(* ===== verification/Page_Props.thy ===== *)
theory Page_Props
  imports Reader Zone_Alloc
begin

text \<open>
  What reading and writing pages achieves: with the node pages in memory, preparing a data page
  yields the block the node tree addresses, and a page written back is read back unchanged.
\<close>

section \<open>The node tree in memory\<close>

text \<open>A page that can be used at once: resident, up to date, and not held by a pending write.\<close>

definition resident :: "fs \<Rightarrow> pkey \<Rightarrow> bool" where
  "resident s k \<longleftrightarrow> \<not> page_locked s k \<and> (case cache s k of Some p \<Rightarrow> pg_uptodate p | None \<Rightarrow> False)"

text \<open>
  The slot of a block, found along resident node pages: the node page that holds it, and the
  block address in it.
\<close>

primrec follow :: "fs \<Rightarrow> int \<Rightarrow> int list \<Rightarrow> nat \<Rightarrow> int \<Rightarrow> (pkey \<times> u32) option" where
  "follow s len offset 0 nid = None"
| "follow s len offset (Suc n) nid =
     (let i = 3 - int n; k = (fs_node_ino s, nid) in
      if \<not> resident s k then None
      else do {
        pg \<leftarrow> cache s k;
        if i = len then map_option (Pair k) (slot_addr i (pg_data pg) (offset ! nat i))
        else do {
          c \<leftarrow> child_nid i (pg_data pg) (offset ! nat i);
          if c = 0 then None else follow s len offset n (sint c)
        }
      })"

definition block_slot :: "fs \<Rightarrow> pkey \<Rightarrow> (pkey \<times> u32) option" where
  "block_slot s k = (case get_path (snd k) of (len, offset) \<Rightarrow> follow s len offset 4 (fst k))"

text \<open>Preparing a resident page changes nothing, at any depth.\<close>

lemma prepare_resident:
  assumes "resident s (i, x)"
  shows "prepare_page bd (Suc n) s i x w c = Some (Inr (i, x), s)"
  using assms
  by (auto simp: prepare_page_Suc prepare_page_locked_def grab_page_def resident_def Let_def split: option.splits)

lemma dnode_walk_resident:
  "follow s len offset m nid = Some (dk, a) \<Longrightarrow>
    dnode_walk (prepare_page bd (Suc n)) ino len offset c m nid s = Some ((Inr dk, a = 0), s) \<and>
    resident s dk \<and> fst dk = fs_node_ino s \<and>
    (\<exists>p. cache s dk = Some p \<and> slot_addr len (pg_data p) (offset ! nat len) = Some a)"
proof (induction m arbitrary: nid)
  case (Suc m)
  let ?k = "(fs_node_ino s, nid)" and ?i = "3 - int m"
  from Suc.prems have r: "resident s ?k" by (auto simp: Let_def split: if_splits)
  then obtain p where p: "cache s ?k = Some p" by (auto simp: resident_def split: option.splits)
  have g: "get_node_page (prepare_page bd (Suc n)) s nid c = Some (Inr ?k, s)"
    unfolding get_node_page_def by (rule prepare_resident [OF r])
  show ?case
  proof (cases "?i = len")
    case True
    then show ?thesis using Suc.prems r p g by (auto simp: Let_def)
  next
    case False
    with Suc.prems r p obtain ch where ch: "child_nid ?i (pg_data p) (offset ! nat ?i) = Some ch" "ch \<noteq> 0"
      "follow s len offset m (sint ch) = Some (dk, a)"
      by (auto simp: Let_def bind_eq_Some_conv split: if_splits)
    then show ?thesis using Suc.IH [OF ch(3)] False p g by (simp add: Let_def)
  qed
qed simp

lemma get_dnode_resident:
  assumes "block_slot s k = Some (dk, a)"
  shows "get_dnode_page (prepare_page bd (Suc n)) s k c = Some ((Inr dk, a = 0), s)"
    "resident s dk" "fst dk = fs_node_ino s"
    "\<exists>p. cache s dk = Some p \<and> (case get_path (snd k) of (len, offset) \<Rightarrow>
      slot_addr len (pg_data p) (offset ! nat len) = Some a)"
proof -
  obtain len offset where path: "get_path (snd k) = (len, offset)" by fastforce
  then have "follow s len offset 4 (fst k) = Some (dk, a)" using assms by (simp add: block_slot_def)
  from dnode_walk_resident [OF this, of bd n "fst k" c]
  show "get_dnode_page (prepare_page bd (Suc n)) s k c = Some ((Inr dk, a = 0), s)"
    "resident s dk" "fst dk = fs_node_ino s"
    "\<exists>p. cache s dk = Some p \<and> (case get_path (snd k) of (len, offset) \<Rightarrow>
      slot_addr len (pg_data p) (offset ! nat len) = Some a)"
    by (simp_all add: get_dnode_page_def path)
qed

text \<open>The slot depends on the node pages and the pending writes only.\<close>

lemma resident_cong:
  "cache s' k = cache s k \<Longrightarrow> bios s' = bios s \<Longrightarrow> resident s' k = resident s k"
  by (simp add: resident_def page_locked_def)

lemma follow_cong:
  assumes "fs_node_ino s' = fs_node_ino s" "bios s' = bios s"
    "\<And>k. fst k = fs_node_ino s \<Longrightarrow> cache s' k = cache s k"
  shows "follow s' len offset m nid = follow s len offset m nid"
proof (induction m arbitrary: nid)
  case (Suc m)
  have "cache s' (fs_node_ino s, nid) = cache s (fs_node_ino s, nid)" using assms(3) by simp
  moreover from this have "resident s' (fs_node_ino s, nid) = resident s (fs_node_ino s, nid)"
    using assms(2) by (rule resident_cong)
  ultimately show ?case by (simp add: Let_def assms(1) Suc cong: if_cong)
qed simp

lemma block_slot_cong:
  assumes "fs_node_ino s' = fs_node_ino s" "bios s' = bios s"
    "\<And>k. fst k = fs_node_ino s \<Longrightarrow> cache s' k = cache s k"
  shows "block_slot s' k = block_slot s k"
  using follow_cong [OF assms] by (simp add: block_slot_def split: prod.split)

section \<open>Reading a data page\<close>

definition load_page :: "fs \<Rightarrow> pkey \<Rightarrow> bytes \<Rightarrow> fs" where
  "load_page s k d = s\<lparr>cache := (cache s)(k \<mapsto> filled d (case cache s k of Some p \<Rightarrow> p | None \<Rightarrow> new_page))\<rparr>"

text \<open>Block addresses whose sector fits an \<open>int\<close>.\<close>

definition blkaddr_ok :: "int \<Rightarrow> bool" where
  "blkaddr_ok b \<longleftrightarrow> 0 \<le> b \<and> b < 2 ^ 28"

lemma bio_block_ok:
  assumes "blkaddr_ok (xio_new_blkaddr xio)"
  shows "bio_block xio = xio_new_blkaddr xio"
proof -
  have "int_wrap (xio_new_blkaddr xio * 8) = xio_new_blkaddr xio * 8"
    using assms by (intro int_wrap_id) (simp add: int32_def blkaddr_ok_def)
  then show ?thesis by (simp add: bio_block_def PAGE_SECTORS_SHIFT_def)
qed

definition data_ino :: "fs \<Rightarrow> int \<Rightarrow> bool" where
  "data_ino s ino \<longleftrightarrow> ino \<noteq> 2 \<and> ino \<noteq> fs_node_ino s \<and> inodes s ino \<noteq> None"

lemma data_page_type: "data_ino s ino \<Longrightarrow> get_page_type s ino x \<noteq> META_NODE \<and> get_page_type s ino x \<noteq> REG_NODE"
  by (simp add: get_page_type_def data_ino_def)

lemma iget_cached: "inodes s ino \<noteq> None \<Longrightarrow> xcpfs_iget pp s ino = Some (Inr ino, s)"
  by (simp add: xcpfs_iget_def)

lemma read_disk_resident:
  assumes "block_slot s k = Some (dk, a)" "data_ino s (fst k)" "blkaddr_ok (sint a)"
  shows "read_disk bd (prepare_page bd (Suc n)) s k = Some (0, upd_page k (filled (disk s (sint a))) s)"
proof -
  note d = get_dnode_resident [OF assms(1)]
  obtain p where p: "cache s dk = Some p" "case get_path (snd k) of (len, offset) \<Rightarrow>
      slot_addr len (pg_data p) (offset ! nat len) = Some a"
    using d(4) by (elim exE conjE) (rule that)
  obtain len offset where path: "get_path (snd k) = (len, offset)" by fastforce
  have "inodes s (fst k) \<noteq> None" using assms(2) by (simp add: data_ino_def)
  note ig = iget_cached [OF this]
  have slot: "slot_addr len (pg_data p) (offset ! nat len) = Some a" using p(2) path by simp
  note ty = data_page_type [OF assms(2), of "snd k"]
  define xio where "xio = alloc_xio\<lparr>xio_ino := fst k, xio_iblock := snd k, xio_op := REQ_OP_READ,
    xio_type := get_page_type s (fst k) (snd k), xio_page := Some k, xio_unlock := True\<rparr>"
  have x: "xio_ino xio = fst k" "xio_iblock xio = snd k" "xio_op xio = REQ_OP_READ" "xio_page xio = Some k"
    "xio_type xio = get_page_type s (fst k) (snd k)"
    by (simp_all add: xio_def)
  have "xcpfs_submit_xio bd (prepare_page bd (Suc n)) xio s = Some (0, upd_page k (filled (disk s (sint a))) s)"
    using ty assms(3)
    by (simp add: xcpfs_submit_xio_def submit_data_xio_def x ig d(1) p(1) path slot alloc_zone_def
        alloc_bio_def submit_read bio_block_ok)
  then show ?thesis by (simp add: read_disk_def xio_def)
qed

lemma prepare_data_page:
  assumes "block_slot s (ino, x) = Some (dk, a)" "data_ino s ino" "blkaddr_ok (sint a)"
    "\<not> page_locked s (ino, x)" "\<And>p. cache s (ino, x) = Some p \<Longrightarrow> \<not> pg_uptodate p"
  shows "prepare_page bd (Suc (Suc n)) s ino x w c =
    Some (Inr (ino, x), load_page s (ino, x) (if a = 0 then zero_bytes else disk s (sint a)))"
proof -
  let ?k = "(ino, x)"
  define s1 where "s1 = (case cache s ?k of Some _ \<Rightarrow> s | None \<Rightarrow> s\<lparr>cache := (cache s)(?k \<mapsto> new_page)\<rparr>)"
  obtain p where p: "cache s1 ?k = Some p" "\<not> pg_uptodate p" "p = (case cache s ?k of Some p \<Rightarrow> p | None \<Rightarrow> new_page)"
    using assms(5) by (cases "cache s ?k") (auto simp: s1_def new_page_def)
  have f: "fs_node_ino s1 = fs_node_ino s" "bios s1 = bios s" "inodes s1 = inodes s" "disk s1 = disk s"
    "j \<noteq> ?k \<Longrightarrow> cache s1 j = cache s j" for j
    by (auto simp: s1_def split: option.split)
  have ino: "data_ino s1 ino" using assms(2) f by (simp add: data_ino_def)
  have slot: "block_slot s1 ?k = Some (dk, a)"
    using block_slot_cong [of s1 s ?k] f assms(1,2) by (auto simp: data_ino_def)
  have g: "grab_page ?k s = Some s1" using assms(4) by (simp add: grab_page_def s1_def)
  have up: "upd_page ?k (filled d) s1 = load_page s ?k d" for d
    using p by (auto simp: upd_page_def load_page_def s1_def fun_eq_iff split: option.splits)
  have "do_prepare_page bd (prepare_page bd (Suc n)) s1 ?k c =
      Some (0, upd_page ?k (filled (if a = 0 then zero_bytes else disk s (sint a))) s1)"
    using p(1,2) ino get_dnode_resident(1) [OF slot, of bd n c]
      read_disk_resident [OF slot _ assms(3), of bd n] f(4)
    by (simp add: do_prepare_page_def data_ino_def filled_def [abs_def])
  then show ?thesis
    using g p(1,2) by (simp add: prepare_page_Suc [of bd "Suc n"] prepare_page_locked_def up Let_def)
qed

section \<open>Writing a data page back\<close>

text \<open>Choosing a zone touches the zone table and the checkpoint's restart flag only.\<close>

definition zone_frame :: "fs \<Rightarrow> fs \<Rightarrow> bool" where
  "zone_frame s s' \<longleftrightarrow> s' = s\<lparr>zm := zm s', cpc := cpc s'\<rparr>"

lemma zone_frame_fields:
  assumes "zone_frame s s'"
  shows "fs_meta_ino s' = fs_meta_ino s" "fs_node_ino s' = fs_node_ino s" "nm s' = nm s" "cp_sem s' = cp_sem s"
    "cp_phase s' = cp_phase s" "cache s' = cache s" "inodes s' = inodes s" "disk s' = disk s" "bios s' = bios s"
proof -
  obtain m c where "s' = s\<lparr>zm := m, cpc := c\<rparr>" using assms unfolding zone_frame_def by blast
  then show "fs_meta_ino s' = fs_meta_ino s" "fs_node_ino s' = fs_node_ino s" "nm s' = nm s" "cp_sem s' = cp_sem s"
    "cp_phase s' = cp_phase s" "cache s' = cache s" "inodes s' = inodes s" "disk s' = disk s" "bios s' = bios s"
    by simp_all
qed

lemma zone_frame_trans: "zone_frame s s' \<Longrightarrow> zone_frame s' s'' \<Longrightarrow> zone_frame s s''"
  unfolding zone_frame_def by (cases s, cases s', cases s'') simp

lemma zone_frame_open: "get_zone_open bd ty s = Some s' \<Longrightarrow> zone_frame s s'"
  by (auto simp: get_zone_open_def zone_frame_def Let_def bind_eq_Some_conv split: if_splits)

lemma zone_frame_retry:
  assumes "get_zone_retry bd ty g s = Some r"
  shows "zone_frame s (snd r)"
  using assms
proof (rule get_zone_retry.raw_induct [where P = "\<lambda>bd ty g s r. zone_frame s (snd r)", rotated])
  fix f and bd ty g s and r :: "int \<times> fs"
  assume IH: "\<And>bd ty g s r. f bd ty g s = Some r \<Longrightarrow> zone_frame s (snd r)"
    and eq: "scan_opened (zm s) (type_code ty) (zone_opened (zm s)) (g, None) \<bind>
      (\<lambda>r. case snd r of None \<Rightarrow> get_zone_open bd ty s \<bind> f bd ty (fst r)
        | Some k \<Rightarrow> Some (zi_zone_id (zone_info (zm s) ! k), s)) = Some r"
  obtain h t where scan: "scan_opened (zm s) (type_code ty) (zone_opened (zm s)) (g, None) = Some (h, t)"
    using eq by (auto simp: bind_eq_Some_conv)
  show "zone_frame s (snd r)"
  proof (cases t)
    case (Some k)
    with scan eq show ?thesis by (auto simp: zone_frame_def)
  next
    case None
    then obtain s' where "get_zone_open bd ty s = Some s'" "f bd ty h s' = Some r"
      using eq scan by (auto simp: bind_eq_Some_conv)
    then show ?thesis using IH zone_frame_open zone_frame_trans by blast
  qed
qed

lemma zone_frame_get_zone: "get_zone bd ty s = Some (z, s') \<Longrightarrow> zone_frame s s'"
  using zone_frame_retry [of bd ty] zone_frame_open [of bd ty] zone_frame_trans
  by (fastforce simp: get_zone_def Let_def bind_eq_Some_conv split: if_splits)

lemma alloc_zone_frame:
  assumes "alloc_zone bd xio s = Some (xio', s')"
  shows "zone_frame s s' \<and> xio' = xio\<lparr>xio_new_blkaddr := xio_new_blkaddr xio'\<rparr>"
proof (cases "xio_op xio = REQ_OP_READ")
  case True
  then show ?thesis using assms by (auto simp: alloc_zone_def zone_frame_def)
next
  case False
  with assms obtain z1 z2 full s1 m2 and zi :: xcpfs_zone_info where
    ch: "(if full \<or> z1 = 0 then get_zone bd (xio_type xio) s else Some (z1, s)) = Some (z2, s1)"
    and r: "s' = s1\<lparr>zm := m2\<rparr>" "xio' = xio\<lparr>xio_new_blkaddr := to_int (drop_bit PAGE_SECTORS_SHIFT (zi_start zi))\<rparr>"
    by (auto simp: alloc_zone_def bind_eq_Some_conv)
  have "zone_frame s s1"
    using ch zone_frame_get_zone by (auto simp: zone_frame_def split: if_splits)
  moreover have "zone_frame s1 s'" using r(1) by (simp add: zone_frame_def)
  ultimately show ?thesis using zone_frame_trans r(2) by auto
qed

lemma slot_addr_set:
  "set_slot_addr i d off v = Some d' \<Longrightarrow> slot_addr i d' off = Some v"
  by (auto simp: set_slot_addr_def slot_addr_def field_simps_disk split: if_splits)

lemma set_slot_addr_defined:
  "slot_addr i d off = Some a \<Longrightarrow> \<exists>d'. set_slot_addr i d off v = Some d'"
  by (auto simp: set_slot_addr_def slot_addr_def split: if_splits)

text \<open>The node ids on the way to a slot.\<close>

primrec walk_nids :: "fs \<Rightarrow> int \<Rightarrow> int list \<Rightarrow> nat \<Rightarrow> int \<Rightarrow> int list" where
  "walk_nids s len offset 0 nid = []"
| "walk_nids s len offset (Suc n) nid =
     (let i = 3 - int n in
      nid # (if i = len then []
             else case cache s (fs_node_ino s, nid) of
                    None \<Rightarrow> []
                  | Some pg \<Rightarrow> (case child_nid i (pg_data pg) (offset ! nat i) of
                                 None \<Rightarrow> [] | Some c \<Rightarrow> walk_nids s len offset n (sint c))))"

definition node_path :: "fs \<Rightarrow> pkey \<Rightarrow> int list" where
  "node_path s k = (case get_path (snd k) of (len, offset) \<Rightarrow> walk_nids s len offset 4 (fst k))"

lemma follow_last: "follow s len offset m nid = Some (dk, a) \<Longrightarrow> snd dk \<in> set (walk_nids s len offset m nid)"
  by (induction m arbitrary: nid) (auto simp: Let_def bind_eq_Some_conv split: if_splits)

lemma follow_update:
  assumes same: "fs_node_ino s' = fs_node_ino s" "\<And>k. fst k = fs_node_ino s \<Longrightarrow> k \<noteq> dk \<Longrightarrow> cache s' k = cache s k"
    "\<And>k. page_locked s' k = page_locked s k"
    and dk: "cache s dk = Some p" "cache s' dk = Some p'" "pg_uptodate p'"
      "set_slot_addr len (pg_data p) (offset ! nat len) v = Some (pg_data p')"
  shows "follow s len offset m nid = Some (dk, a) \<Longrightarrow> distinct (walk_nids s len offset m nid) \<Longrightarrow>
    follow s' len offset m nid = Some (dk, v)"
proof (induction m arbitrary: nid)
  case (Suc m)
  let ?k = "(fs_node_ino s, nid)" and ?i = "3 - int m"
  from Suc.prems(1) have r: "resident s ?k" by (auto simp: Let_def split: if_splits)
  then obtain q where q: "cache s ?k = Some q" by (auto simp: resident_def split: option.splits)
  show ?case
  proof (cases "?i = len")
    case True
    then have "dk = ?k" using Suc.prems(1) r q by (auto simp: Let_def)
    then show ?thesis
      using True r q dk same slot_addr_set [OF dk(4)] by (auto simp: Let_def resident_def)
  next
    case False
    with Suc.prems(1) r q obtain ch where ch: "child_nid ?i (pg_data q) (offset ! nat ?i) = Some ch" "ch \<noteq> 0"
      "follow s len offset m (sint ch) = Some (dk, a)"
      by (auto simp: Let_def bind_eq_Some_conv split: if_splits)
    have d: "nid \<notin> set (walk_nids s len offset m (sint ch))" "distinct (walk_nids s len offset m (sint ch))"
      using Suc.prems(2) False q ch by (auto simp: Let_def)
    then have "dk \<noteq> ?k" using follow_last [OF ch(3)] by auto
    then have "cache s' ?k = Some q" "resident s' ?k"
      using same(2) [of ?k] q r same(3) by (auto simp: resident_def)
    then show ?thesis using Suc.IH [OF ch(3) d(2)] False ch(1,2) same(1) by (simp add: Let_def)
  qed
qed simp

definition write_xio :: "fs \<Rightarrow> pkey \<Rightarrow> u32 \<Rightarrow> pkey \<Rightarrow> xcpfs_io_info" where
  "write_xio s k a dk = alloc_xio\<lparr>xio_ino := fst k, xio_iblock := snd k, xio_op := REQ_OP_ZONE_APPEND,
     xio_type := get_page_type s (fst k) (snd k), xio_page := Some k, xio_unlock := True,
     xio_old_blkaddr := sint a, xio_dpage := Some dk\<rparr>"

lemma write_single_page_unfold:
  assumes "block_slot s k = Some (dk, a)" "data_ino s (fst k)" "cache s k = Some p" "\<not> pg_writeback p"
  shows "write_single_page bd (prepare_page bd (Suc n)) s k = do {
    (xio, s3) \<leftarrow> alloc_zone bd (write_xio s k a dk) (upd_page k (\<lambda>p. p\<lparr>pg_writeback := True\<rparr>) s);
    s4 \<leftarrow> alloc_bio xio s3;
    Some (0, submit_bio xio s4) }"
proof -
  let ?s0 = "upd_page k (\<lambda>p. p\<lparr>pg_writeback := True\<rparr>) s" and ?pp = "prepare_page bd (Suc n)"
  define xio where "xio = alloc_xio\<lparr>xio_ino := fst k, xio_iblock := snd k, xio_op := REQ_OP_ZONE_APPEND,
    xio_type := get_page_type ?s0 (fst k) (snd k), xio_page := Some k, xio_unlock := True\<rparr>"
  have x: "xio_ino xio = fst k" "xio_iblock xio = snd k" "xio_op xio = REQ_OP_ZONE_APPEND" "xio_page xio = Some k"
    "xio_type xio = get_page_type s (fst k) (snd k)"
    by (simp_all add: xio_def get_page_type_def)
  have w: "xio\<lparr>xio_old_blkaddr := sint a, xio_dpage := Some dk\<rparr> = write_xio s k a dk"
    by (simp add: xio_def write_xio_def get_page_type_def)
  have d0: "data_ino ?s0 (fst k)" using assms(2) by (simp add: data_ino_def)
  have slot0: "block_slot ?s0 k = Some (dk, a)"
    using assms(1,2) by (subst block_slot_cong [of _ s]) (auto simp: cache_upd_page data_ino_def)
  note d = get_dnode_resident [OF slot0]
  obtain pd where pd: "cache ?s0 dk = Some pd" "case get_path (snd k) of (len, offset) \<Rightarrow>
      slot_addr len (pg_data pd) (offset ! nat len) = Some a"
    using d(4) by (elim exE conjE) (rule that)
  obtain len offset where path: "get_path (snd k) = (len, offset)" by fastforce
  have slot: "slot_addr len (pg_data pd) (offset ! nat len) = Some a" using pd(2) path by simp
  have ig: "xcpfs_iget ?pp ?s0 (fst k) = Some (Inr (fst k), ?s0)"
    using d0 by (intro iget_cached) (simp add: data_ino_def)
  have "write_single_page bd ?pp s k = xcpfs_submit_xio bd ?pp xio ?s0"
    using assms(3,4) by (simp add: write_single_page_def do_write_single_page_def xio_def)
  also have "\<dots> = submit_data_xio bd ?pp xio ?s0"
    using data_page_type [OF assms(2), of "snd k"] by (simp add: xcpfs_submit_xio_def x)
  also have "\<dots> = do {
    (xio, s3) \<leftarrow> alloc_zone bd (write_xio s k a dk) ?s0;
    s4 \<leftarrow> alloc_bio xio s3;
    Some (0, submit_bio xio s4) }"
    by (simp add: submit_data_xio_def x ig d(1) pd(1) path slot w)
  finally show ?thesis .
qed

lemma write_data_page:
  assumes run: "write_single_page bd (prepare_page bd (Suc n)) s k = Some (0, s1)" and slot: "block_slot s k = Some (dk, a)"
    and page: "data_ino s (fst k)" "cache s k = Some p"
  shows "\<exists>xio. bios s1 = bios s @ [xio] \<and> xio_page xio = Some k \<and> xio_dpage xio = Some dk \<and>
      xio_type xio \<noteq> META_NODE \<and> xio_type xio \<noteq> REG_NODE \<and>
      cache s1 = (cache s)(k \<mapsto> p\<lparr>pg_writeback := True\<rparr>) \<and> inodes s1 = inodes s \<and> disk s1 = disk s \<and>
      fs_node_ino s1 = fs_node_ino s \<and> nm s1 = nm s"
proof -
  have "\<not> pg_writeback p" using run page(2) by (auto simp: write_single_page_def)
  note unf = write_single_page_unfold [OF slot page this, of bd n]
  from run [unfolded unf] obtain xio s3 s4
    where al: "alloc_zone bd (write_xio s k a dk) (upd_page k (\<lambda>p. p\<lparr>pg_writeback := True\<rparr>) s) = Some (xio, s3)"
      and b: "alloc_bio xio s3 = Some s4" "s1 = submit_bio xio s4"
    by (auto simp: bind_eq_Some_conv)
  note fr = alloc_zone_frame [OF al]
  have x: "xio_op xio = REQ_OP_ZONE_APPEND" "xio_page xio = Some k" "xio_dpage xio = Some dk"
    "xio_type xio = get_page_type s (fst k) (snd k)"
    by (subst conjunct2 [OF fr], simp add: write_xio_def)+
  have "s4 = s3" using b(1) x(1) by (auto simp: alloc_bio_def start_flight_def bind_eq_Some_conv)
  then have "s1 = s3\<lparr>bios := bios s3 @ [xio]\<rparr>" using b(2) x(1) by (simp add: submit_bio_def)
  then show ?thesis
    using x data_page_type [OF page(1), of "snd k"] zone_frame_fields [OF conjunct1 [OF fr]] page(2)
    by (intro exI [of _ xio]) (simp add: upd_page_def)
qed

lemma list_ex_remove1: "\<not> list_ex P l \<Longrightarrow> P x \<Longrightarrow> remove1 x (l @ [x]) = l"
  by (induction l) auto

lemma complete_data_write:
  assumes "xcpfs_write_end_io pp xio sector s1 = Some s2" "xio_page xio = Some k" "xio_dpage xio = Some dk"
    "xio_type xio \<noteq> META_NODE" "xio_type xio \<noteq> REG_NODE" "cache s1 k = Some p" "cache s1 dk = Some pd" "k \<noteq> dk"
    "get_path (snd k) = (len, offset)" "blk = to_int (drop_bit PAGE_SECTORS_SHIFT sector)"
  shows "\<exists>d. set_slot_addr len (pg_data pd) (offset ! nat len) (word_of_int blk) = Some d \<and>
    cache s2 = (cache s1)(dk \<mapsto> pd\<lparr>pg_data := d, pg_uptodate := True, pg_dirty := True\<rparr>,
                          k \<mapsto> p\<lparr>pg_writeback := False, pg_dirty := False\<rparr>) \<and>
    disk s2 = (disk s1)(blk := pg_data p) \<and> bios s2 = remove1 xio (bios s1) \<and>
    inodes s2 = inodes s1 \<and> fs_node_ino s2 = fs_node_ino s1 \<and> nm s2 = nm s1"
proof -
  from assms obtain d where d: "set_slot_addr len (pg_data pd) (offset ! nat len) (word_of_int blk) = Some d"
    and s2: "\<exists>m. s2 = (let s0 = s1\<lparr>disk := (disk s1)(blk := pg_data p)\<rparr>;
        t = (set_page_dirty dk (set_data dk d s0))\<lparr>zm := m\<rparr>;
        t2 = upd_page k (\<lambda>p. p\<lparr>pg_dirty := False\<rparr>) (end_page_writeback k t)
      in t2\<lparr>bios := remove1 xio (bios t2)\<rparr>)"
    by (auto simp: xcpfs_write_end_io_def record_data_block_def bind_eq_Some_conv Let_def)
  obtain m where m: "s2 = (let s0 = s1\<lparr>disk := (disk s1)(blk := pg_data p)\<rparr>;
        t = (set_page_dirty dk (set_data dk d s0))\<lparr>zm := m\<rparr>;
        t2 = upd_page k (\<lambda>p. p\<lparr>pg_dirty := False\<rparr>) (end_page_writeback k t)
      in t2\<lparr>bios := remove1 xio (bios t2)\<rparr>)"
    using s2 by blast
  show ?thesis
    using d assms(6-8) unfolding m
    by (intro exI [of _ d] conjI)
      (simp_all add: Let_def xcpfs_dirty_folio_def end_page_writeback_def upd_page_def fun_upd_twist)
qed

section \<open>Properties of page I/O\<close>

text \<open>A file system with one file, inode 3, whose block 0 is block 33 of the device.\<close>

definition sample_inode_page :: bytes where
  "sample_inode_page = set_i_addr zero_bytes 0 33"

definition sample_cold :: fs where
  "sample_cold = (fs_with_zm sample_zm)\<lparr>nm := sample_nm,
     cache := [(2, 3) \<mapsto> \<lparr>pg_data = sample_inode_page, pg_uptodate = True, pg_dirty = False, pg_writeback = False\<rparr>],
     inodes := [3 \<mapsto> xcpfs_alloc_inode, 1 \<mapsto> xcpfs_alloc_inode, 2 \<mapsto> xcpfs_alloc_inode],
     disk := (\<lambda>b i. word_of_int b)\<rparr>"

definition sample_warm :: fs where
  "sample_warm = sample_cold\<lparr>cache := (cache sample_cold)((3, 0) \<mapsto>
     \<lparr>pg_data = (\<lambda>_. 7), pg_uptodate = True, pg_dirty = True, pg_writeback = False\<rparr>)\<rparr>"

lemma sample_fields [simp]:
  "fs_node_ino sample_cold = 2" "fs_meta_ino sample_cold = 1" "bios sample_cold = []" "zm sample_cold = sample_zm"
  "nm sample_cold = sample_nm" "cpc sample_cold = None" "page_locked sample_cold k = False"
  "disk sample_cold b i = word_of_int b"
  "fs_node_ino sample_warm = 2" "fs_meta_ino sample_warm = 1" "bios sample_warm = []" "zm sample_warm = sample_zm"
  "nm sample_warm = sample_nm" "cpc sample_warm = None" "page_locked sample_warm k = False"
  by (simp_all add: sample_cold_def sample_warm_def fs_with_zm_def page_locked_def)

lemma sample_slot:
  "block_slot sample_cold (3, 0) = Some ((2, 3), 33)" "block_slot sample_cold (3, 5) = Some ((2, 3), 0)"
  "block_slot sample_warm (3, 0) = Some ((2, 3), 33)" "node_path sample_warm (3, 0) = [3]"
  "data_ino sample_cold 3" "data_ino sample_warm 3"
  by (simp_all add: block_slot_def node_path_def get_path_0 eval_nat_numeral resident_def page_locked_def
      sample_cold_def sample_warm_def fs_with_zm_def slot_addr_def layout_consts sample_inode_page_def
      field_simps_disk data_ino_def)

lemma sample_cold_cache [simp]: "cache sample_cold (3, 0) = None"
  by (simp add: sample_cold_def)

lemma sample_prepare:
  "prepare_page sample_bd (Suc (Suc 0)) sample_cold 3 0 False False =
     Some (Inr (3, 0), load_page sample_cold (3, 0) (disk sample_cold 33))"
  using prepare_data_page [OF sample_slot(1,5), of sample_bd 0 False False] by (simp add: blkaddr_ok_def)

text \<open>C15: Preparing a page grows the state and nothing more: the medium, the zone table, pending writes, the
  checkpoint state and every inode in memory stay as they are, resident data pages keep their
  bytes, node ids in use keep their entries; an error is EIO, and a returned page is the one
  asked for, resident and up to date.\<close>

theorem prepare_page_only_grows:
  assumes "prepare_page bd n s ino x w c = Some (r, s')"
  shows "read_ext s s' \<and> (\<forall>e. r = Inl e \<longrightarrow> e = - EIO) \<and>
    (\<forall>k. r = Inr k \<longrightarrow> k = (ino, x) \<and> (\<exists>p. cache s' k = Some p \<and> pg_uptodate p))"
  using pr.pp_ext [OF assms] pr.pp_err [where bd = bd and n = n and s = s] pr.pp_page [where bd = bd and n = n and s = s] assms
  by blast

theorem prepare_page_only_grows_witness:
  "read_ext sample_cold (load_page sample_cold (3, 0) (disk sample_cold 33))"
  using prepare_page_only_grows [OF sample_prepare] by blast

text \<open>C14: With the node pages of a block in memory, preparing the block's page always succeeds: the page
  holds the bytes of the block the node tree addresses, zeros where the slot is empty, and
  nothing else changes.\<close>

theorem prepare_page_reads_file:
  assumes "block_slot s (ino, x) = Some (dk, a)" "data_ino s ino" "blkaddr_ok (sint a)"
    "\<not> page_locked s (ino, x)" "\<forall>p. cache s (ino, x) = Some p \<longrightarrow> \<not> pg_uptodate p"
  shows "prepare_page bd (Suc (Suc n)) s ino x w c =
    Some (Inr (ino, x), load_page s (ino, x) (if a = 0 then zero_bytes else disk s (sint a)))"
  using prepare_data_page [OF assms(1-4)] assms(5) by blast

theorem prepare_page_reads_file_witness:
  "prepare_page sample_bd (Suc (Suc 0)) sample_cold 3 0 False False =
     Some (Inr (3, 0), load_page sample_cold (3, 0) (disk sample_cold 33))"
  using prepare_page_reads_file [OF sample_slot(1,5), of sample_bd 0 False False] by (simp add: blkaddr_ok_def)

text \<open>C2: A data page that is written back is on the medium at the block the device chose, its slot in the
  node tree points there, the page is clean, and after it has been dropped from memory reading
  it again yields the same bytes.\<close>

theorem writeback_readback:
  assumes slot: "block_slot s k = Some (dk, a)" "distinct (node_path s k)"
    and page: "data_ino s (fst k)" "cache s k = Some p" "\<not> page_locked s k"
    and run: "write_single_page bd (prepare_page bd (Suc n)) s k = Some (0, s1)" "bios s1 = bios s @ [xio]"
      "xcpfs_write_end_io pp xio sector s1 = Some s2"
    and blk: "blk = to_int (drop_bit PAGE_SECTORS_SHIFT sector)" "0 < blk" "blkaddr_ok blk"
  shows "disk s2 = (disk s)(blk := pg_data p) \<and> bios s2 = bios s \<and>
    block_slot s2 k = Some (dk, word_of_int blk) \<and>
    cache s2 k = Some (p\<lparr>pg_writeback := False, pg_dirty := False\<rparr>) \<and>
    (\<exists>s4. prepare_page bd (Suc (Suc n)) (s2\<lparr>cache := (cache s2)(k := None)\<rparr>) (fst k) (snd k) w c = Some (Inr k, s4) \<and>
          cache s4 k = Some (filled (pg_data p) new_page))"
proof -
  obtain len offset where path: "get_path (snd k) = (len, offset)" by fastforce
  from write_data_page [OF run(1) slot(1) page(1,2)] run(2)
  have x: "xio_page xio = Some k" "xio_dpage xio = Some dk" "xio_type xio \<noteq> META_NODE" "xio_type xio \<noteq> REG_NODE"
    and s1: "cache s1 = (cache s)(k \<mapsto> p\<lparr>pg_writeback := True\<rparr>)" "inodes s1 = inodes s" "disk s1 = disk s"
      "fs_node_ino s1 = fs_node_ino s"
    by auto
  note d = get_dnode_resident [OF slot(1)]
  have ne: "fst k \<noteq> fs_node_ino s" "k \<noteq> dk" using page(1) d(3) by (auto simp: data_ino_def)
  obtain pd where pd: "cache s dk = Some pd" "slot_addr len (pg_data pd) (offset ! nat len) = Some a"
    using d(4) path by auto
  have c1: "cache s1 k = Some (p\<lparr>pg_writeback := True\<rparr>)" "cache s1 dk = Some pd" using s1(1) pd(1) ne by simp_all
  from complete_data_write [OF run(3) x c1 ne(2) path blk(1)] obtain d2
    where d2: "set_slot_addr len (pg_data pd) (offset ! nat len) (word_of_int blk) = Some d2"
      and s2: "cache s2 = (cache s1)(dk \<mapsto> pd\<lparr>pg_data := d2, pg_uptodate := True, pg_dirty := True\<rparr>,
          k \<mapsto> p\<lparr>pg_writeback := False, pg_dirty := False\<rparr>)" "disk s2 = (disk s1)(blk := pg_data p)"
        "bios s2 = remove1 xio (bios s1)" "inodes s2 = inodes s1" "fs_node_ino s2 = fs_node_ino s1"
    by auto
  have b2: "bios s2 = bios s"
    using s2(3) run(2) page(3) x(1) list_ex_remove1 [of _ "bios s" xio]
    unfolding page_locked_def by simp
  have slot2: "block_slot s2 k = Some (dk, word_of_int blk)"
    unfolding block_slot_def path prod.case
  proof (rule follow_update [where s = s and p = pd and p' = "pd\<lparr>pg_data := d2, pg_uptodate := True, pg_dirty := True\<rparr>"])
    show "follow s len offset 4 (fst k) = Some (dk, a)" "distinct (walk_nids s len offset 4 (fst k))"
      using slot path by (simp_all add: block_slot_def node_path_def)
    show "page_locked s2 j = page_locked s j" for j using b2 by (simp add: page_locked_def)
    show "cache s2 j = cache s j" if "fst j = fs_node_ino s" "j \<noteq> dk" for j
      using that s2(1) s1(1) ne by auto
  qed (use s2 s1 pd d2 ne in auto)
  let ?s3 = "s2\<lparr>cache := (cache s2)(k := None)\<rparr>"
  have "block_slot ?s3 k = Some (dk, word_of_int blk)"
    using slot2 ne(1) s2(5) s1(4) by (subst block_slot_cong [of _ s2]) auto
  then have s3: "block_slot ?s3 (fst k, snd k) = Some (dk, word_of_int blk)" by simp
  have i: "data_ino ?s3 (fst k)" using page(1) s2 s1 by (simp add: data_ino_def)
  have w: "sint (word_of_int blk :: u32) = blk" "(word_of_int blk :: u32) \<noteq> 0"
  proof -
    show 1: "sint (word_of_int blk :: u32) = blk"
      using blk(2,3) by (intro sint_of_int32) (simp add: int32_def blkaddr_ok_def)
    show "(word_of_int blk :: u32) \<noteq> 0" using 1 blk(2) by fastforce
  qed
  have "prepare_page bd (Suc (Suc n)) ?s3 (fst k) (snd k) w c =
      Some (Inr (fst k, snd k), load_page ?s3 (fst k, snd k) (disk ?s3 blk))"
    using prepare_data_page [OF s3 i] w blk(3) page(3) b2 by (simp add: page_locked_def)
  then show ?thesis
    using s2 s1 b2 slot2 by (simp add: load_page_def)
qed

text \<open>The run of the instance: block 33 is replaced by block 34 of the same zone.\<close>

lemma sample_write:
  "\<exists>s1 xio s2. write_single_page sample_bd (prepare_page sample_bd (Suc 0)) sample_warm (3, 0) = Some (0, s1) \<and>
    bios s1 = bios sample_warm @ [xio] \<and> xcpfs_write_end_io pp xio 272 s1 = Some s2"
proof -
  let ?s0 = "upd_page (3, 0) (\<lambda>p. p\<lparr>pg_writeback := True\<rparr>) sample_warm"
  have t: "table_ok sample_zm" using sample_zm_ok by (simp add: zm_ok_def)
  have b: "block_addr_ok sample_zm 33" by (rule sample_block_ok) simp
  have z: "33 div blocks_per_zone sample_zm = 2"
    by (simp add: blocks_per_zone_def zone_blocks_def sample_zm_def PAGE_SECTORS_SHIFT_def)
  obtain m2 where m2: "invalidate_blkaddr sample_zm 33 = Some m2" "zone_size m2 = zone_size sample_zm"
    "nr_zones m2 = nr_zones sample_zm" "zm_ok m2"
    using invalidate_zone_info [OF b t] zm_ok_invalidate [OF sample_zm_ok] by blast
  have t2: "table_ok m2" using m2(4) by (simp add: zm_ok_def)
  have ok2: "block_addr_ok m2 x = block_addr_ok sample_zm x" for x
    using m2(2,3) by (simp add: block_addr_ok_def same_size [OF m2(2)])
  have "block_addr_ok m2 34" "block_addr_ok m2 32"
    unfolding ok2 by (rule sample_block_ok; simp)+
  note b34 = this
  obtain m3 where m3: "validate_blkaddr m2 34 = Some m3" "zone_size m3 = zone_size m2" "nr_zones m3 = nr_zones m2"
    using validate_zone_info [OF b34(1) t2] by blast
  have t3: "table_ok m3" using zm_ok_validate [OF m2(4) m3(1)] by (simp add: zm_ok_def)
  have "block_addr_ok m3 32" using b34(2) m3 by (simp add: block_addr_ok_def same_size [OF m3(2)])
  note z32 = block_addr_okD(1) [OF this t3]
  have "zone_at sample_zm 2 = Some (sample_zone 2 COND_EXP_OPEN 4 8)"
    by (simp add: zone_at_def sample_zm_def)
  then have al: "alloc_zone sample_bd (write_xio sample_warm (3, 0) 33 (2, 3)) ?s0 =
      Some ((write_xio sample_warm (3, 0) 33 (2, 3))\<lparr>xio_new_blkaddr := 32\<rparr>, ?s0\<lparr>zm := m2\<rparr>)"
    using m2(1) block_addr_okD(1) [OF b t]
    by (simp add: alloc_zone_def write_xio_def z zone_is_full_def sample_zone_def PAGE_SECTORS_SHIFT_def to_int_def)
  let ?x = "(write_xio sample_warm (3, 0) 33 (2, 3))\<lparr>xio_new_blkaddr := 32\<rparr>"
  have x: "xio_op ?x = REQ_OP_ZONE_APPEND" "xio_new_blkaddr ?x = 32" "xio_page ?x = Some (3, 0)"
    "xio_dpage ?x = Some (2, 3)" "xio_type ?x = REG_DATA"
    by (simp_all add: write_xio_def get_page_type_def)
  define s1 where "s1 = ?s0\<lparr>zm := m2, bios := [?x]\<rparr>"
  have "cache sample_warm (3, 0) = Some \<lparr>pg_data = \<lambda>_. 7, pg_uptodate = True, pg_dirty = True, pg_writeback = False\<rparr>"
    by (simp add: sample_warm_def)
  then have 1: "write_single_page sample_bd (prepare_page sample_bd (Suc 0)) sample_warm (3, 0) = Some (0, s1)"
    using write_single_page_unfold [OF sample_slot(3), of _ sample_bd 0] sample_slot(6) al x
      block_addr_okD(1) [OF b34(2) t2]
    by (simp add: alloc_bio_def submit_bio_def start_flight_def s1_def)
  have 2: "\<exists>s2. xcpfs_write_end_io pp ?x 272 s1 = Some s2"
    using x m3(1) z32 unfolding s1_def
    by (simp add: xcpfs_write_end_io_def record_data_block_def cache_upd_page get_path_0 set_slot_addr_def
        layout_consts to_int_def sample_warm_def sample_cold_def xcpfs_dirty_folio_def Let_def)
  show ?thesis using 1 2 by (auto simp: s1_def)
qed

theorem writeback_readback_witness:
  "\<exists>s1 xio s2. write_single_page sample_bd (prepare_page sample_bd (Suc 0)) sample_warm (3, 0) = Some (0, s1) \<and>
    xcpfs_write_end_io (prepare_page sample_bd 0) xio 272 s1 = Some s2 \<and>
    disk s2 34 = (\<lambda>_. 7) \<and> block_slot s2 (3, 0) = Some ((2, 3), 34)"
proof -
  obtain s1 xio s2 where run: "write_single_page sample_bd (prepare_page sample_bd (Suc 0)) sample_warm (3, 0) = Some (0, s1)"
    "bios s1 = bios sample_warm @ [xio]" "xcpfs_write_end_io (prepare_page sample_bd 0) xio 272 s1 = Some s2"
    using sample_write by blast
  have p: "cache sample_warm (3, 0) = Some \<lparr>pg_data = \<lambda>_. 7, pg_uptodate = True, pg_dirty = True, pg_writeback = False\<rparr>"
    by (simp add: sample_warm_def)
  have "disk s2 34 = (\<lambda>_. 7) \<and> block_slot s2 (3, 0) = Some ((2, 3), 34)"
    using writeback_readback [OF sample_slot(3) _ _ p _ run, of 34] sample_slot(4,6)
    by (simp add: to_int_def PAGE_SECTORS_SHIFT_def blkaddr_ok_def)
  with run show ?thesis by blast
qed

end
