(* ===== verification/Nat_Props.thy ===== *)
theory Nat_Props
  imports Page_Props
begin

text \<open>
  The node address table over the medium: what \<open>lookup_nat\<close> finds, and that \<open>alloc_free_nat\<close>
  hands out unused node ids and returns when a NAT block has one.
\<close>

section \<open>Reading NAT blocks\<close>

definition nat_page :: "fs \<Rightarrow> int \<Rightarrow> pkey" where
  "nat_page s b = (fs_meta_ino s, b)"

lemma load_nat_block_resident:
  assumes "resident s (nat_page s b)" "cache s (nat_page s b) = Some pg"
  shows "load_nat_block (prepare_page bd (Suc n)) s b = Some (s\<lparr>nm := insert_nat_block b (pg_data pg) (nm s)\<rparr>)"
  using prepare_resident [of s "fs_meta_ino s" b] assms
  by (simp add: load_nat_block_def read_raw_nat_block_def page_of_def nat_page_def)

lemma resident_nm [simp]: "resident (s\<lparr>nm := m\<rparr>) k = resident s k"
  by (simp add: resident_def page_locked_def)

lemma nat_page_nm [simp]: "nat_page (s\<lparr>nm := m\<rparr>) b = nat_page s b"
  by (simp add: nat_page_def)

lemma udiv_455:
  assumes "0 \<le> nid" "int32 nid"
  shows "udiv nid (of_nat NAT_ENTRY_PER_BLOCK) = nid div 455"
  using assms by (simp add: udiv_nonneg layout)

lemma in_own_block: "3 \<le> nid \<Longrightarrow> nid_in_block (nid div 455) nid"
proof -
  assume "3 \<le> nid"
  moreover have "nid div 455 * 455 \<le> nid" "nid < (nid div 455 + 1) * 455" by presburger+
  ultimately show ?thesis by (simp add: nid_in_block_def)
qed

text \<open>The entry of a node id in its NAT block.\<close>

definition page_entry :: "page \<Rightarrow> int \<Rightarrow> int \<times> int" where
  "page_entry pg nid = (sint (raw_ne_ino (pg_data pg) (nat (nid mod 455))), sint (raw_ne_block_addr (pg_data pg) (nat (nid mod 455))))"

lemma in_block_div: "nid_in_block b nid \<Longrightarrow> nid div 455 = b \<and> nid - b * 455 = nid mod 455"
proof -
  assume n: "nid_in_block b nid"
  define r where "r = nid - b * 455"
  then have "nid = r + b * 455" "0 \<le> r" "r < 455" using n by (simp_all add: nid_in_block_def algebra_simps)
  then have "nid div 455 = b" "nid mod 455 = r" by simp_all
  then show ?thesis by (simp add: r_def)
qed

lemma view_after_load:
  assumes "nat_ok m" "nat_block_ok b"
  shows "nat_view (insert_nat_block b (pg_data pg) m) k =
    (case nat_view m k of
       Some e \<Rightarrow> Some e
     | None \<Rightarrow> if 3 \<le> k \<and> k div 455 = b then Some (snd (page_entry pg k) \<noteq> 0, fresh_entry k (page_entry pg k)) else None)"
proof -
  have "nid_in_block b k \<longleftrightarrow> 3 \<le> k \<and> k div 455 = b"
    using in_block_div in_own_block by (auto simp: nid_in_block_def)
  then show ?thesis
    using in_block_div [of b k] by (auto simp: nat_view_insert_nat_block [OF assms] page_entry_def Let_def signed_eq_0_iff split: option.split)
qed

text \<open>C20: With the NAT block of a node id in memory, \<open>lookup_nat\<close> returns the cached entry and changes
  nothing if there is one.  Otherwise it adds the entries of the whole block that were not cached,
  those of the ids 0, 1 and 2 excepted, changes no entry that was cached and nothing else, and
  returns the entry of the id in the block; for the ids 0, 1 and 2 it returns NULL.\<close>

theorem lookup_nat_finds:
  assumes ok: "nat_ok (nm s)" and nid: "0 \<le> nid" "nat_block_ok (nid div 455)"
    and page: "resident s (nat_page s (nid div 455))" "cache s (nat_page s (nid div 455)) = Some pg"
  shows "case lookup_nat_cached (nm s) nid of
      Some e \<Rightarrow> lookup_nat (prepare_page bd (Suc n)) s nid = Some (Some e, s)
    | None \<Rightarrow> (\<exists>m. lookup_nat (prepare_page bd (Suc n)) s nid =
        Some (if nid < 3 then None else Some (fresh_entry nid (page_entry pg nid)), s\<lparr>nm := m\<rparr>) \<and> nat_ok m \<and>
        (\<forall>k. nat_view m k =
          (case nat_view (nm s) k of
             Some e \<Rightarrow> Some e
           | None \<Rightarrow> if 3 \<le> k \<and> k div 455 = nid div 455
               then Some (snd (page_entry pg k) \<noteq> 0, fresh_entry k (page_entry pg k)) else None)))"
proof (cases "lookup_nat_cached (nm s) nid")
  case (Some e)
  then show ?thesis by (simp add: lookup_nat_def)
next
  case None
  let ?m = "insert_nat_block (nid div 455) (pg_data pg) (nm s)"
  have "nid < (nid div 455 + 1) * 455" by presburger
  then have "int32 nid" using nid unfolding nat_block_ok_def int32_def by linarith
  with nid have u: "udiv nid (of_nat NAT_ENTRY_PER_BLOCK) = nid div 455" by (simp add: udiv_455)
  note view = view_after_load [OF ok nid(2), of pg]
  have "nat_view (nm s) nid = None" using None by (simp add: nat_view_lookup)
  then have "lookup_nat_cached ?m nid = (if nid < 3 then None else Some (fresh_entry nid (page_entry pg nid)))"
    by (simp add: nat_view_lookup view)
  then show ?thesis
    using None load_nat_block_resident [OF page] insert_nat_block_ok [OF ok] view
    by (intro option.case_eq_if [THEN iffD2]) (auto simp: lookup_nat_def u intro!: exI [of _ ?m])
qed

text \<open>A resident NAT block 0 in which node id 7 has block 40.\<close>

definition sample_nat_fs :: fs where
  "sample_nat_fs = sample_cold\<lparr>cache := (cache sample_cold)((1, 0) \<mapsto>
     \<lparr>pg_data = set_raw_ne_ino 7 7 (set_raw_ne_block_addr 7 40 zero_bytes), pg_uptodate = True, pg_dirty = False,
      pg_writeback = False\<rparr>)\<rparr>"

lemma sample_nat_fields [simp]:
  "nm sample_nat_fs = sample_nm" "fs_meta_ino sample_nat_fs = 1" "resident sample_nat_fs (1, 0)"
  "nat_page sample_nat_fs b = (1, b)"
  "cache sample_nat_fs (1, 0) = Some \<lparr>pg_data = set_raw_ne_ino 7 7 (set_raw_ne_block_addr 7 40 zero_bytes),
     pg_uptodate = True, pg_dirty = False, pg_writeback = False\<rparr>"
  by (simp_all add: sample_nat_fs_def resident_def page_locked_def nat_page_def)

theorem lookup_nat_finds_witness:
  "\<exists>m. lookup_nat (prepare_page sample_bd (Suc 0)) sample_nat_fs 7 = Some (Some (fresh_entry 7 (7, 40)), sample_nat_fs\<lparr>nm := m\<rparr>)"
proof -
  have "lookup_nat_cached sample_nm 7 = None"
    by (simp add: lookup_nat_cached_def sample_nm_def sample_ne_def)
  then show ?thesis
    using lookup_nat_finds [of sample_nat_fs 7 "\<lparr>pg_data = set_raw_ne_ino 7 7 (set_raw_ne_block_addr 7 40 zero_bytes),
     pg_uptodate = True, pg_dirty = False, pg_writeback = False\<rparr>" sample_bd 0] sample_nm_ok
    by (auto simp: nat_block_ok_def field_simps_disk page_entry_def)
qed

section \<open>Allocating node ids\<close>

text \<open>C21: A node id handed out by \<open>alloc_free_nat\<close> was not in use, has no block, and is of the range asked
  for (meta nodes below \<open>REG_NAT_START * NAT_ENTRY_PER_BLOCK\<close>, others above); it is in use
  afterwards, and no id that was in use before changes its entry.\<close>

theorem alloc_free_nat_fresh:
  assumes "alloc_free_nat (prepare_page bd n) s is_meta = Some (ne, s')" "nat_ok (nm s)"
  shows "(\<forall>e. nat_view (nm s) (ne_nid ne) \<noteq> Some (True, e)) \<and> nat_view (nm s') (ne_nid ne) = Some (True, ne) \<and>
    ne_block_addr ne = 0 \<and> is_reg_nid (ne_nid ne) = (\<not> is_meta) \<and> nat_ok (nm s') \<and>
    (\<forall>k e. nat_view (nm s) k = Some (True, e) \<longrightarrow> nat_view (nm s') k = Some (True, e))"
  using pr.alloc_free_nat_ext [OF assms(1)] assms(2) read_ext_same(10) [of s s']
  unfolding fresh_nid_def nat_ext_def by blast

lemma sample_alloc:
  "\<exists>s'. alloc_free_nat (prepare_page sample_bd 0) sample_cold False = Some (sample_ne 2730000 0, s') \<and>
    inodes s' = inodes sample_cold"
proof -
  have "free_nat_empty sample_nm False \<noteq> None" "fst (the (free_nat_empty sample_nm False)) = sample_ne 2730000 0"
    by (simp_all add: free_nat_empty_def sample_nm_def is_reg_nid_def layout REG_NAT_START_def)
      (simp_all add: sample_ne_def)
  then obtain m where "free_nat_empty sample_nm False = Some (sample_ne 2730000 0, m)" by force
  then have "alloc_free_nat (prepare_page sample_bd 0) sample_cold False = Some (sample_ne 2730000 0, sample_cold\<lparr>nm := m\<rparr>)"
    by (simp add: alloc_free_nat_def alloc_free_nat_loop.simps)
  then show ?thesis by simp
qed

theorem alloc_free_nat_fresh_witness:
  "\<exists>s'. alloc_free_nat (prepare_page sample_bd 0) sample_cold False = Some (sample_ne 2730000 0, s') \<and>
    nat_view (nm s') 2730000 = Some (True, sample_ne 2730000 0)"
proof -
  obtain s' where run: "alloc_free_nat (prepare_page sample_bd 0) sample_cold False = Some (sample_ne 2730000 0, s')"
    using sample_alloc by blast
  from alloc_free_nat_fresh [OF run] sample_nm_ok run show ?thesis by (simp add: sample_ne_def)
qed

text \<open>When the search ends.\<close>

lemma alloc_loop_returns:
  assumes "nat_ok (nm s)" "i \<le> b" "0 \<le> i" "nat_block_ok b"
    "\<And>j. i \<le> j \<Longrightarrow> j \<le> b \<Longrightarrow> resident s (nat_page s j)" "cache s (nat_page s b) = Some pg"
    "nid_in_block b nid" "raw_ne_block_addr (pg_data pg) (nat (nid - b * 455)) = 0" "is_reg_nid nid = (\<not> is_meta)"
    "\<And>e. nat_view (nm s) nid \<noteq> Some (True, e)"
  shows "\<exists>r. alloc_free_nat_loop (prepare_page bd (Suc n)) is_meta i s = Some r"
  using assms
proof (induction "nat (b - i)" arbitrary: i s)
  case (0 i s)
  then have ib: "i = b" by simp
  show ?case
  proof (cases "free_nat_empty (nm s) is_meta")
    case (Some p)
    then show ?thesis by (subst alloc_free_nat_loop.simps) (simp split: prod.split)
  next
    case None
    let ?m = "insert_nat_block b (pg_data pg) (nm s)"
    have "nat_view (nm s) nid = None"
    proof (rule ccontr)
      assume "nat_view (nm s) nid \<noteq> None"
      with "0.prems"(10) obtain e where "nat_view (nm s) nid = Some (False, e)" by fastforce
      then have "e \<in> set (free_nat (nm s))" "ne_nid e = nid"
        by (auto simp: nat_view_def dest: find_nid_Some split: option.splits)
      then show False using free_nat_empty_None [OF None, of e] "0.prems"(9) by simp
    qed
    then have "\<exists>e. nat_view ?m nid = Some (False, e)"
      using nat_view_insert_nat_block [OF "0.prems"(1,4)] "0.prems"(7,8) by (simp add: Let_def)
    then obtain e where "e \<in> set (free_nat ?m)" "ne_nid e = nid"
      by (auto simp: nat_view_def dest: find_nid_Some split: option.splits)
    then have "free_nat_empty ?m is_meta \<noteq> None"
      using free_nat_empty_None [of ?m is_meta e] "0.prems"(9) by metis
    then obtain q where q: "free_nat_empty ?m is_meta = Some q" by blast
    have "load_nat_block (prepare_page bd (Suc n)) s i = Some (s\<lparr>nm := ?m\<rparr>)"
      using load_nat_block_resident [of s b pg bd n] "0.prems"(2,5,6) ib by simp
    then show ?thesis
      using None q by (subst alloc_free_nat_loop.simps, simp, subst alloc_free_nat_loop.simps) (simp split: prod.split)
  qed
next
  case (Suc x i s)
  then have ib: "i < b" by simp
  show ?case
  proof (cases "free_nat_empty (nm s) is_meta")
    case (Some p)
    then show ?thesis by (subst alloc_free_nat_loop.simps) (simp split: prod.split)
  next
    case None
    have "resident s (nat_page s i)" using Suc.prems(5) ib by simp
    then obtain q where q: "cache s (nat_page s i) = Some q" by (auto simp: resident_def split: option.splits)
    let ?m = "insert_nat_block i (pg_data q) (nm s)"
    have bi: "nat_block_ok i" using Suc.prems(3,4) ib by (simp add: nat_block_ok_def)
    have "nat_view ?m nid = nat_view (nm s) nid"
      using nat_view_insert_nat_block [OF Suc.prems(1) bi] Suc.prems(7) ib
      by (auto simp: nid_in_block_def split: option.split)
    then have "\<exists>r. alloc_free_nat_loop (prepare_page bd (Suc n)) is_meta (i + 1) (s\<lparr>nm := ?m\<rparr>) = Some r"
      using Suc.prems Suc.hyps(2) ib
      by (intro Suc.hyps(1)) (auto simp: insert_nat_block_ok)
    moreover have "load_nat_block (prepare_page bd (Suc n)) s i = Some (s\<lparr>nm := ?m\<rparr>)"
      by (rule load_nat_block_resident) (use q Suc.prems(5) ib in auto)
    ultimately show ?thesis
      using None by (subst alloc_free_nat_loop.simps) simp
  qed
qed

text \<open>C22: \<open>alloc_free_nat\<close> returns whenever the NAT blocks it scans are in memory up to one with an unused
  entry of the wanted range: the loop ends at that block at the latest.\<close>

theorem alloc_free_nat_returns:
  assumes "nat_ok (nm s)" "(if is_meta then 0 else 6000) \<le> b" "nat_block_ok b"
    "\<forall>j. (if is_meta then 0 else 6000) \<le> j \<and> j \<le> b \<longrightarrow> resident s (nat_page s j)" "cache s (nat_page s b) = Some pg"
    "nid_in_block b nid" "raw_ne_block_addr (pg_data pg) (nat (nid - b * 455)) = 0" "is_reg_nid nid = (\<not> is_meta)"
    "\<forall>e. nat_view (nm s) nid \<noteq> Some (True, e)"
  shows "\<exists>r. alloc_free_nat (prepare_page bd (Suc n)) s is_meta = Some r"
proof -
  let ?i = "if is_meta then 0 else 6000 :: int"
  have "alloc_free_nat (prepare_page bd (Suc n)) s is_meta = alloc_free_nat_loop (prepare_page bd (Suc n)) is_meta ?i s"
    by (simp add: alloc_free_nat_def REG_NAT_START_def)
  moreover have "0 \<le> ?i" by simp
  ultimately show ?thesis
    using alloc_loop_returns [of s ?i b pg nid is_meta bd n] assms by metis
qed

theorem alloc_free_nat_returns_witness:
  "\<exists>r. alloc_free_nat (prepare_page sample_bd (Suc 0)) sample_nat_fs True = Some r"
proof (rule alloc_free_nat_returns [where b = 0 and nid = 5])
  show "\<forall>j. (if True then 0 else 6000) \<le> j \<and> j \<le> 0 \<longrightarrow> resident sample_nat_fs (nat_page sample_nat_fs j)"
    by (auto simp: order_antisym_conv)
  show "\<forall>e. nat_view (nm sample_nat_fs) 5 \<noteq> Some (True, e)"
    by (simp add: nat_view_def sample_nm_def sample_ne_def)
  show "cache sample_nat_fs (nat_page sample_nat_fs 0) = Some \<lparr>pg_data = set_raw_ne_ino 7 7 (set_raw_ne_block_addr 7 40 zero_bytes),
     pg_uptodate = True, pg_dirty = False, pg_writeback = False\<rparr>" by simp
  show "raw_ne_block_addr (pg_data \<lparr>pg_data = set_raw_ne_ino 7 7 (set_raw_ne_block_addr 7 40 zero_bytes),
     pg_uptodate = True, pg_dirty = False, pg_writeback = False\<rparr>) (nat (5 - 0 * 455)) = 0"
    by (simp add: field_simps_disk) (simp add: raw_ne_defs)
qed (simp_all add: sample_nm_ok nat_block_ok_def nid_in_block_def is_reg_nid_def layout REG_NAT_START_def)

end
