(* ===== verification/Inode.thy ===== *)
theory Inode
  imports Nat_Props
begin

text \<open>
  Inodes (\<open>inode.c\<close>, \<open>xcpfs_write_inode\<close> of \<open>super.c\<close>): the address-space operations the page
  cache calls, writing the attributes of an inode to its node page, and new inodes.
  What the kernel decides for the module is a parameter: the time and the credentials of the
  caller (\<open>env\<close>), and the sector the device appends a write to (\<open>dev\<close>).
\<close>

section \<open>What comes from the kernel and the device\<close>

record env =
  current_time :: timespec
  cur_fsuid :: u32
  cur_fsgid :: u32

type_synonym device = "fs \<Rightarrow> xcpfs_io_info \<Rightarrow> sector"

definition upd_inode :: "int \<Rightarrow> (inode \<Rightarrow> inode) \<Rightarrow> fs \<Rightarrow> fs" where
  "upd_inode ino f s = s\<lparr>inodes := (inodes s)(ino := map_option f (inodes s ino))\<rparr>"

abbreviation mark_inode_dirty :: "int \<Rightarrow> fs \<Rightarrow> fs" where
  "mark_inode_dirty ino \<equiv> upd_inode ino (\<lambda>i. i\<lparr>in_dirty := True\<rparr>)"

text \<open>\<open>wait_on_page_writeback\<close>: the page's pending write completes where the device puts it.\<close>

definition wait_on_page_writeback :: "reader \<Rightarrow> device \<Rightarrow> pkey \<Rightarrow> fs \<Rightarrow> fs option" where
  "wait_on_page_writeback pp dev k s =
     (case find (\<lambda>x. xio_page x = Some k) (bios s) of
        None \<Rightarrow> Some s
      | Some xio \<Rightarrow> xcpfs_write_end_io pp xio (dev s xio) s)"

section \<open>Address-space operations\<close>

definition xcpfs_read_data_folio :: "bdev \<Rightarrow> reader \<Rightarrow> fs \<Rightarrow> pkey \<Rightarrow> (int \<times> fs) option" where
  "xcpfs_read_data_folio bd pp s k = do_prepare_page bd pp s k False"

text \<open>
  \<open>xcpfs_write_data_page\<close>, which the writeback code calls on a locked page whose dirty flag it
  has cleared.  \<open>sync_none\<close> is \<open>wbc->sync_mode == WB_SYNC_NONE\<close>; a failed write is reported as
  success with the page dirty again.
\<close>

definition redirty_page :: "pkey \<Rightarrow> fs \<Rightarrow> fs" where
  "redirty_page k = upd_page k (\<lambda>p. p\<lparr>pg_dirty := True\<rparr>)"

definition xcpfs_write_data_page :: "bdev \<Rightarrow> reader \<Rightarrow> fs \<Rightarrow> pkey \<Rightarrow> bool \<Rightarrow> (int \<times> fs) option" where
  "xcpfs_write_data_page bd pp s k sync_none =
     (if fst k = 2 \<and> (word_of_int (snd k) :: u64) < of_nat (REG_NAT_START * NAT_ENTRY_PER_BLOCK) \<and>
         cp_phase s < 2 \<and> sync_none
      then Some (0, redirty_page k s)
      else do {
        (ret, s1) \<leftarrow> write_single_page bd pp s k;
        if ret \<noteq> 0 then Some (0, redirty_page k s1) else Some (ret, s1)
      })"

text \<open>\<open>xcpfs_write_begin\<close> hands out whatever the reader returned, an error pointer included.\<close>

definition xcpfs_write_begin :: "reader \<Rightarrow> fs \<Rightarrow> int \<Rightarrow> int \<Rightarrow> ((int \<times> (int + pkey)) \<times> fs) option" where
  "xcpfs_write_begin pp s ino pos = do {
     let index = uint (drop_bit PAGE_SHIFT (word_of_int pos :: u64));
     (page, s1) \<leftarrow> pp s ino index True True;
     Some ((0, page), s1)
   }"

text \<open>\<open>xcpfs_write_end\<close>: the 64-bit position is passed as an \<open>int\<close>.\<close>

definition xcpfs_write_end :: "fs \<Rightarrow> pkey \<Rightarrow> int \<Rightarrow> int \<Rightarrow> (int \<times> fs) option" where
  "xcpfs_write_end s k pos copied = xcpfs_commit_write s k (int_wrap pos) (int_wrap copied)"

section \<open>Inode pages\<close>

text \<open>The stores of \<open>xcpfs_update_inode_page\<close>; \<open>i_ctime\<close> is commented out in the code.\<close>

definition fill_raw_inode :: "inode \<Rightarrow> bytes \<Rightarrow> bytes" where
  "fill_raw_inode i d =
     set_ri32 ''i_generation'' (in_generation i)
     (set_ri32 ''i_mtime_nsec'' (ucast (snd (in_mtime i)))
     (set_ri32 ''i_atime_nsec'' (ucast (snd (in_atime i)))
     (set_ri64 ''i_mtime'' (fst (in_mtime i))
     (set_ri64 ''i_atime'' (fst (in_atime i))
     (set_ri64 ''i_blocks'' (in_blocks i)
     (set_ri64 ''i_size'' (word_of_int (in_size i))
     (set_ri32 ''i_links'' (in_nlink i)
     (set_ri32 ''i_gid'' (in_gid i)
     (set_ri32 ''i_uid'' (in_uid i)
     (set_ri16 ''i_mode'' (in_mode i) d))))))))))"

definition xcpfs_update_inode_page :: "reader \<Rightarrow> fs \<Rightarrow> int \<Rightarrow> (int \<times> fs) option" where
  "xcpfs_update_inode_page pp s ino = do {
     i \<leftarrow> inodes s ino;
     (r, s1) \<leftarrow> pp s (fs_node_ino s) ino True True;
     (case r of
        Inl e \<Rightarrow> Some (e, s1)
      | Inr k \<Rightarrow> do {
          pg \<leftarrow> cache s1 k;
          s2 \<leftarrow> commit_page k (set_data k (fill_raw_inode i (pg_data pg)) s1);
          Some (0, s2)
        })
   }"

text \<open>
  \<open>xcpfs_write_inode\<close>; with \<open>WB_SYNC_ALL\<close> the page is written and waited for.
\<close>

definition xcpfs_write_inode :: "bdev \<Rightarrow> reader \<Rightarrow> device \<Rightarrow> fs \<Rightarrow> int \<Rightarrow> bool \<Rightarrow> (int \<times> fs) option" where
  "xcpfs_write_inode bd pp dev s ino sync_all =
     (if ino = 2 then Some (0, s)
      else do {
        (_, s1) \<leftarrow> xcpfs_update_inode_page pp s ino;
        (r, s2) \<leftarrow> get_node_page pp s1 ino False;
        (case r of
           Inl e \<Rightarrow> Some (- EIO, s2)
         | Inr k \<Rightarrow>
             if sync_all then do {
               (ret, s3) \<leftarrow> write_single_page bd pp s2 k;
               if ret \<noteq> 0 then Some (- EIO, s3)
               else do {
                 s4 \<leftarrow> wait_on_page_writeback pp dev k s3;
                 Some (0, s4)
               }
             }
             else Some (0, s2))
      })"

section \<open>New inodes\<close>

definition S_ISGID :: u16 where "S_ISGID = 0x0400"

text \<open>The kernel's \<open>inode_init_owner\<close>.\<close>

definition inode_init_owner :: "env \<Rightarrow> inode \<Rightarrow> u16 \<Rightarrow> inode \<Rightarrow> inode" where
  "inode_init_owner ev dir mode i =
     (if in_mode dir AND S_ISGID \<noteq> 0
      then i\<lparr>in_uid := cur_fsuid ev, in_gid := in_gid dir,
             in_mode := if S_ISDIR mode then mode OR S_ISGID else mode\<rparr>
      else i\<lparr>in_uid := cur_fsuid ev, in_gid := cur_fsgid ev, in_mode := mode\<rparr>)"

text \<open>
  An inode object that is not in the inode table, with the pages of its own mapping, and an operation
  on the object a caller of \<open>xcpfs_new_inode\<close> holds: on the inode of the table (\<open>None\<close>), or on an
  object outside it, which takes the place of the table's inode of that number while \<open>f\<close> runs.
\<close>

record private_inode =
  pi_inode :: "inode option"
  pi_pages :: "int \<Rightarrow> page option"

definition with_obj ::
    "int \<Rightarrow> private_inode option \<Rightarrow> (fs \<Rightarrow> ('a \<times> fs) option) \<Rightarrow> fs \<Rightarrow> ('a \<times> private_inode option \<times> fs) option" where
  "with_obj ino obj f s = (case obj of
       None \<Rightarrow> do { (r, s') \<leftarrow> f s; Some (r, None, s') }
     | Some p \<Rightarrow> do {
         (r, s') \<leftarrow> f (s\<lparr>inodes := (inodes s)(ino := pi_inode p),
                      cache := (\<lambda>k. if fst k = ino then pi_pages p (snd k) else cache s k)\<rparr>);
         Some (r, Some \<lparr>pi_inode = inodes s' ino, pi_pages = (\<lambda>x. cache s' (ino, x))\<rparr>,
           s'\<lparr>inodes := (inodes s')(ino := inodes s ino),
              cache := (\<lambda>k. if fst k = ino then cache s k else cache s' k)\<rparr>)
       })"

text \<open>
  \<open>xcpfs_new_inode\<close>: a free node id becomes the inode number.  \<open>insert_inode_locked\<close> fails when the
  inode table holds another inode of that number; the code ignores that and returns the inode,
  which then is not in the table.
\<close>

definition xcpfs_new_inode ::
    "env \<Rightarrow> reader \<Rightarrow> fs \<Rightarrow> int \<Rightarrow> u16 \<Rightarrow> ((int + int \<times> private_inode option) \<times> fs) option" where
  "xcpfs_new_inode ev pp s dir mode = do {
     d \<leftarrow> inodes s dir;
     (ne, s1) \<leftarrow> alloc_free_nat pp s False;
     let ino = ne_nid ne;
     let s2 = s1\<lparr>nm := write_nat ino (\<lambda>e. e\<lparr>ne_ino := ino\<rparr>) (nm s1)\<rparr>;
     let t = current_time ev;
     let i = inode_init_owner ev d mode
       (xcpfs_alloc_inode\<lparr>in_mtime := t, in_atime := t, in_ctime := t, in_blocks := 0\<rparr>);
     if inodes s2 ino \<noteq> None
     then Some (Inr (ino, Some \<lparr>pi_inode = Some (i\<lparr>in_dirty := True\<rparr>), pi_pages = (\<lambda>_. None)\<rparr>), s2)
     else Some (Inr (ino, None), s2\<lparr>inodes := (inodes s2)(ino \<mapsto> i\<lparr>in_dirty := True\<rparr>)\<rparr>)
   }"

section \<open>Attributes survive on the medium\<close>

text \<open>The values the fields of \<open>struct xcpfs_inode\<close> can hold.\<close>

definition inode_storable :: "inode \<Rightarrow> bool" where
  "inode_storable i \<longleftrightarrow> - (2 ^ 63) \<le> in_size i \<and> in_size i < 2 ^ 63 \<and>
     snd (in_atime i) < 2 ^ 32 \<and> snd (in_mtime i) < 2 ^ 32"

lemma ucast_ucast_32: "(x :: u64) < 2 ^ 32 \<Longrightarrow> ucast (ucast x :: u32) = x"
  by (simp add: word_uint_eq_iff unsigned_ucast_eq unsigned_take_bit_eq take_bit_int_eq_self word_less_def)

lemma sint_of_64: "- (2 ^ 63) \<le> x \<Longrightarrow> x < 2 ^ 63 \<Longrightarrow> sint (word_of_int x :: u64) = x"
  by (simp add: signed_of_int signed_take_bit_int_eq_self)

text \<open>Reading a field of the inode after \<open>fill_raw_inode\<close>.\<close>

lemma ri_fill_raw:
  "ri16 (fill_raw_inode i d) ''i_mode'' = in_mode i" "ri32 (fill_raw_inode i d) ''i_uid'' = in_uid i"
  "ri32 (fill_raw_inode i d) ''i_gid'' = in_gid i" "ri32 (fill_raw_inode i d) ''i_links'' = in_nlink i"
  "ri64 (fill_raw_inode i d) ''i_size'' = word_of_int (in_size i)"
  "ri64 (fill_raw_inode i d) ''i_atime'' = fst (in_atime i)" "ri64 (fill_raw_inode i d) ''i_mtime'' = fst (in_mtime i)"
  "ri32 (fill_raw_inode i d) ''i_atime_nsec'' = ucast (snd (in_atime i))"
  "ri32 (fill_raw_inode i d) ''i_mtime_nsec'' = ucast (snd (in_mtime i))"
  "ri32 (fill_raw_inode i d) ''i_generation'' = in_generation i"
  by (simp_all add: fill_raw_inode_def inode_field_defs layout)

lemma addr_fill_raw:
  "k < 900 \<Longrightarrow> i_addr (fill_raw_inode i d) k = i_addr d k" "i_nid (fill_raw_inode i d) j = i_nid d j"
  by (simp_all add: fill_raw_inode_def inode_field_defs layout i_addr_def i_nid_def)

text \<open>The attributes that are both written and read back.\<close>

definition stored_attrs :: "inode \<Rightarrow> u16 \<times> u32 \<times> u32 \<times> u32 \<times> int \<times> timespec \<times> timespec \<times> u32" where
  "stored_attrs i = (in_mode i, in_uid i, in_gid i, in_nlink i, in_size i, in_atime i, in_mtime i, in_generation i)"

lemma fill_fill:
  "inode_storable i \<Longrightarrow> stored_attrs (xcpfs_fill_inode (fill_raw_inode i d) j) = stored_attrs i"
  by (simp add: stored_attrs_def xcpfs_fill_inode_def ri_fill_raw inode_storable_def sint_of_64 ucast_ucast_32)

lemma stored_attrs_set_inode [simp]: "stored_attrs (xcpfs_set_inode ino i) = stored_attrs i"
  by (simp add: stored_attrs_def xcpfs_set_inode_def)

text \<open>Committing a whole page of the node inode.\<close>

lemma commit_node_page:
  assumes "inodes s 2 = Some i"
  shows "commit_page (2, x) s = Some ((set_page_dirty (2, x) (upd_page (2, x) (\<lambda>p. p\<lparr>pg_uptodate := True\<rparr>) s))
    \<lparr>inodes := (inodes s)(2 \<mapsto> i\<lparr>in_dirty := True\<rparr>)\<rparr>)"
  using assms by (simp add: commit_page_def xcpfs_commit_write_def commit_write_locked_def xcpfs_dirty_folio_def)

lemma prepared_unlocked:
  assumes "prepare_page bd n s ino x w c = Some (r, s')"
  shows "\<not> page_locked s (ino, x)"
  using assms
  by (cases n) (auto simp: prepare_page.simps prepare_page_locked_def grab_page_def bind_eq_Some_conv Let_def split: if_splits)

lemma update_inode_page_result:
  assumes run: "xcpfs_update_inode_page (prepare_page bd n) s ino = Some (0, s1)"
    and i: "inodes s ino = Some i" and n2: "inodes s 2 \<noteq> None" "fs_node_ino s = 2"
  shows "\<exists>pg. resident s1 (2, ino) \<and> cache s1 (2, ino) = Some pg \<and> pg_dirty pg \<and> fs_node_ino s1 = 2 \<and>
    (\<exists>d. pg_data pg = fill_raw_inode i d)"
proof -
  from run i obtain r s0 where p: "prepare_page bd n s 2 ino True True = Some (r, s0)"
    by (auto simp: xcpfs_update_inode_page_def bind_eq_Some_conv n2(2))
  note ext = pr.pp_ext [OF p]
  have "r = Inr (2, ino)"
  proof (cases r)
    case (Inl e)
    then have "e = 0" using run i p by (simp add: xcpfs_update_inode_page_def n2(2))
    then show ?thesis using pr.pp_err p Inl by fastforce
  next
    case (Inr k)
    then show ?thesis using pr.pp_page p by blast
  qed
  with p have p: "prepare_page bd n s 2 ino True True = Some (Inr (2, ino), s0)" by simp
  obtain pg where pg: "cache s0 (2, ino) = Some pg" using pr.pp_page [OF p] by blast
  obtain j where "inodes s0 2 = Some j" using n2(1) read_ext_same(11) [OF ext] by blast
  then have "s1 = (set_page_dirty (2, ino) (upd_page (2, ino) (\<lambda>p. p\<lparr>pg_uptodate := True\<rparr>)
      (set_data (2, ino) (fill_raw_inode i (pg_data pg)) s0)))\<lparr>inodes := (inodes s0)(2 \<mapsto> j\<lparr>in_dirty := True\<rparr>)\<rparr>"
    using run i p pg by (simp add: xcpfs_update_inode_page_def n2(2) commit_node_page)
  moreover have "\<not> page_locked s0 (2, ino)" using prepared_unlocked [OF p] read_ext_same(12) [OF ext] by simp
  ultimately show ?thesis
    using pg read_ext_same(3) [OF ext] n2(2)
    by (auto simp: resident_def page_locked_def xcpfs_dirty_folio_def cache_upd_page)
qed

section \<open>Properties of inodes\<close>

text \<open>C10: The attributes of an inode survive: after \<open>xcpfs_update_inode_page\<close> has succeeded and the inode has
  been dropped from memory, \<open>xcpfs_iget\<close> finds an inode with the same mode, owner, links, size,
  access and modification times and generation (the change time and the block count are not
  kept).\<close>

theorem inode_update_iget:
  assumes run: "xcpfs_update_inode_page (prepare_page bd n) s ino = Some (0, s1)"
    and i: "inodes s ino = Some i" "inode_storable i" "ino \<noteq> 2" and n2: "inodes s 2 \<noteq> None" "fs_node_ino s = 2"
  shows "\<exists>s2 j. xcpfs_iget (prepare_page bd (Suc m)) (s1\<lparr>inodes := (inodes s1)(ino := None)\<rparr>) ino = Some (Inr ino, s2) \<and>
    inodes s2 ino = Some j \<and> stored_attrs j = stored_attrs i"
proof -
  let ?s = "s1\<lparr>inodes := (inodes s1)(ino := None)\<rparr>"
  obtain pg d where pg: "resident s1 (2, ino)" "cache s1 (2, ino) = Some pg" "fs_node_ino s1 = 2"
    "pg_data pg = fill_raw_inode i d"
    using update_inode_page_result [OF run i(1) n2] by blast
  have "resident ?s (2, ino)" using pg(1) by (simp add: resident_def page_locked_def)
  from prepare_resident [OF this, of bd m False False] show ?thesis
    using pg i by (simp add: xcpfs_iget_def get_node_page_def fill_fill)
qed

theorem inode_update_iget_witness:
  "\<exists>s1 s2 j. xcpfs_update_inode_page (prepare_page sample_bd (Suc 0)) sample_cold 3 = Some (0, s1) \<and>
    xcpfs_iget (prepare_page sample_bd (Suc 0)) (s1\<lparr>inodes := (inodes s1)(3 := None)\<rparr>) 3 = Some (Inr 3, s2) \<and>
    inodes s2 3 = Some j \<and> in_nlink j = 1"
proof -
  have i: "inodes sample_cold 3 = Some xcpfs_alloc_inode" "inodes sample_cold 2 = Some xcpfs_alloc_inode"
    by (simp_all add: sample_cold_def)
  have r: "resident sample_cold (2, 3)" by (simp add: resident_def sample_cold_def page_locked_def fs_with_zm_def)
  obtain pg where pg: "cache sample_cold (2, 3) = Some pg" by (simp add: sample_cold_def)
  obtain s1 where run: "xcpfs_update_inode_page (prepare_page sample_bd (Suc 0)) sample_cold 3 = Some (0, s1)"
    using prepare_resident [OF r, of sample_bd 0 True True] i pg
    by (simp add: xcpfs_update_inode_page_def commit_node_page)
  have "inode_storable xcpfs_alloc_inode" by (simp add: inode_storable_def xcpfs_alloc_inode_def)
  from inode_update_iget [OF run i(1) this, of 0] i(2) run show ?thesis
    by (auto simp: stored_attrs_def xcpfs_alloc_inode_def)
qed

text \<open>C26: Ending a write below 2 GiB returns the number of bytes, leaves the page up to date and dirty, and makes
  the file at least as long as the end of the write; it never shrinks the file.\<close>

theorem write_end_grows_file:
  assumes "inodes s (fst k) = Some i" "cache s k = Some p" "fst k \<noteq> 2" "0 \<le> pos" "0 \<le> copied" "pos + copied < 2 ^ 31"
  shows "\<exists>s' j. xcpfs_write_end s k pos copied = Some (copied, s') \<and> inodes s' (fst k) = Some j \<and>
    in_size j = max (in_size i) (pos + copied) \<and> cache s' k = Some (p\<lparr>pg_uptodate := True, pg_dirty := True\<rparr>)"
proof -
  have w: "int_wrap pos = pos" "int_wrap copied = copied" "int_wrap (pos + copied) = pos + copied"
    using assms by (simp_all add: int_wrap_id int32_def)
  show ?thesis
    using assms(1-3)
    by (simp add: xcpfs_write_end_def xcpfs_commit_write_def commit_write_locked_def w xcpfs_dirty_folio_def
        cache_upd_page Let_def)
qed

theorem write_end_grows_file_witness:
  "\<exists>s' j. xcpfs_write_end sample_warm (3, 0) 100 50 = Some (50, s') \<and> inodes s' 3 = Some j \<and> in_size j = 150"
  using write_end_grows_file [of sample_warm "(3, 0)" xcpfs_alloc_inode _ 100 50]
  by (force simp: sample_warm_def sample_cold_def xcpfs_alloc_inode_def)

text \<open>Above 2 GiB the position wraps around as an \<open>int\<close> and the size is not updated.\<close>

lemma write_end_beyond_2G_loses_size:
  assumes "inodes s (fst k) = Some i" "fst k \<noteq> 2" "0 \<le> in_size i"
  shows "\<exists>s'. xcpfs_write_end s k (2 ^ 31) 4096 = Some (4096, s') \<and> inodes s' (fst k) = Some i"
proof -
  have "int_wrap (2 ^ 31) = - (2 ^ 31)" "int_wrap 4096 = 4096" "int_wrap (- (2 ^ 31) + 4096) = - (2 ^ 31) + 4096"
    by (simp_all add: int_wrap_def signed_of_int signed_take_bit_eq_take_bit_minus take_bit_eq_mod)
  then show ?thesis
    using assms
    by (simp add: xcpfs_write_end_def xcpfs_commit_write_def commit_write_locked_def xcpfs_dirty_folio_def Let_def)
qed

text \<open>C27: A new inode gets a number that was not in use and is not a meta node's; its NAT entry is in use, owned
  by itself and without a block; it has one link, size 0, the caller's user id and the present
  time, is marked dirty, and no inode in memory changes.  It is in the inode table unless the table
  holds an inode of that number, which stays there; then the new inode is returned all the same,
  outside the table and without pages.\<close>

theorem new_inode_fresh:
  assumes run: "xcpfs_new_inode ev (prepare_page bd n) s dir mode = Some (Inr (ino, obj), s')" and ok: "nat_ok (nm s)"
  shows "(\<forall>e. nat_view (nm s) ino \<noteq> Some (True, e)) \<and> is_reg_nid ino \<and>
    (\<exists>e. nat_view (nm s') ino = Some (True, e) \<and> ne_ino e = ino \<and> ne_block_addr e = 0) \<and>
    (\<exists>i. in_nlink i = 1 \<and> in_size i = 0 \<and> in_uid i = cur_fsuid ev \<and> in_mtime i = current_time ev \<and> in_dirty i \<and>
       (if obj = None then inodes s' ino = Some i
        else obj = Some \<lparr>pi_inode = Some i, pi_pages = (\<lambda>_. None)\<rparr> \<and> inodes s' ino \<noteq> None)) \<and>
    (inodes s ino \<noteq> None \<longrightarrow> obj \<noteq> None) \<and> (\<forall>j v. inodes s j = Some v \<longrightarrow> inodes s' j = Some v)"
proof -
  from run obtain d ne s1 where d: "inodes s dir = Some d"
    and al: "alloc_free_nat (prepare_page bd n) s False = Some (ne, s1)"
    by (auto simp: xcpfs_new_inode_def bind_eq_Some_conv)
  let ?w = "write_nat (ne_nid ne) (\<lambda>e. e\<lparr>ne_ino := ne_nid ne\<rparr>) (nm s1)"
  define i where "i = (inode_init_owner ev d mode (xcpfs_alloc_inode\<lparr>in_mtime := current_time ev,
    in_atime := current_time ev, in_ctime := current_time ev, in_blocks := 0\<rparr>))\<lparr>in_dirty := True\<rparr>"
  have i: "in_nlink i = 1" "in_size i = 0" "in_uid i = cur_fsuid ev" "in_mtime i = current_time ev" "in_dirty i"
    by (simp_all add: i_def inode_init_owner_def xcpfs_alloc_inode_def)
  have res: "xcpfs_new_inode ev (prepare_page bd n) s dir mode =
      (if inodes s1 (ne_nid ne) \<noteq> None
       then Some (Inr (ne_nid ne, Some \<lparr>pi_inode = Some i, pi_pages = (\<lambda>_. None)\<rparr>), s1\<lparr>nm := ?w\<rparr>)
       else Some (Inr (ne_nid ne, None), s1\<lparr>nm := ?w, inodes := (inodes s1)(ne_nid ne \<mapsto> i)\<rparr>))"
    using d al by (simp add: xcpfs_new_inode_def Let_def i_def)
  from run res have ino: "ino = ne_nid ne" and s': "nm s' = ?w"
    "if obj = None then inodes s1 ino = None \<and> inodes s' = (inodes s1)(ino \<mapsto> i)
     else obj = Some \<lparr>pi_inode = Some i, pi_pages = (\<lambda>_. None)\<rparr> \<and> inodes s' = inodes s1 \<and> inodes s1 ino \<noteq> None"
    by (auto split: if_splits)
  note ext = pr.alloc_free_nat_ext [OF al]
  have e: "read_ext s s1" and f: "fresh_nid False s ne s1" using ext by simp_all
  have ok1: "nat_ok (nm s1)" using read_ext_same(10) [OF e] ok by (simp add: nat_ext_def)
  have "nat_view ?w ino = Some (True, ne\<lparr>ne_ino := ino\<rparr>)"
    using f ok ino by (simp add: nat_view_write [OF ok1] fresh_nid_def)
  moreover have "ne_block_addr ne = 0" "is_reg_nid ino" "\<forall>e. nat_view (nm s) ino \<noteq> Some (True, e)"
    using f ok ino by (simp_all add: fresh_nid_def)
  moreover have keep: "inodes s j = Some v \<Longrightarrow> inodes s1 j = Some v" for j v
    using read_ext_same(11) [OF e] by blast
  moreover from this have "inodes s j = Some v \<Longrightarrow> inodes s' j = Some v" for j v
    using s'(2) by (force split: if_splits)
  moreover from keep have "inodes s ino \<noteq> None \<longrightarrow> obj \<noteq> None" using s'(2) by (force split: if_splits)
  moreover have "if obj = None then inodes s' ino = Some i
        else obj = Some \<lparr>pi_inode = Some i, pi_pages = (\<lambda>_. None)\<rparr> \<and> inodes s' ino \<noteq> None"
    using s'(2) by (simp split: if_splits)
  ultimately show ?thesis using s'(1) i by auto
qed

definition sample_env :: env where
  "sample_env = \<lparr>current_time = (1000, 5), cur_fsuid = 42, cur_fsgid = 43\<rparr>"

theorem new_inode_fresh_witness:
  "\<exists>s' i. xcpfs_new_inode sample_env (prepare_page sample_bd 0) sample_cold 3 0x81A4 = Some (Inr (2730000, None), s') \<and>
    inodes s' 2730000 = Some i \<and> in_uid i = 42"
proof -
  obtain s1 where al: "alloc_free_nat (prepare_page sample_bd 0) sample_cold False = Some (sample_ne 2730000 0, s1)"
    and s1: "inodes s1 = inodes sample_cold"
    using sample_alloc by blast
  have "inodes sample_cold 3 = Some xcpfs_alloc_inode" "inodes sample_cold 2730000 = None"
    by (simp_all add: sample_cold_def)
  then obtain s' where run: "xcpfs_new_inode sample_env (prepare_page sample_bd 0) sample_cold 3 0x81A4 = Some (Inr (2730000, None), s')"
    using al s1 by (simp add: xcpfs_new_inode_def Let_def sample_ne_def)
  from new_inode_fresh [OF run] sample_nm_ok run show ?thesis by (auto simp: sample_env_def)
qed

end
