(* ===== verification/Truncate.thy ===== *)
theory Truncate
  imports Inode
begin

text \<open>
  Truncation (\<open>file.c\<close>), \<open>xcpfs_setattr\<close> (\<open>reg.c\<close>) and \<open>xcpfs_evict_inode\<close> (\<open>super.c\<close>).  The
  node tree is cut in place: addresses in the inode page and in direct nodes are invalidated in
  the zone table and set to 0, node ids are freed in the NAT.
\<close>

section \<open>Clearing slots\<close>

definition invalidate_block :: "u32 \<Rightarrow> fs \<Rightarrow> fs option" where
  "invalidate_block a s = map_option (\<lambda>m. s\<lparr>zm := m\<rparr>) (invalidate_blkaddr (zm s) (sint a))"

text \<open>
  The round of the loops over \<open>ri->i_addr\<close> and \<open>dn->addr\<close>: slot \<open>i\<close> of page \<open>k\<close>, with the
  accessors of the array.
\<close>

definition clear_slot ::
    "(bytes \<Rightarrow> nat \<Rightarrow> u32) \<Rightarrow> (bytes \<Rightarrow> nat \<Rightarrow> u32 \<Rightarrow> bytes) \<Rightarrow> pkey \<Rightarrow> nat \<Rightarrow> fs \<Rightarrow> fs option" where
  "clear_slot get put k i s = do {
     pg \<leftarrow> cache s k;
     if get (pg_data pg) i = 0 then Some s
     else do {
       s1 \<leftarrow> invalidate_block (get (pg_data pg) i) s;
       Some (set_data k (put (pg_data pg) i 0) s1)
     }
   }"

text \<open>The round over \<open>in->nid\<close>, with the recursive call; \<open>in->nid[i]\<close> is read again after it.\<close>

definition clear_child :: "reader \<Rightarrow> (int \<Rightarrow> fs \<Rightarrow> fs option) \<Rightarrow> pkey \<Rightarrow> nat \<Rightarrow> fs \<Rightarrow> fs option" where
  "clear_child pp rec k i s = do {
     pg \<leftarrow> cache s k;
     if in_nid (pg_data pg) i = 0 then Some s
     else do {
       s1 \<leftarrow> rec (sint (in_nid (pg_data pg) i)) s;
       pg1 \<leftarrow> cache s1 k;
       (_, s2) \<leftarrow> invalidate_nat pp s1 (sint (in_nid (pg_data pg1) i));
       pg2 \<leftarrow> cache s2 k;
       Some (set_data k (set_in_nid (pg_data pg2) i 0) s2)
     }
   }"

section \<open>One subtree\<close>

text \<open>An element of \<open>offset\<close>; reading outside the array has no defined result.\<close>

definition elem :: "int list \<Rightarrow> int \<Rightarrow> int option" where
  "elem off i = (if 0 \<le> i \<and> nat i < length off then Some (off ! nat i) else None)"

text \<open>The number of levels of the path.\<close>

definition path_len :: "int list \<Rightarrow> int" where
  "path_len off = int (length (takeWhile (\<lambda>x. x \<noteq> -1) (take 4 off)))"

text \<open>
  What follows the loop of \<open>xcpfs_recurse\<close>; \<open>i\<close> is the loop variable after it.  The path is
  changed through the pointer, so it is part of the result.
\<close>

definition recurse_path :: "reader \<Rightarrow> nat \<Rightarrow> int list \<Rightarrow> nat \<Rightarrow> pkey \<Rightarrow> fs \<Rightarrow> (int list \<times> fs) option" where
  "recurse_path pp depth off i k s =
     (let len = path_len off; j = len - int depth - 1 in
      if depth = 0 then do {
        x \<leftarrow> elem off (len - 1);
        Some (off[nat (len - 1) := x - 1], s)
      }
      else do {
        below \<leftarrow> elem off (j + 1);
        if below = 0 then do {
          x \<leftarrow> elem off j;
          pg \<leftarrow> cache s k;
          _ \<leftarrow> (if 0 \<le> x \<and> x < int DEF_NIDS_PER_BLOCK \<and> i < 1024 then Some () else None);
          (_, s1) \<leftarrow> invalidate_nat pp s (sint (in_nid (pg_data pg) (nat x)));
          pg1 \<leftarrow> cache s1 k;
          Some (off[nat j := x - 1], set_data k (set_in_nid (pg_data pg1) i 0) s1)
        }
        else Some (off, s)
      })"

definition clear_page_uptodate :: "pkey \<Rightarrow> fs \<Rightarrow> fs" where
  "clear_page_uptodate k = upd_page k (\<lambda>p. p\<lparr>pg_uptodate := False\<rparr>)"

text \<open>
  The body of \<open>xcpfs_recurse\<close> with the loop as a parameter: \<open>loop k start s\<close> runs it over the
  slots of page \<open>k\<close> from \<open>start\<close> on.
\<close>

definition recurse_node ::
    "reader \<Rightarrow> nat \<Rightarrow> (pkey \<Rightarrow> nat \<Rightarrow> fs \<Rightarrow> fs option) \<Rightarrow> int list option \<Rightarrow> int \<Rightarrow> fs \<Rightarrow>
      (int list option \<times> fs) option" where
  "recurse_node pp depth loop offset nid s = do {
     (r, s1) \<leftarrow> get_node_page_for_wb pp s nid False;
     k \<leftarrow> page_of r;
     start \<leftarrow> (case offset of None \<Rightarrow> Some 0 | Some off \<Rightarrow> elem off (path_len off - int depth - 1));
     let i = start + (if depth = 0 then 0 else 1);
     _ \<leftarrow> (if i < 0 then None else Some ());
     s2 \<leftarrow> loop k (nat i) s1;
     (offset', s3) \<leftarrow> (case offset of
        None \<Rightarrow> Some (None, s2)
      | Some off \<Rightarrow> map_option (\<lambda>(off', s3). (Some off', s3))
                     (recurse_path pp depth off (max (nat i) DEF_NIDS_PER_BLOCK) k s2));
     here \<leftarrow> (case offset' of
        None \<Rightarrow> Some 0
      | Some off \<Rightarrow> (case offset of None \<Rightarrow> None | Some off0 \<Rightarrow> elem off (path_len off0 - int depth - 1)));
     s4 \<leftarrow> commit_page k (if here = 0 then clear_page_uptodate k s3 else set_page_dirty k s3);
     Some (offset', s4)
   }"

primrec xcpfs_recurse ::
    "reader \<Rightarrow> nat \<Rightarrow> int list option \<Rightarrow> int \<Rightarrow> fs \<Rightarrow> (int list option \<times> fs) option" where
  "xcpfs_recurse pp 0 =
     recurse_node pp 0 (\<lambda>k i. for_each (clear_slot dn_addr set_dn_addr k) [i..<DEF_NIDS_PER_BLOCK])"
| "xcpfs_recurse pp (Suc depth) =
     recurse_node pp (Suc depth) (\<lambda>k i. for_each
       (clear_child pp (\<lambda>nid s. map_option snd (xcpfs_recurse pp depth None nid s)) k)
       [i..<DEF_NIDS_PER_BLOCK])"

section \<open>The tree of an inode\<close>

text \<open>
  One round of the three loops over \<open>ri->i_nid\<close>, for the subtrees of the given depth; \<open>flag\<close> is
  set when everything from here on is cut off.
\<close>

definition truncate_child :: "reader \<Rightarrow> nat \<Rightarrow> pkey \<Rightarrow> bool \<Rightarrow> nat \<Rightarrow> int list \<times> fs \<Rightarrow> (int list \<times> fs) option" where
  "truncate_child pp depth k flag i st = (case st of (off, s) \<Rightarrow> do {
     pg \<leftarrow> cache s k;
     if i_nid (pg_data pg) i = 0 then Some (off, s)
     else do {
       (r, s1) \<leftarrow> xcpfs_recurse pp depth (if flag then None else Some off) (sint (i_nid (pg_data pg) i)) s;
       let off' = (case r of None \<Rightarrow> off | Some off' \<Rightarrow> off');
       if flag \<or> off' ! 1 = 0 then do {
         pg1 \<leftarrow> cache s1 k;
         (_, s2) \<leftarrow> invalidate_nat pp s1 (sint (i_nid (pg_data pg1) i));
         pg2 \<leftarrow> cache s2 k;
         Some (off', set_data k (set_i_nid (pg_data pg2) i 0) s2)
       }
       else Some (off', s1)
     }
   })"

text \<open>The stage for \<open>i_nid[..<hi]\<close>; afterwards \<open>offset[0]\<close> is set behind it.\<close>

definition truncate_stage ::
    "reader \<Rightarrow> nat \<Rightarrow> nat \<Rightarrow> nat \<Rightarrow> pkey \<Rightarrow> bool \<times> int list \<times> fs \<Rightarrow> (bool \<times> int list \<times> fs) option" where
  "truncate_stage pp depth hi next k st = (case st of (flag, off, s) \<Rightarrow>
     if off ! 0 < int (DEF_ADDRS_PER_INODE + hi) then do {
       (off1, s1) \<leftarrow> for_each (truncate_child pp depth k flag) [nat (off ! 0) - DEF_ADDRS_PER_INODE..<hi] (off, s);
       Some (True, off1[0 := int (DEF_ADDRS_PER_INODE + next)], s1)
     }
     else Some (flag, off, s))"

text \<open>The stage for \<open>i_addr\<close>.\<close>

definition truncate_direct :: "pkey \<Rightarrow> int list \<Rightarrow> fs \<Rightarrow> (bool \<times> int list \<times> fs) option" where
  "truncate_direct k off s =
     (if off ! 0 < 0 then None
      else if off ! 0 < int DEF_ADDRS_PER_INODE then do {
        s1 \<leftarrow> for_each (clear_slot i_addr set_i_addr k) [nat (off ! 0)..<DEF_ADDRS_PER_INODE] s;
        Some (True, off[0 := int DEF_ADDRS_PER_INODE], s1)
      }
      else Some (False, off, s))"

definition xcpfs_truncate_blocks :: "reader \<Rightarrow> pkey \<Rightarrow> int \<Rightarrow> fs \<Rightarrow> (int \<times> fs) option" where
  "xcpfs_truncate_blocks pp k free_from s = do {
     st1 \<leftarrow> truncate_direct k (snd (get_path (int_wrap free_from)) @ [-1]) s;
     st2 \<leftarrow> truncate_stage pp 0 2 2 k st1;
     st3 \<leftarrow> truncate_stage pp 1 4 4 k st2;
     (_, _, s4) \<leftarrow> truncate_stage pp 2 5 6 k st3;
     Some (0, set_page_dirty k s4)
   }"

section \<open>Truncating a file\<close>

definition xcpfs_truncate_partial_block :: "reader \<Rightarrow> fs \<Rightarrow> int \<Rightarrow> int \<Rightarrow> int \<Rightarrow> (int \<times> fs) option" where
  "xcpfs_truncate_partial_block pp s ino iblock off =
     (if off = 0 then Some (0, s)
      else do {
        (r, s1) \<leftarrow> pp s ino iblock True False;
        (case r of
           Inl e \<Rightarrow> Some (- EIO, s1)
         | Inr k \<Rightarrow> do {
             pg \<leftarrow> cache s1 k;
             s2 \<leftarrow> commit_page k (set_data k (zero_range (pg_data pg) (nat off) (PAGE_SIZE - nat off)) s1);
             Some (0, s2)
           })
      })"

text \<open>
  The kernel's \<open>invalidate_mapping_pages\<close>: clean unlocked pages of the range leave the cache.
\<close>

definition invalidate_mapping_pages :: "int \<Rightarrow> int \<Rightarrow> int option \<Rightarrow> fs \<Rightarrow> fs" where
  "invalidate_mapping_pages ino first lim s = s\<lparr>cache := (\<lambda>k.
     case cache s k of
       None \<Rightarrow> None
     | Some p \<Rightarrow>
         if fst k = ino \<and> first \<le> snd k \<and> (case lim of None \<Rightarrow> True | Some l \<Rightarrow> snd k \<le> l) \<and>
            \<not> pg_dirty p \<and> \<not> pg_writeback p \<and> \<not> page_locked s k
         then None else Some p)\<rparr>"

text \<open>\<open>(from + PAGE_SIZE - 1) >> PAGE_SIZE_BITS\<close> in unsigned 64-bit arithmetic.\<close>

definition free_from_of :: "int \<Rightarrow> int" where
  "free_from_of from = uint (drop_bit PAGE_SHIFT (word_of_int from + of_nat PAGE_SIZE - 1 :: u64))"

definition xcpfs_do_truncate :: "reader \<Rightarrow> fs \<Rightarrow> int \<Rightarrow> int \<Rightarrow> bool \<Rightarrow> (int \<times> fs) option" where
  "xcpfs_do_truncate pp s ino from lock = do {
     s0 \<leftarrow> (if lock then map_option (\<lambda>sem. s\<lparr>cp_sem := sem\<rparr>) (xcpfs_down_read (cp_sem s)) else Some s);
     (r, s1) \<leftarrow> get_node_page pp s0 ino False;
     (case r of
        Inl e \<Rightarrow> Some (e, s1)
      | Inr k \<Rightarrow> do {
          (_, s2) \<leftarrow> xcpfs_truncate_blocks pp k (free_from_of from) s1;
          s3 \<leftarrow> commit_page k s2;
          let iblock = from div 2 ^ PAGE_SHIFT;
          (_, s4) \<leftarrow> xcpfs_truncate_partial_block pp s3 ino iblock (from - iblock * 2 ^ PAGE_SHIFT);
          let s5 = invalidate_mapping_pages ino (free_from_of from) None s4;
          Some (0, if lock then s5\<lparr>cp_sem := xcpfs_up_read (cp_sem s5)\<rparr> else s5)
        })
   }"

text \<open>\<open>xcpfs_truncate\<close> passes the size as an \<open>int\<close>.\<close>

definition xcpfs_truncate :: "env \<Rightarrow> reader \<Rightarrow> fs \<Rightarrow> int \<Rightarrow> (int \<times> fs) option" where
  "xcpfs_truncate ev pp s ino = do {
     i \<leftarrow> inodes s ino;
     (err, s1) \<leftarrow> xcpfs_do_truncate pp s ino (int_wrap (in_size i)) False;
     if err \<noteq> 0 then Some (err, s1)
     else Some (0, upd_inode ino
       (\<lambda>i. i\<lparr>in_mtime := current_time ev, in_atime := current_time ev, in_dirty := True\<rparr>) s1)
   }"

section \<open>Changing attributes\<close>

text \<open>
  The kernel's \<open>truncate_setsize\<close>: the new size, then the pages behind it leave the cache and the
  rest of the last page is zeroed.  A page of a pending write is waited for.
\<close>

definition drop_pages :: "int \<Rightarrow> int \<Rightarrow> fs \<Rightarrow> fs option" where
  "drop_pages ino first s =
     (if list_ex (\<lambda>x. case xio_page x of None \<Rightarrow> False | Some k \<Rightarrow> fst k = ino \<and> first \<le> snd k) (bios s)
      then None
      else Some (s\<lparr>cache := (\<lambda>k. if fst k = ino \<and> first \<le> snd k then None else cache s k)\<rparr>))"

definition truncate_setsize :: "int \<Rightarrow> int \<Rightarrow> fs \<Rightarrow> fs option" where
  "truncate_setsize ino newsize s = do {
     s1 \<leftarrow> drop_pages ino ((newsize + int PAGE_SIZE - 1) div int PAGE_SIZE)
             (upd_inode ino (\<lambda>i. i\<lparr>in_size := newsize\<rparr>) s);
     let off = nat (newsize mod int PAGE_SIZE);
     let k = (ino, newsize div int PAGE_SIZE);
     if off = 0 then Some s1
     else if page_locked s1 k then None
     else Some (upd_page k (\<lambda>p. p\<lparr>pg_data := zero_range (pg_data p) off (PAGE_SIZE - off)\<rparr>) s1)
   }"

text \<open>
  \<open>xcpfs_setattr\<close>.  The kernel's checks and \<open>setattr_copy\<close> are parameters: \<open>prep\<close> and \<open>newsize_ok\<close>
  are the results of \<open>setattr_prepare\<close> and \<open>inode_newsize_ok\<close>, \<open>newsize\<close> is the new size when
  \<open>ATTR_SIZE\<close> is set.
\<close>

definition xcpfs_setattr ::
    "env \<Rightarrow> reader \<Rightarrow> int \<Rightarrow> int \<Rightarrow> (inode \<Rightarrow> inode) \<Rightarrow> fs \<Rightarrow> int \<Rightarrow> int option \<Rightarrow> (int \<times> fs) option" where
  "xcpfs_setattr ev pp prep newsize_ok setattr_copy s ino newsize =
     (if prep \<noteq> 0 then Some (prep, s)
      else do {
        i \<leftarrow> inodes s ino;
        let resize = (case newsize of None \<Rightarrow> None | Some n \<Rightarrow> if n = in_size i then None else Some n);
        (case resize of
           None \<Rightarrow> Some (0, mark_inode_dirty ino (upd_inode ino setattr_copy s))
         | Some n \<Rightarrow>
             if newsize_ok \<noteq> 0 then Some (newsize_ok, s)
             else do {
               s1 \<leftarrow> truncate_setsize ino n s;
               (_, s2) \<leftarrow> xcpfs_truncate ev pp s1 ino;
               Some (0, mark_inode_dirty ino (upd_inode ino setattr_copy s2))
             })
      })"

section \<open>Dropping an inode\<close>

text \<open>
  \<open>xcpfs_evict_inode\<close>: \<open>sync_inode_metadata(inode, 0)\<close> writes the inode to its page when it is
  dirty; an inode without links loses its blocks.
\<close>

definition xcpfs_evict_inode :: "env \<Rightarrow> bdev \<Rightarrow> reader \<Rightarrow> device \<Rightarrow> fs \<Rightarrow> int \<Rightarrow> fs option" where
  "xcpfs_evict_inode ev bd pp dev s ino = do {
     i \<leftarrow> inodes s ino;
     s1 \<leftarrow> drop_pages ino 0 s;
     if ino \<le> 2 then Some (s1\<lparr>inodes := (inodes s1)(ino := None)\<rparr>)
     else do {
       s2 \<leftarrow> (if in_dirty i then
                map_option snd (xcpfs_write_inode bd pp dev
                  (upd_inode ino (\<lambda>i. i\<lparr>in_dirty := False\<rparr>) s1) ino False)
              else Some s1);
       s3 \<leftarrow> (if in_nlink i = 0 then do {
                (_, s3) \<leftarrow> xcpfs_truncate ev pp (upd_inode ino (\<lambda>i. i\<lparr>in_size := 0\<rparr>) s2) ino;
                Some (invalidate_mapping_pages (fs_node_ino s3) ino (Some ino) s3)
              }
              else Some s2);
       Some (s3\<lparr>inodes := (inodes s3)(ino := None)\<rparr>)
     }
   }"


section \<open>What the loops over addresses do\<close>

text \<open>
  The array of a page that the loops clear: \<open>rest\<close> is what its stores leave alone.
\<close>

locale slot_page =
  fixes get :: "bytes \<Rightarrow> nat \<Rightarrow> u32" and put :: "bytes \<Rightarrow> nat \<Rightarrow> u32 \<Rightarrow> bytes" and N :: nat
    and rest :: "bytes \<Rightarrow> bytes"
  assumes get_put: "i < N \<Longrightarrow> j < N \<Longrightarrow> get (put d i v) j = (if j = i then v else get d j)"
    and rest_put: "i < N \<Longrightarrow> rest (put d i v) = rest d"
begin

text \<open>The addresses in the slots from \<open>a\<close> up to \<open>b\<close>.\<close>

definition held :: "bytes \<Rightarrow> nat \<Rightarrow> nat \<Rightarrow> int set" where
  "held d a b = {sint (get d j) | j. a \<le> j \<and> j < b \<and> get d j \<noteq> 0}"

text \<open>The result of clearing the slots: page, zone table.\<close>

definition cleared :: "nat \<Rightarrow> nat \<Rightarrow> bytes \<Rightarrow> bytes \<Rightarrow> xcpfs_zm_info \<Rightarrow> xcpfs_zm_info \<Rightarrow> bool" where
  "cleared a b d d' m m' \<longleftrightarrow> rest d' = rest d \<and>
     (\<forall>j < N. get d' j = (if a \<le> j \<and> j < b then 0 else get d j)) \<and>
     zm_ok m' \<and> zone_size m' = zone_size m \<and> nr_zones m' = nr_zones m \<and>
     (\<forall>c. block_addr_ok m c \<longrightarrow> block_valid m' c = (c \<notin> held d a b \<and> block_valid m c))"

lemma held_Suc: "a \<le> b \<Longrightarrow> held d a (Suc b) = held d a b \<union> (if get d b = 0 then {} else {sint (get d b)})"
  by (auto simp: held_def less_Suc_eq)

lemma clear_slots:
  assumes "a \<le> b" "b \<le> N" "cache s k = Some pg" "zm_ok (zm s)"
    "\<forall>c \<in> held (pg_data pg) a b. block_addr_ok (zm s) c"
  shows "\<exists>d m. for_each (clear_slot get put k) [a..<b] s =
      Some (s\<lparr>zm := m, cache := (cache s)(k \<mapsto> pg\<lparr>pg_data := d\<rparr>)\<rparr>) \<and> cleared a b (pg_data pg) d (zm s) m"
  using assms
proof (induction b rule: dec_induct)
  case base
  have "(cache s)(k \<mapsto> pg) = cache s" using base by (simp add: fun_upd_idem)
  then have "for_each (clear_slot get put k) [a..<a] s =
      Some (s\<lparr>zm := zm s, cache := (cache s)(k \<mapsto> pg\<lparr>pg_data := pg_data pg\<rparr>)\<rparr>)" by simp
  moreover have "cleared a a (pg_data pg) (pg_data pg) (zm s) (zm s)"
    using base by (auto simp: cleared_def held_def)
  ultimately show ?case by blast
next
  case (step b)
  have "\<forall>c \<in> held (pg_data pg) a b. block_addr_ok (zm s) c" using step.prems(4) step.hyps(1) by (simp add: held_Suc)
  from step.IH [OF _ step.prems(2,3) this] step.prems(1) obtain d m where
    1: "for_each (clear_slot get put k) [a..<b] s = Some (s\<lparr>zm := m, cache := (cache s)(k \<mapsto> pg\<lparr>pg_data := d\<rparr>)\<rparr>)"
    and c: "cleared a b (pg_data pg) d (zm s) m"
    by (meson Suc_leD)
  have g: "get d b = get (pg_data pg) b" using c step.prems by (simp add: cleared_def)
  show ?case
  proof (cases "get d b = 0")
    case True
    then have "for_each (clear_slot get put k) [a..<Suc b] s = Some (s\<lparr>zm := m, cache := (cache s)(k \<mapsto> pg\<lparr>pg_data := d\<rparr>)\<rparr>)"
      using step.hyps 1 by (simp add: for_each_append clear_slot_def)
    moreover have "cleared a (Suc b) (pg_data pg) d (zm s) m"
      using c True g step.hyps step.prems by (auto simp: cleared_def held_Suc less_Suc_eq)
    ultimately show ?thesis by blast
  next
    case False
    let ?b = "sint (get d b)"
    have sz: "zone_size m = zone_size (zm s)" "nr_zones m = nr_zones (zm s)" "zm_ok m"
      and v: "\<And>c. block_addr_ok (zm s) c \<Longrightarrow> block_valid m c = (c \<notin> held (pg_data pg) a b \<and> block_valid (zm s) c)"
      using c by (auto simp: cleared_def)
    have same: "block_addr_ok m c = block_addr_ok (zm s) c" for c
      by (simp add: block_addr_ok_def sz same_size [OF sz(1)])
    have b: "block_addr_ok m ?b"
      using step.prems step.hyps False g by (auto simp: same held_Suc)
    have t: "table_ok m" using sz(3) by (simp add: zm_ok_def)
    from invalidate_zone_info [OF b t] obtain m' where
      m': "invalidate_blkaddr m ?b = Some m'" "zone_size m' = zone_size m" "nr_zones m' = nr_zones m" by blast
    have "for_each (clear_slot get put k) [a..<Suc b] s =
        Some (s\<lparr>zm := m', cache := (cache s)(k \<mapsto> pg\<lparr>pg_data := put d b 0\<rparr>)\<rparr>)"
      using step.hyps 1 False m'(1) by (simp add: for_each_append clear_slot_def invalidate_block_def upd_page_def)
    moreover have "cleared a (Suc b) (pg_data pg) (put d b 0) (zm s) m'"
    proof -
      have "block_valid m' x = (x \<notin> held (pg_data pg) a (Suc b) \<and> block_valid (zm s) x)"
        if "block_addr_ok (zm s) x" for x
        using block_valid_invalidate [OF b t m'(1)] that v False g step.hyps by (auto simp: same held_Suc)
      moreover have "zm_ok m'" using zm_ok_invalidate [OF sz(3) m'(1)] .
      ultimately show ?thesis
        using c step.hyps step.prems m' sz by (auto simp: cleared_def get_put rest_put less_Suc_eq)
    qed
    ultimately show ?thesis by blast
  qed
qed

end

text \<open>The bytes outside a range.\<close>

definition outside :: "nat \<Rightarrow> nat \<Rightarrow> bytes \<Rightarrow> bytes" where
  "outside a b d = (\<lambda>i. if a \<le> i \<and> i < b then 0 else d i)"

lemma outside_wr: "a \<le> off \<Longrightarrow> off + n \<le> b \<Longrightarrow> outside a b (wr_le n d off v) = outside a b d"
  by (auto simp: outside_def wr_le_def fun_eq_iff)

interpretation ip: slot_page i_addr set_i_addr 900 "outside 70 3670"
  by unfold_locales (simp_all add: field_simps_disk, simp add: set_i_addr_def layout outside_wr)

interpretation dp: slot_page dn_addr set_dn_addr 1018 "outside 0 4072"
  by unfold_locales (simp_all add: field_simps_disk, simp add: set_dn_addr_def outside_wr)


section \<open>Files without node pages\<close>

lemma no_children:
  assumes "cache s k = Some pg" "\<forall>j < 5. i_nid (pg_data pg) j = 0" "\<forall>i \<in> set l. i < 5"
  shows "for_each (truncate_child pp depth k flag) l (off, s) = Some (off, s)"
  using assms(3) by (induction l) (simp_all add: truncate_child_def assms(1,2))

lemma stage_no_children:
  assumes "cache s k = Some pg" "\<forall>j < 5. i_nid (pg_data pg) j = 0" "hi \<le> 5"
  shows "\<exists>flag' off'. truncate_stage pp depth hi next k (flag, off, s) = Some (flag', off', s)"
proof -
  have "for_each (truncate_child pp depth k flag) [nat (off ! 0) - DEF_ADDRS_PER_INODE..<hi] (off, s) = Some (off, s)"
    using no_children [OF assms(1,2)] assms(3) by simp
  then have "truncate_stage pp depth hi next k (flag, off, s) =
      Some (if off ! 0 < int (DEF_ADDRS_PER_INODE + hi) then (True, off[0 := int (DEF_ADDRS_PER_INODE + next)], s)
            else (flag, off, s))"
    by (simp add: truncate_stage_def)
  then show ?thesis by (simp split: if_splits) blast+
qed

lemma path_head:
  assumes "0 \<le> n" "n < max_blocks"
  shows "0 \<le> snd (get_path n) ! 0" "n < 900 \<Longrightarrow> snd (get_path n) ! 0 = n"
    "900 \<le> n \<Longrightarrow> 900 \<le> snd (get_path n) ! 0" "snd (get_path n) \<noteq> []"
proof -
  obtain len offs where p: "get_path n = (len, offs)" by fastforce
  then have "path_ok (len, offs)" "path_block (len, offs) = n" using path_of_block [OF assms] by simp_all
  then show "0 \<le> snd (get_path n) ! 0" "900 \<le> n \<Longrightarrow> 900 \<le> snd (get_path n) ! 0" "snd (get_path n) \<noteq> []"
    by (auto simp: p elim!: path_ok_cases)
  show "n < 900 \<Longrightarrow> snd (get_path n) ! 0 = n" by (simp add: get_path_0)
qed

text \<open>
  Page \<open>d\<close> of an inode after its blocks from \<open>n\<close> on are cut off, and the zone table: what
  \<open>xcpfs_truncate_blocks\<close> promises.
\<close>

definition cut_direct :: "int \<Rightarrow> bytes \<Rightarrow> bytes \<Rightarrow> xcpfs_zm_info \<Rightarrow> xcpfs_zm_info \<Rightarrow> bool" where
  "cut_direct n d d' m m' \<longleftrightarrow>
     (\<forall>j < 900. i_addr d' j = (if n \<le> int j then 0 else i_addr d j)) \<and>
     (\<forall>i. i < 70 \<or> 3670 \<le> i \<longrightarrow> d' i = d i) \<and> zm_ok m' \<and>
     (\<forall>c. block_addr_ok m c \<longrightarrow> block_valid m' c =
        (block_valid m c \<and> \<not> (\<exists>j < 900. n \<le> int j \<and> i_addr d j \<noteq> 0 \<and> sint (i_addr d j) = c)))"

lemma outside_D: "outside a b d' = outside a b d \<Longrightarrow> i < a \<or> b \<le> i \<Longrightarrow> d' i = d i"
  by (drule fun_cong [of _ _ i]) (auto simp: outside_def)

lemma cut_direct_cleared:
  assumes "ip.cleared (nat n) 900 d d' m m'" "0 \<le> n"
  shows "cut_direct n d d' m m'"
  using assms outside_D [of 70 3670 d' d]
  by (auto simp: ip.cleared_def cut_direct_def ip.held_def nat_le_iff)

lemma cut_direct_refl: "zm_ok m \<Longrightarrow> 900 \<le> n \<Longrightarrow> cut_direct n d d m m"
  by (auto simp: cut_direct_def)

lemma i_nid_cong: "(\<And>i. 3670 \<le> i \<Longrightarrow> d' i = d i) \<Longrightarrow> i_nid d' j = i_nid d j"
  unfolding i_nid_def by (rule rd_cong) (simp add: layout)

lemma truncate_direct_result:
  assumes n: "0 \<le> n" "n < max_blocks" and pg: "cache s k = Some pg" and z: "zm_ok (zm s)"
    and a: "\<forall>j < 900. i_addr (pg_data pg) j \<noteq> 0 \<longrightarrow> block_addr_ok (zm s) (sint (i_addr (pg_data pg) j))"
  shows "\<exists>flag off d m. truncate_direct k (snd (get_path n) @ [-1]) s =
      Some (flag, off, s\<lparr>zm := m, cache := (cache s)(k \<mapsto> pg\<lparr>pg_data := d\<rparr>)\<rparr>) \<and>
    cut_direct n (pg_data pg) d (zm s) m"
proof (cases "n < 900")
  case True
  note h = path_head [OF n]
  have "\<forall>c \<in> ip.held (pg_data pg) (nat n) 900. block_addr_ok (zm s) c" using a by (auto simp: ip.held_def)
  moreover have "nat n \<le> 900" using True by simp
  ultimately obtain d m where
    "for_each (clear_slot i_addr set_i_addr k) [nat n..<900] s =
      Some (s\<lparr>zm := m, cache := (cache s)(k \<mapsto> pg\<lparr>pg_data := d\<rparr>)\<rparr>)" "ip.cleared (nat n) 900 (pg_data pg) d (zm s) m"
    using ip.clear_slots [OF _ order_refl pg z] by blast
  moreover from this(2) have "cut_direct n (pg_data pg) d (zm s) m" using cut_direct_cleared n by blast
  ultimately have "truncate_direct k (snd (get_path n) @ [-1]) s =
      Some (True, (snd (get_path n) @ [-1])[0 := 900], s\<lparr>zm := m, cache := (cache s)(k \<mapsto> pg\<lparr>pg_data := d\<rparr>)\<rparr>) \<and>
    cut_direct n (pg_data pg) d (zm s) m"
    using h(2) [OF True] h(4) True n by (simp add: truncate_direct_def nth_append DEF_ADDRS_PER_INODE_def)
  then show ?thesis by blast
next
  case False
  have "(cache s)(k \<mapsto> pg) = cache s" using pg by (simp add: fun_upd_idem)
  then have "truncate_direct k (snd (get_path n) @ [-1]) s =
      Some (False, snd (get_path n) @ [-1], s\<lparr>zm := zm s, cache := (cache s)(k \<mapsto> pg\<lparr>pg_data := pg_data pg\<rparr>)\<rparr>)"
    using path_head [OF n] False by (simp add: truncate_direct_def nth_append DEF_ADDRS_PER_INODE_def)
  moreover have "cut_direct n (pg_data pg) (pg_data pg) (zm s) (zm s)" using cut_direct_refl [OF z] False by simp
  ultimately show ?thesis by blast
qed

lemma max_blocks_int32: "0 \<le> n \<Longrightarrow> n < max_blocks \<Longrightarrow> int32 n"
  by (simp add: int32_def max_blocks_def)

text \<open>C9: Cutting the blocks of an inode without node pages never fails: the slots from the first
  freed block on are empty and all others keep their address, nothing else of the inode page
  changes, exactly the blocks of the cut slots lose their validity in the zone table, and the
  zone table keeps its invariant.\<close>

theorem truncate_blocks_direct:
  assumes n: "0 \<le> n" "n < max_blocks" and pg: "cache s k = Some pg" "\<forall>j < 5. i_nid (pg_data pg) j = 0"
    and z: "zm_ok (zm s)"
    and a: "\<forall>j < 900. i_addr (pg_data pg) j \<noteq> 0 \<longrightarrow> block_addr_ok (zm s) (sint (i_addr (pg_data pg) j))"
  shows "\<exists>d m. xcpfs_truncate_blocks pp k n s = Some (0, s\<lparr>zm := m,
      cache := (cache s)(k \<mapsto> pg\<lparr>pg_data := d, pg_uptodate := True, pg_dirty := True\<rparr>)\<rparr>) \<and>
    cut_direct n (pg_data pg) d (zm s) m"
proof -
  from truncate_direct_result [OF n pg(1) z a] obtain flag off d m where
    1: "truncate_direct k (snd (get_path n) @ [-1]) s =
      Some (flag, off, s\<lparr>zm := m, cache := (cache s)(k \<mapsto> pg\<lparr>pg_data := d\<rparr>)\<rparr>)"
    and c: "cut_direct n (pg_data pg) d (zm s) m" by blast
  let ?s = "s\<lparr>zm := m, cache := (cache s)(k \<mapsto> pg\<lparr>pg_data := d\<rparr>)\<rparr>"
  have pg': "cache ?s k = Some (pg\<lparr>pg_data := d\<rparr>)" "\<forall>j < 5. i_nid (pg_data (pg\<lparr>pg_data := d\<rparr>)) j = 0"
    using pg(2) c i_nid_cong [of d "pg_data pg"] by (simp_all add: cut_direct_def)
  note st = stage_no_children [OF pg']
  obtain f2 o2 where 2: "truncate_stage pp 0 2 2 k (flag, off, ?s) = Some (f2, o2, ?s)" using st by fastforce
  obtain f3 o3 where 3: "truncate_stage pp 1 4 4 k (f2, o2, ?s) = Some (f3, o3, ?s)" using st by fastforce
  obtain f4 o4 where 4: "truncate_stage pp 2 5 6 k (f3, o3, ?s) = Some (f4, o4, ?s)" using st by fastforce
  have "xcpfs_truncate_blocks pp k n s = Some (0, set_page_dirty k ?s)"
    using max_blocks_int32 [OF n] by (simp add: xcpfs_truncate_blocks_def int_wrap_id 1 2 3 4 del: fun_upd_apply One_nat_def)
  then show ?thesis using c by (auto simp: xcpfs_dirty_folio_def upd_page_def)
qed

theorem truncate_blocks_direct_witness:
  "block_addr_ok sample_zm 33 \<and> (\<exists>s'. xcpfs_truncate_blocks (prepare_page sample_bd 0) (2, 3) 0 sample_cold = Some (0, s') \<and>
    \<not> block_valid (zm s') 33)"
proof -
  have b: "block_addr_ok sample_zm 33" using sample_block_ok by simp
  have c: "cache sample_cold (2, 3) = Some \<lparr>pg_data = sample_inode_page, pg_uptodate = True, pg_dirty = False, pg_writeback = False\<rparr>"
    by (simp add: sample_cold_def)
  have a: "i_addr sample_inode_page j = (if j = 0 then 33 else 0)" "i_nid sample_inode_page j = 0" for j
    by (simp_all add: sample_inode_page_def field_simps_disk)
  from truncate_blocks_direct [OF _ _ c, of 0 "prepare_page sample_bd 0"] b sample_zm_ok
  obtain d m where "xcpfs_truncate_blocks (prepare_page sample_bd 0) (2, 3) 0 sample_cold =
      Some (0, sample_cold\<lparr>zm := m, cache := (cache sample_cold)((2, 3) \<mapsto>
        \<lparr>pg_data = d, pg_uptodate = True, pg_dirty = True, pg_writeback = False\<rparr>)\<rparr>)"
    "cut_direct 0 sample_inode_page d sample_zm m"
    by (force simp: a max_blocks_def)
  moreover from this(2) b have "\<not> block_valid m 33"
    unfolding cut_direct_def by (auto simp: a)
  ultimately show ?thesis using b by simp
qed

section \<open>Direct nodes\<close>

text \<open>C24: Cutting off a whole direct node whose page is in memory empties all its slots, takes the validity of
  exactly the blocks it held and leaves the footer of the node alone.  The page ends up to date
  and dirty: that the code cleared its up-to-date flag before has no effect.\<close>

theorem recurse_direct_node:
  assumes r: "resident s (2, nid)" "cache s (2, nid) = Some pg" and n2: "fs_node_ino s = 2" "inodes s 2 = Some i"
    and z: "zm_ok (zm s)"
    and a: "\<forall>j < 1018. dn_addr (pg_data pg) j \<noteq> 0 \<longrightarrow> block_addr_ok (zm s) (sint (dn_addr (pg_data pg) j))"
  shows "\<exists>d m. xcpfs_recurse (prepare_page bd (Suc n)) 0 None nid s = Some (None, s\<lparr>zm := m,
      cache := (cache s)((2, nid) \<mapsto> pg\<lparr>pg_data := d, pg_uptodate := True, pg_dirty := True\<rparr>),
      inodes := (inodes s)(2 \<mapsto> i\<lparr>in_dirty := True\<rparr>)\<rparr>) \<and>
    (\<forall>j < 1018. dn_addr d j = 0) \<and> (\<forall>x \<ge> 4072. d x = pg_data pg x) \<and> zm_ok m \<and>
    (\<forall>c. block_addr_ok (zm s) c \<longrightarrow> block_valid m c =
      (block_valid (zm s) c \<and> \<not> (\<exists>j < 1018. dn_addr (pg_data pg) j \<noteq> 0 \<and> sint (dn_addr (pg_data pg) j) = c)))"
proof -
  have "\<forall>c \<in> dp.held (pg_data pg) 0 1018. block_addr_ok (zm s) c" using a by (auto simp: dp.held_def)
  from dp.clear_slots [OF _ order_refl r(2) z this] obtain d m where
    1: "for_each (clear_slot dn_addr set_dn_addr (2, nid)) [0..<1018] s =
      Some (s\<lparr>zm := m, cache := (cache s)((2, nid) \<mapsto> pg\<lparr>pg_data := d\<rparr>)\<rparr>)"
    and c: "dp.cleared 0 1018 (pg_data pg) d (zm s) m" by blast
  let ?s = "s\<lparr>zm := m, cache := (cache s)((2, nid) \<mapsto> pg\<lparr>pg_data := d\<rparr>)\<rparr>"
  have "inodes (clear_page_uptodate (2, nid) ?s) 2 = Some i" by (simp add: clear_page_uptodate_def n2)
  note commit = commit_node_page [OF this]
  have "xcpfs_recurse (prepare_page bd (Suc n)) 0 None nid s = Some (None, s\<lparr>zm := m,
      cache := (cache s)((2, nid) \<mapsto> pg\<lparr>pg_data := d, pg_uptodate := True, pg_dirty := True\<rparr>),
      inodes := (inodes s)(2 \<mapsto> i\<lparr>in_dirty := True\<rparr>)\<rparr>)"
    using prepare_resident [OF r(1), of bd n True False] 1 n2
    by (simp add: recurse_node_def get_node_page_for_wb_def page_of_def DEF_NIDS_PER_BLOCK_def commit del: fun_upd_apply)
      (simp add: clear_page_uptodate_def xcpfs_dirty_folio_def upd_page_def)
  moreover have "\<forall>x \<ge> 4072. d x = pg_data pg x" "zm_ok m" "\<forall>j < 1018. dn_addr d j = 0"
    "\<forall>c. block_addr_ok (zm s) c \<longrightarrow> block_valid m c = (block_valid (zm s) c \<and>
      \<not> (\<exists>j < 1018. dn_addr (pg_data pg) j \<noteq> 0 \<and> sint (dn_addr (pg_data pg) j) = c))"
    using c outside_D [of 0 4072 d "pg_data pg"] by (auto simp: dp.cleared_def dp.held_def)
  ultimately show ?thesis by blast
qed

text \<open>The sample with a direct node: node 4 holds block 34.\<close>

definition sample_dn :: fs where
  "sample_dn = sample_cold\<lparr>cache := (cache sample_cold)((2, 4) \<mapsto>
     \<lparr>pg_data = set_dn_addr zero_bytes 0 34, pg_uptodate = True, pg_dirty = False, pg_writeback = False\<rparr>)\<rparr>"

theorem recurse_direct_node_witness:
  "\<exists>s'. xcpfs_recurse (prepare_page sample_bd (Suc 0)) 0 None 4 sample_dn = Some (None, s') \<and> \<not> block_valid (zm s') 34"
proof -
  have r: "resident sample_dn (2, 4)" "fs_node_ino sample_dn = 2" "inodes sample_dn 2 = Some xcpfs_alloc_inode"
    "zm sample_dn = sample_zm"
    "cache sample_dn (2, 4) = Some \<lparr>pg_data = set_dn_addr zero_bytes 0 34, pg_uptodate = True, pg_dirty = False, pg_writeback = False\<rparr>"
    by (simp_all add: sample_dn_def sample_cold_def resident_def page_locked_def fs_with_zm_def)
  have b: "block_addr_ok sample_zm 34" using sample_block_ok by simp
  from recurse_direct_node [OF r(1,5,2,3), of sample_bd 0] r(4) b sample_zm_ok show ?thesis
    by (fastforce simp: field_simps_disk)
qed

section \<open>Truncating a file to a size\<close>

lemma free_from_eq:
  assumes "0 \<le> from" "int32 from"
  shows "free_from_of from = (from + 4095) div 4096"
proof -
  have u: "uint (word_of_int (from + 4095) :: u64) = from + 4095"
    using assms by (subst uint_word_of_int) (simp add: int32_def)
  have "free_from_of from = uint (drop_bit 12 (word_of_int (from + 4095) :: u64))"
    by (simp add: free_from_of_def PAGE_SHIFT_def PAGE_SIZE_def add.commute)
  also have "\<dots> = (from + 4095) div 4096"
    unfolding unsigned_drop_bit_eq u using assms by (simp add: drop_bit_eq_div int32_def take_bit_int_eq_self)
  finally show ?thesis .
qed

text \<open>Committing a whole page of a file.\<close>

lemma commit_data_page:
  assumes "inodes s ino = Some i" "ino \<noteq> 2" "cache s (ino, b) = Some p" "0 \<le> b" "(b + 1) * 4096 < 2 ^ 31"
  shows "commit_page (ino, b) s = Some (s\<lparr>cache := (cache s)((ino, b) \<mapsto> p\<lparr>pg_uptodate := True, pg_dirty := True\<rparr>),
    inodes := (inodes s)(ino \<mapsto> if (b + 1) * 4096 > in_size i
                                then i\<lparr>in_size := (b + 1) * 4096, in_dirty := True\<rparr> else i)\<rparr>)"
proof -
  have w: "int_wrap (b * 4096) = b * 4096" "int_wrap (b * 4096 + 4096) = (b + 1) * 4096"
    using assms by (simp_all add: int_wrap_id int32_def algebra_simps)
  show ?thesis
    using assms w
    by (simp add: commit_page_def xcpfs_commit_write_def commit_write_locked_def page_offset_def PAGE_SIZE_def
        xcpfs_dirty_folio_def upd_page_def fun_upd_idem)
qed

text \<open>C32: Zeroing the rest of the last block keeps the bytes in front of the cut and zeroes all behind it,
  but it commits the page as a whole: a file that ends within the page grows to the end of
  the page.\<close>

theorem truncate_partial_block_result:
  assumes r: "resident s (ino, b)" "cache s (ino, b) = Some pg" and i: "inodes s ino = Some i" "ino \<noteq> 2"
    and bounds: "0 < off" "off < 4096" "0 \<le> b" "(b + 1) * 4096 < 2 ^ 31"
  shows "\<exists>d. xcpfs_truncate_partial_block (prepare_page bd (Suc n)) s ino b off = Some (0, s\<lparr>
      cache := (cache s)((ino, b) \<mapsto> pg\<lparr>pg_data := d, pg_uptodate := True, pg_dirty := True\<rparr>),
      inodes := (inodes s)(ino \<mapsto> if (b + 1) * 4096 > in_size i
                                  then i\<lparr>in_size := (b + 1) * 4096, in_dirty := True\<rparr> else i)\<rparr>) \<and>
    (\<forall>x < 4096. d x = (if int x < off then pg_data pg x else 0))"
proof -
  let ?d = "zero_range (pg_data pg) (nat off) (4096 - nat off)"
  let ?s = "set_data (ino, b) ?d s"
  have "inodes ?s ino = Some i" "cache ?s (ino, b) = Some (pg\<lparr>pg_data := ?d\<rparr>)" using r(2) i by (simp_all add: cache_upd_page)
  from commit_data_page [OF this(1) i(2) this(2) bounds(3,4)] show ?thesis
    using prepare_resident [OF r(1), of bd n True False] r(2) bounds
    by (intro exI [of _ ?d]) (simp add: xcpfs_truncate_partial_block_def PAGE_SIZE_def, auto simp: upd_page_def zero_range_def)
qed

theorem truncate_partial_block_result_witness:
  "\<exists>s'. xcpfs_truncate_partial_block (prepare_page sample_bd (Suc 0)) sample_warm 3 0 100 = Some (0, s') \<and>
    map_option in_size (inodes s' 3) = Some 4096"
proof -
  have r: "resident sample_warm (3, 0)" "inodes sample_warm 3 = Some xcpfs_alloc_inode"
    "cache sample_warm (3, 0) = Some \<lparr>pg_data = (\<lambda>_. 7), pg_uptodate = True, pg_dirty = True, pg_writeback = False\<rparr>"
    by (simp_all add: sample_warm_def sample_cold_def resident_def page_locked_def fs_with_zm_def)
  from truncate_partial_block_result [OF r(1,3,2), of 100 sample_bd 0] show ?thesis
    by (auto simp: xcpfs_alloc_inode_def)
qed

text \<open>Rounding a size up to whole pages.\<close>

definition page_ceil :: "int \<Rightarrow> int" where
  "page_ceil n = (n + 4095) div 4096 * 4096"

lemma page_ceil_cases:
  "n mod 4096 = 0 \<Longrightarrow> page_ceil n = n"
  "n mod 4096 \<noteq> 0 \<Longrightarrow> page_ceil n = (n div 4096 + 1) * 4096"
proof -
  have n: "n = 4096 * (n div 4096) + n mod 4096" by simp
  show "n mod 4096 = 0 \<Longrightarrow> page_ceil n = n"
    using n int_div_pos_eq [of "n + 4095" 4096 "n div 4096" 4095] by (simp add: page_ceil_def)
  assume "n mod 4096 \<noteq> 0"
  then have "0 < n mod 4096" "n mod 4096 < 4096"
    using pos_mod_sign [of 4096 n] pos_mod_bound [of 4096 n] by linarith+
  then show "page_ceil n = (n div 4096 + 1) * 4096"
    using n int_div_pos_eq [of "n + 4095" 4096 "n div 4096 + 1" "n mod 4096 - 1"] by (simp add: page_ceil_def)
qed

text \<open>The pages a truncation does not touch stay where they are.\<close>

lemma cache_invalidate_mapping:
  "fst k \<noteq> ino \<Longrightarrow> cache (invalidate_mapping_pages ino a l s) k = cache s k"
  by (simp add: invalidate_mapping_pages_def split: option.split)

lemma invalidate_mapping_fields [simp]:
  "inodes (invalidate_mapping_pages ino a l s) = inodes s" "zm (invalidate_mapping_pages ino a l s) = zm s"
  "nm (invalidate_mapping_pages ino a l s) = nm s" "bios (invalidate_mapping_pages ino a l s) = bios s"
  by (simp_all add: invalidate_mapping_pages_def)

lemma do_truncate_direct:
  assumes i: "inodes s ino = Some i" "ino \<noteq> 2" "in_size i = from" "0 \<le> from" "from < 2 ^ 31 - 4096"
    and r: "resident s (2, ino)" "cache s (2, ino) = Some pg" "\<forall>j < 5. i_nid (pg_data pg) j = 0"
    and n2: "fs_node_ino s = 2" "inodes s 2 = Some i2"
    and z: "zm_ok (zm s)"
    and a: "\<forall>j < 900. i_addr (pg_data pg) j \<noteq> 0 \<longrightarrow> block_addr_ok (zm s) (sint (i_addr (pg_data pg) j))"
    and tail: "from mod 4096 = 0 \<or> resident s (ino, from div 4096)"
  shows "\<exists>s' pg' i'. xcpfs_do_truncate (prepare_page bd (Suc n)) s ino from False = Some (0, s') \<and>
    cache s' (2, ino) = Some pg' \<and> cut_direct ((from + 4095) div 4096) (pg_data pg) (pg_data pg') (zm s) (zm s') \<and>
    inodes s' ino = Some i' \<and> in_size i' = page_ceil from"
proof -
  let ?pp = "prepare_page bd (Suc n)" and ?n = "(from + 4095) div 4096"
  have n: "0 \<le> ?n" "?n < max_blocks" using i(4,5) by (simp_all add: max_blocks_def)
  have ff: "free_from_of from = ?n" using free_from_eq i(4,5) by (simp add: int32_def)
  from truncate_blocks_direct [OF n r(2,3) z a, of ?pp] obtain d m where
    1: "xcpfs_truncate_blocks ?pp (2, ino) ?n s = Some (0, s\<lparr>zm := m,
      cache := (cache s)((2, ino) \<mapsto> pg\<lparr>pg_data := d, pg_uptodate := True, pg_dirty := True\<rparr>)\<rparr>)"
    and cut: "cut_direct ?n (pg_data pg) d (zm s) m" by blast
  define s3 where "s3 = s\<lparr>zm := m, cache := (cache s)((2, ino) \<mapsto> pg\<lparr>pg_data := d, pg_uptodate := True, pg_dirty := True\<rparr>),
    inodes := (inodes s)(2 \<mapsto> i2\<lparr>in_dirty := True\<rparr>)\<rparr>"
  have 2: "commit_page (2, ino) (s\<lparr>zm := m,
      cache := (cache s)((2, ino) \<mapsto> pg\<lparr>pg_data := d, pg_uptodate := True, pg_dirty := True\<rparr>)\<rparr>) = Some s3"
    using commit_node_page [of _ i2 ino] n2 by (simp add: s3_def xcpfs_dirty_folio_def upd_page_def)
  have off: "from - from div 4096 * 2 ^ PAGE_SHIFT = from mod 4096" "from div 2 ^ PAGE_SHIFT = from div 4096"
    by (simp_all add: PAGE_SHIFT_def minus_div_mult_eq_mod)
  have i3: "inodes s3 ino = Some i" using i by (simp add: s3_def)
  have "\<exists>s4 i'. xcpfs_truncate_partial_block ?pp s3 ino (from div 4096) (from mod 4096) = Some (0, s4) \<and>
    cache s4 (2, ino) = cache s3 (2, ino) \<and> zm s4 = m \<and> inodes s4 ino = Some i' \<and> in_size i' = page_ceil from"
  proof (cases "from mod 4096 = 0")
    case True
    then show ?thesis
      using i3 i(3) page_ceil_cases by (simp add: xcpfs_truncate_partial_block_def s3_def)
  next
    case False
    then have "resident s3 (ino, from div 4096)" using tail i(2) by (simp add: s3_def resident_def page_locked_def)
    then obtain pt where pt: "resident s3 (ino, from div 4096)" "cache s3 (ino, from div 4096) = Some pt"
      by (auto simp: resident_def split: option.splits)
    define q r where "q = from div 4096" and "r = from mod 4096"
    have "from = 4096 * q + r" "0 < r" "r < 4096" "from < 2147479552" "0 \<le> from"
      using False i(4,5) pos_mod_sign [of 4096 "from"] by (simp_all add: q_def r_def)
    then have "0 < r" "0 \<le> q" "4096 * q + 4096 < 2147483648" "from < 4096 * q + 4096" by linarith+
    then have b: "0 < from mod 4096" "0 \<le> from div 4096" "(from div 4096 + 1) * 4096 < 2 ^ 31" "from < (from div 4096 + 1) * 4096"
      unfolding q_def r_def by (simp_all add: algebra_simps)
    from truncate_partial_block_result [OF pt i3 i(2) b(1) _ b(2,3), of bd n] show ?thesis
      using i b(4) False page_ceil_cases(2) by (auto simp: s3_def)
  qed
  then obtain s4 i' where 4: "xcpfs_truncate_partial_block ?pp s3 ino (from div 4096) (from mod 4096) = Some (0, s4)"
    "cache s4 (2, ino) = cache s3 (2, ino)" "zm s4 = m" "inodes s4 ino = Some i'" "in_size i' = page_ceil from" by blast
  have "xcpfs_do_truncate ?pp s ino from False = Some (0, invalidate_mapping_pages ino ?n None s4)"
    using prepare_resident [OF r(1), of bd n False False] 1 2 4(1) n2
    by (simp add: xcpfs_do_truncate_def get_node_page_def ff off Let_def del: fun_upd_apply)
  moreover have "cache s3 (2, ino) = Some (pg\<lparr>pg_data := d, pg_uptodate := True, pg_dirty := True\<rparr>)" by (simp add: s3_def)
  ultimately show ?thesis
    using 4 cut i(2) by (auto simp: cache_invalidate_mapping)
qed

text \<open>C23: Truncating a file without node pages to the size in its inode returns 0 whenever its inode page
  and the page of a partial last block are in memory: the blocks behind the size are cut off,
  and access and modification times are updated.  The size that remains is the size rounded
  up to whole pages, and not the requested one.\<close>

theorem truncate_rounds_size_up:
  assumes i: "inodes s ino = Some i" "ino \<noteq> 2" "0 \<le> in_size i" "in_size i < 2 ^ 31 - 4096"
    and r: "resident s (2, ino)" "cache s (2, ino) = Some pg" "\<forall>j < 5. i_nid (pg_data pg) j = 0"
    and n2: "fs_node_ino s = 2" "inodes s 2 = Some i2"
    and z: "zm_ok (zm s)"
    and a: "\<forall>j < 900. i_addr (pg_data pg) j \<noteq> 0 \<longrightarrow> block_addr_ok (zm s) (sint (i_addr (pg_data pg) j))"
    and tail: "in_size i mod 4096 = 0 \<or> resident s (ino, in_size i div 4096)"
  shows "\<exists>s' pg' i'. xcpfs_truncate ev (prepare_page bd (Suc n)) s ino = Some (0, s') \<and>
    cache s' (2, ino) = Some pg' \<and>
    cut_direct ((in_size i + 4095) div 4096) (pg_data pg) (pg_data pg') (zm s) (zm s') \<and>
    inodes s' ino = Some i' \<and> in_size i' = page_ceil (in_size i) \<and>
    in_mtime i' = current_time ev \<and> in_atime i' = current_time ev"
proof -
  from do_truncate_direct [OF i(1,2) refl i(3,4) r n2 z a tail, of bd n] obtain s' pg' i' where
    "xcpfs_do_truncate (prepare_page bd (Suc n)) s ino (in_size i) False = Some (0, s')"
    "cache s' (2, ino) = Some pg'" "cut_direct ((in_size i + 4095) div 4096) (pg_data pg) (pg_data pg') (zm s) (zm s')"
    "inodes s' ino = Some i'" "in_size i' = page_ceil (in_size i)" by blast
  then show ?thesis
    using i by (simp add: xcpfs_truncate_def int_wrap_id int32_def upd_inode_def)
qed

theorem truncate_rounds_size_up_witness:
  "\<exists>s' i'. xcpfs_truncate sample_env (prepare_page sample_bd (Suc 0))
      (sample_warm\<lparr>inodes := (inodes sample_warm)(3 \<mapsto> xcpfs_alloc_inode\<lparr>in_size := 100\<rparr>)\<rparr>) 3 = Some (0, s') \<and>
    inodes s' 3 = Some i' \<and> in_size i' = 4096"
proof -
  let ?s = "sample_warm\<lparr>inodes := (inodes sample_warm)(3 \<mapsto> xcpfs_alloc_inode\<lparr>in_size := 100\<rparr>)\<rparr>"
  have r: "resident ?s (2, 3)" "resident ?s (3, 0)" "fs_node_ino ?s = 2" "inodes ?s 2 = Some xcpfs_alloc_inode"
    "inodes ?s 3 = Some (xcpfs_alloc_inode\<lparr>in_size := 100\<rparr>)" "zm_ok (zm ?s)"
    "cache ?s (2, 3) = Some \<lparr>pg_data = sample_inode_page, pg_uptodate = True, pg_dirty = False, pg_writeback = False\<rparr>"
    using sample_zm_ok by (simp_all add: sample_warm_def sample_cold_def resident_def page_locked_def fs_with_zm_def)
  have a: "i_addr sample_inode_page j = (if j = 0 then 33 else 0)" "i_nid sample_inode_page j = 0" for j
    by (simp_all add: sample_inode_page_def field_simps_disk)
  have "block_addr_ok (zm ?s) 33" using sample_block_ok by simp
  then have "\<forall>j < 900. i_addr (pg_data \<lparr>pg_data = sample_inode_page, pg_uptodate = True, pg_dirty = False, pg_writeback = False\<rparr>) j \<noteq> 0 \<longrightarrow>
      block_addr_ok (zm ?s) (sint (i_addr (pg_data \<lparr>pg_data = sample_inode_page, pg_uptodate = True, pg_dirty = False, pg_writeback = False\<rparr>) j))"
    by (auto simp: a)
  from truncate_rounds_size_up [OF r(5) _ _ _ r(1,7) _ r(3,4,6) this, of sample_env sample_bd 0] show ?thesis
    using r(2) by (auto simp: a page_ceil_def)
qed

end
