(* ===== verification/Dir.thy ===== *)
theory Dir
  imports Truncate
begin

text \<open>
  Directories (\<open>dir.c\<close>).  A directory is a file with one entry at the start of each page.  The
  file-system operations of the module on names are modelled whole; a name is the bytes the VFS
  passes, without the terminating NUL.  \<open>d_inode(dentry)\<close> and the parent directory are
  arguments.
\<close>

section \<open>Directory entries\<close>

type_synonym cstring = "u8 list"

definition de_ino :: "bytes \<Rightarrow> u32" where
  "de_ino d = rd32 d (offset_of xcpfs_dentry ''ino'')"
definition de_namelen :: "bytes \<Rightarrow> u32" where
  "de_namelen d = rd32 d (offset_of xcpfs_dentry ''namelen'')"
definition set_de_ino :: "u32 \<Rightarrow> bytes \<Rightarrow> bytes" where
  "set_de_ino v d = wr32 d (offset_of xcpfs_dentry ''ino'') v"
definition set_de_namelen :: "u32 \<Rightarrow> bytes \<Rightarrow> bytes" where
  "set_de_namelen v d = wr32 d (offset_of xcpfs_dentry ''namelen'') v"

text \<open>\<open>strcpy(de->name, name)\<close>, \<open>strcmp(name, de->name) == 0\<close> and \<open>strnlen(de->name, n)\<close>.\<close>

definition de_strcpy :: "cstring \<Rightarrow> bytes \<Rightarrow> bytes" where
  "de_strcpy name d = (\<lambda>i. if i < length name then name ! i else if i = length name then 0 else d i)"

definition de_name_eq :: "cstring \<Rightarrow> bytes \<Rightarrow> bool" where
  "de_name_eq name d \<longleftrightarrow> list_all (\<lambda>i. d i = name ! i) [0..<length name] \<and> d (length name) = 0"

definition de_name :: "bytes \<Rightarrow> cstring" where
  "de_name d = takeWhile (\<lambda>b. b \<noteq> 0) (map d [0..<XCPFS_MAX_FNAME_LEN])"

text \<open>\<open>dir_pages\<close>, stored in an \<open>int\<close>.\<close>

definition dir_pages :: "inode \<Rightarrow> int" where
  "dir_pages i = int_wrap ((in_size i + int PAGE_SIZE - 1) div int PAGE_SIZE)"

section \<open>Scanning a directory\<close>

text \<open>
  The loop the search functions share: prepare the next page for reading and look at its entry.
  \<open>visit\<close> and \<open>on_err\<close> leave the loop with a result or go on with a new accumulator.
\<close>

primrec scan_pages ::
    "reader \<Rightarrow> int \<Rightarrow> (int \<Rightarrow> 'a \<Rightarrow> 'r + 'a) \<Rightarrow> (int \<Rightarrow> bytes \<Rightarrow> 'a \<Rightarrow> 'r + 'a) \<Rightarrow> int list \<Rightarrow> 'a \<Rightarrow> fs \<Rightarrow>
      (('r + 'a) \<times> fs) option" where
  "scan_pages pp dir on_err visit [] acc s = Some (Inr acc, s)"
| "scan_pages pp dir on_err visit (i # is) acc s = do {
     (r, s1) \<leftarrow> pp s dir i False False;
     v \<leftarrow> (case r of
        Inl e \<Rightarrow> Some (on_err e acc)
      | Inr k \<Rightarrow> map_option (\<lambda>pg. visit i (pg_data pg) acc) (cache s1 k));
     (case v of
        Inl res \<Rightarrow> Some (Inl res, s1)
      | Inr acc' \<Rightarrow> scan_pages pp dir on_err visit is acc' s1)
   }"

text \<open>Entry \<open>i\<close> in the loop of \<open>xcpfs_add_link\<close>; the accumulator is \<open>tar\<close>.\<close>

definition add_link_visit :: "cstring \<Rightarrow> int \<Rightarrow> int \<Rightarrow> bytes \<Rightarrow> int \<Rightarrow> int + int" where
  "add_link_visit name npages i d tar =
     (if word_of_int (int (length name)) = de_namelen d \<and> de_name_eq name d then Inl (- EEXIST)
      else Inr (if de_ino d = 0 \<and> tar = npages then i else tar))"

definition fill_entry :: "cstring \<Rightarrow> int \<Rightarrow> bytes \<Rightarrow> bytes" where
  "fill_entry name ino d =
     set_de_ino (word_of_int ino) (set_de_namelen (word_of_int (int (length name)))
       (de_strcpy name (set_de_ino (word_of_int ino) d)))"

definition xcpfs_add_link :: "env \<Rightarrow> reader \<Rightarrow> fs \<Rightarrow> int \<Rightarrow> cstring \<Rightarrow> int \<Rightarrow> (int \<times> fs) option" where
  "xcpfs_add_link ev pp s dir name ino = do {
     d \<leftarrow> inodes s dir;
     let npages = dir_pages d;
     (v, s1) \<leftarrow> scan_pages pp dir (\<lambda>e tar. Inl e) (add_link_visit name npages) [0..npages - 1] npages s;
     (case v of
        Inl err \<Rightarrow> Some (err, s1)
      | Inr tar \<Rightarrow> do {
          (r, s2) \<leftarrow> pp s1 dir tar True True;
          (case r of
             Inl e \<Rightarrow> Some (e, s2)
           | Inr k \<Rightarrow> do {
               pg \<leftarrow> cache s2 k;
               s3 \<leftarrow> commit_page k (set_data k (fill_entry name ino (pg_data pg)) s2);
               Some (0, upd_inode dir (\<lambda>i. i\<lparr>in_mtime := current_time ev, in_atime := current_time ev,
                                          in_dirty := True\<rparr>) s3)
             })
        })
   }"

text \<open>The loop of \<open>xcpfs_find_entry\<close>: pages that cannot be prepared are skipped.\<close>

definition find_visit :: "cstring \<Rightarrow> int \<Rightarrow> bytes \<Rightarrow> unit \<Rightarrow> int + unit" where
  "find_visit name i d u =
     (if de_ino d \<noteq> 0 \<and> de_namelen d = word_of_int (int (length name)) \<and> de_name_eq name d then Inl i else Inr ())"

definition xcpfs_find_entry :: "reader \<Rightarrow> fs \<Rightarrow> int \<Rightarrow> cstring \<Rightarrow> (pkey option \<times> fs) option" where
  "xcpfs_find_entry pp s dir name = do {
     d \<leftarrow> inodes s dir;
     (v, s1) \<leftarrow> scan_pages pp dir (\<lambda>e u. Inr u) (find_visit name) [0..dir_pages d - 1] () s;
     Some (case v of Inl i \<Rightarrow> Some (dir, i) | Inr _ \<Rightarrow> None, s1)
   }"

definition xcpfs_inode_by_name :: "reader \<Rightarrow> fs \<Rightarrow> int \<Rightarrow> cstring \<Rightarrow> (u32 \<times> fs) option" where
  "xcpfs_inode_by_name pp s dir name = do {
     (r, s1) \<leftarrow> xcpfs_find_entry pp s dir name;
     (case r of
        None \<Rightarrow> Some (0, s1)
      | Some k \<Rightarrow> do { pg \<leftarrow> cache s1 k; Some (de_ino (pg_data pg), s1) })
   }"

text \<open>\<open>xcpfs_lookup\<close>: an error, a negative dentry, or an inode.\<close>

definition xcpfs_lookup :: "reader \<Rightarrow> fs \<Rightarrow> int \<Rightarrow> cstring \<Rightarrow> ((int + int option) \<times> fs) option" where
  "xcpfs_lookup pp s dir name =
     (if length name > XCPFS_MAX_FNAME_LEN then Some (Inl (- ENAMETOOLONG), s)
      else do {
        (w, s1) \<leftarrow> xcpfs_inode_by_name pp s dir name;
        let ino = sint w;
        if ino = 0 then Some (Inr None, s1)
        else do {
          (r, s2) \<leftarrow> xcpfs_iget pp s1 ino;
          Some (case r of Inl e \<Rightarrow> Inl e | Inr i \<Rightarrow> Inr (Some i), s2)
        }
      })"

definition empty_dir_visit :: "int \<Rightarrow> bytes \<Rightarrow> unit \<Rightarrow> unit + unit" where
  "empty_dir_visit i d u = (if de_ino d \<noteq> 0 then Inl () else Inr ())"

definition xcpfs_empty_dir :: "reader \<Rightarrow> fs \<Rightarrow> int \<Rightarrow> (bool \<times> fs) option" where
  "xcpfs_empty_dir pp s ino = do {
     i \<leftarrow> inodes s ino;
     if dir_pages i \<le> 2 then Some (True, s)
     else do {
       (v, s1) \<leftarrow> scan_pages pp ino (\<lambda>e u. Inr u) empty_dir_visit [2..dir_pages i - 1] () s;
       Some (case v of Inl _ \<Rightarrow> False | Inr _ \<Rightarrow> True, s1)
     }
   }"

section \<open>Reading a directory\<close>

text \<open>
  \<open>struct dir_context\<close>: the position and the entries emitted so far; \<open>actor\<close> tells whether the
  caller takes one more, which is what \<open>dir_emit\<close> returns.
\<close>

record dir_context =
  ctx_pos :: int
  ctx_out :: "(cstring \<times> int) list"

primrec readdir_loop ::
    "reader \<Rightarrow> ((cstring \<times> int) list \<Rightarrow> bool) \<Rightarrow> int \<Rightarrow> int list \<Rightarrow> dir_context \<Rightarrow> fs \<Rightarrow> (dir_context \<times> fs) option" where
  "readdir_loop pp actor dir [] ctx s = Some (ctx, s)"
| "readdir_loop pp actor dir (i # is) ctx s = do {
     (r, s1) \<leftarrow> pp s dir i False False;
     (case r of
        Inl e \<Rightarrow> readdir_loop pp actor dir is ctx s1
      | Inr k \<Rightarrow> do {
          pg \<leftarrow> cache s1 k;
          let name = de_name (pg_data pg);
          let ino = sint (de_ino (pg_data pg));
          let next = ctx\<lparr>ctx_pos := ctx_pos ctx + int PAGE_SIZE\<rparr>;
          if ino = 0 then readdir_loop pp actor dir is next s1
          else do {
            (q, s2) \<leftarrow> xcpfs_iget pp s1 ino;
            _ \<leftarrow> (case q of Inl e \<Rightarrow> None | Inr j \<Rightarrow> Some j);
            if actor (ctx_out ctx)
            then readdir_loop pp actor dir is (next\<lparr>ctx_out := ctx_out ctx @ [(name, ino)]\<rparr>) s2
            else Some (ctx, s2)
          }
        })
   }"

text \<open>\<open>xcpfs_readdir\<close>: the position is rounded up to a page boundary and used as the first page index.\<close>

definition xcpfs_readdir ::
    "reader \<Rightarrow> ((cstring \<times> int) list \<Rightarrow> bool) \<Rightarrow> fs \<Rightarrow> int \<Rightarrow> dir_context \<Rightarrow> (int \<times> dir_context \<times> fs) option" where
  "xcpfs_readdir pp actor s dir ctx = do {
     i \<leftarrow> inodes s dir;
     let pos = int_wrap ((int_wrap (ctx_pos ctx) + int PAGE_SIZE - 1) div int PAGE_SIZE * int PAGE_SIZE);
     (ctx', s1) \<leftarrow> readdir_loop pp actor dir [pos..dir_pages i - 1] (ctx\<lparr>ctx_pos := pos\<rparr>) s;
     Some (0, ctx', s1)
   }"

section \<open>Changing directories\<close>

text \<open>The kernel's link counting, and \<open>iput\<close> of the last reference.\<close>

definition inode_inc_link_count :: "int \<Rightarrow> fs \<Rightarrow> fs" where
  "inode_inc_link_count ino = upd_inode ino (\<lambda>i. i\<lparr>in_nlink := in_nlink i + 1, in_dirty := True\<rparr>)"

definition inode_dec_link_count :: "int \<Rightarrow> fs \<Rightarrow> fs" where
  "inode_dec_link_count ino = upd_inode ino (\<lambda>i. i\<lparr>in_nlink := in_nlink i - 1, in_dirty := True\<rparr>)"

definition iput_last :: "env \<Rightarrow> bdev \<Rightarrow> reader \<Rightarrow> device \<Rightarrow> fs \<Rightarrow> int \<Rightarrow> fs option" where
  "iput_last ev bd pp dev s ino = do {
     i \<leftarrow> inodes s ino;
     if in_nlink i = 0 then xcpfs_evict_inode ev bd pp dev s ino else Some s
   }"

text \<open>A section under \<open>xcpfs_down_read(&sbi->cp_sem)\<close>.\<close>

definition with_cp_read :: "(fs \<Rightarrow> ('a \<times> fs) option) \<Rightarrow> fs \<Rightarrow> ('a \<times> fs) option" where
  "with_cp_read f s = do {
     sem \<leftarrow> xcpfs_down_read (cp_sem s);
     (r, s1) \<leftarrow> f (s\<lparr>cp_sem := sem\<rparr>);
     Some (r, s1\<lparr>cp_sem := xcpfs_up_read (cp_sem s1)\<rparr>)
   }"

text \<open>The kernel's \<open>old_valid_dev\<close>: major and minor number of 8 bits.\<close>

definition old_valid_dev :: "u32 \<Rightarrow> bool" where
  "old_valid_dev dev \<longleftrightarrow> drop_bit 20 dev < 256 \<and> take_bit 20 dev < 256"

definition xcpfs_mknod ::
    "env \<Rightarrow> bdev \<Rightarrow> reader \<Rightarrow> device \<Rightarrow> fs \<Rightarrow> int \<Rightarrow> cstring \<Rightarrow> u16 \<Rightarrow> u32 \<Rightarrow> (int \<times> fs) option" where
  "xcpfs_mknod ev bd pp dev s dir name mode rdev =
     (if \<not> old_valid_dev rdev then Some (- EINVAL, s)
      else do {
        (r, s1) \<leftarrow> xcpfs_new_inode ev pp s dir mode;
        (case r of
           Inl e \<Rightarrow> Some (e, s1)
         | Inr (ino, obj) \<Rightarrow> do {
             (_, obj, s2) \<leftarrow> with_obj ino obj
               (\<lambda>s. Some ((), mark_inode_dirty ino (upd_inode ino (xcpfs_set_inode ino) s))) s1;
             (err, s3) \<leftarrow> with_cp_read (\<lambda>s. xcpfs_add_link ev pp s dir name ino) s2;
             if err = 0 then Some (0, s3)
             else do {
               (_, _, s4) \<leftarrow> with_obj ino obj
                 (\<lambda>s. map_option (Pair ()) (iput_last ev bd pp dev (inode_dec_link_count ino s) ino)) s3;
               Some (err, s4)
             }
           })
      })"

definition xcpfs_create ::
    "env \<Rightarrow> bdev \<Rightarrow> reader \<Rightarrow> device \<Rightarrow> fs \<Rightarrow> int \<Rightarrow> cstring \<Rightarrow> u16 \<Rightarrow> (int \<times> fs) option" where
  "xcpfs_create ev bd pp dev s dir name mode = xcpfs_mknod ev bd pp dev s dir name mode 0"

text \<open>\<open>xcpfs_init_dir\<close>: the entries \<open>.\<close> and \<open>..\<close>, both with the number of the new directory.\<close>

primrec init_dir_loop :: "reader \<Rightarrow> int \<Rightarrow> int list \<Rightarrow> fs \<Rightarrow> (int \<times> fs) option" where
  "init_dir_loop pp ino [] s = Some (0, s)"
| "init_dir_loop pp ino (i # is) s = do {
     (r, s1) \<leftarrow> pp s ino i True True;
     (case r of
        Inl e \<Rightarrow> Some (e, s1)
      | Inr k \<Rightarrow> do {
          pg \<leftarrow> cache s1 k;
          let name = (if i = 0 then [46] else [46, 46 :: u8]);
          let d = set_de_namelen (word_of_int (int (length name)))
                    (de_strcpy name (set_de_ino (word_of_int ino) (pg_data pg)));
          s2 \<leftarrow> commit_page k (set_data k d s1);
          init_dir_loop pp ino is s2
        })
   }"

definition xcpfs_init_dir :: "reader \<Rightarrow> fs \<Rightarrow> int \<Rightarrow> (int \<times> fs) option" where
  "xcpfs_init_dir pp s ino = init_dir_loop pp ino [0, 1] s"

definition xcpfs_mkdir ::
    "env \<Rightarrow> bdev \<Rightarrow> reader \<Rightarrow> device \<Rightarrow> fs \<Rightarrow> int \<Rightarrow> cstring \<Rightarrow> u16 \<Rightarrow> (int \<times> fs) option" where
  "xcpfs_mkdir ev bd pp dev s dir name mode = do {
     (r, s1) \<leftarrow> xcpfs_new_inode ev pp s dir (mode OR S_IFDIR);
     (case r of
        Inl e \<Rightarrow> Some (e, s1)
      | Inr (ino, obj) \<Rightarrow> do {
          (err, obj, s3) \<leftarrow> with_obj ino obj
            (\<lambda>s. xcpfs_init_dir pp (upd_inode ino (xcpfs_set_inode ino) (inode_inc_link_count ino s)) ino)
            (inode_inc_link_count dir s1);
          (err', s4) \<leftarrow> (if err \<noteq> 0 then Some (err, s3)
                         else with_cp_read (\<lambda>s. xcpfs_add_link ev pp s dir name ino) s3);
          if err' = 0 then Some (0, s4)
          else do {
            (_, _, s5) \<leftarrow> with_obj ino obj (\<lambda>s. map_option (Pair ())
              (iput_last ev bd pp dev (inode_dec_link_count ino (inode_dec_link_count ino s)) ino)) s4;
            Some (0, s5)
          }
        })
   }"

text \<open>\<open>xcpfs_delete_entry\<close> prepares the page again for writing.\<close>

definition clear_entry :: "bytes \<Rightarrow> bytes" where
  "clear_entry d = zero_range (set_de_namelen 0 (set_de_ino 0 d)) 0 XCPFS_MAX_FNAME_LEN"

definition xcpfs_delete_entry :: "env \<Rightarrow> reader \<Rightarrow> pkey \<Rightarrow> fs \<Rightarrow> (int \<times> fs) option" where
  "xcpfs_delete_entry ev pp k s = do {
     (r, s1) \<leftarrow> pp s (fst k) (snd k) True False;
     (case r of
        Inl e \<Rightarrow> Some (- EIO, s1)
      | Inr k \<Rightarrow> do {
          pg \<leftarrow> cache s1 k;
          s2 \<leftarrow> commit_page k (set_data k (clear_entry (pg_data pg)) s1);
          Some (0, upd_inode (fst k) (\<lambda>i. i\<lparr>in_mtime := current_time ev, in_dirty := True\<rparr>) s2)
        })
   }"

definition xcpfs_unlink :: "env \<Rightarrow> reader \<Rightarrow> fs \<Rightarrow> int \<Rightarrow> cstring \<Rightarrow> int \<Rightarrow> (int \<times> fs) option" where
  "xcpfs_unlink ev pp s dir name ino = do {
     (r, s1) \<leftarrow> xcpfs_find_entry pp s dir name;
     (case r of
        None \<Rightarrow> Some (- ENOENT, s1)
      | Some k \<Rightarrow> do {
          (err, s2) \<leftarrow> with_cp_read (xcpfs_delete_entry ev pp k) s1;
          if err \<noteq> 0 then Some (err, s2)
          else do {
            d \<leftarrow> inodes s2 dir;
            Some (0, mark_inode_dirty ino (inode_dec_link_count ino
              (upd_inode ino (\<lambda>i. i\<lparr>in_atime := in_atime d\<rparr>) s2)))
          }
        })
   }"

definition xcpfs_rmdir :: "env \<Rightarrow> reader \<Rightarrow> fs \<Rightarrow> int \<Rightarrow> cstring \<Rightarrow> int \<Rightarrow> (int \<times> fs) option" where
  "xcpfs_rmdir ev pp s dir name ino = do {
     (empty, s1) \<leftarrow> xcpfs_empty_dir pp s ino;
     if \<not> empty then Some (- ENOTEMPTY, s1)
     else do {
       (err, s2) \<leftarrow> with_cp_read (\<lambda>s. xcpfs_unlink ev pp s dir name ino) s1;
       if err \<noteq> 0 then Some (err, s2)
       else Some (0, inode_dec_link_count ino (inode_dec_link_count dir s2))
     }
   }"

section \<open>A directory as a list\<close>

text \<open>
  What a directory is: at each page an entry or a free place.  The operations on names, on that
  list.
\<close>

type_synonym dir_list = "(cstring \<times> int) option list"

primrec spec_lookup :: "cstring \<Rightarrow> dir_list \<Rightarrow> int" where
  "spec_lookup name [] = 0"
| "spec_lookup name (e # es) =
     (case e of
        None \<Rightarrow> spec_lookup name es
      | Some (n, i) \<Rightarrow> if n = name then i else spec_lookup name es)"

definition spec_has :: "cstring \<Rightarrow> dir_list \<Rightarrow> bool" where
  "spec_has name es \<longleftrightarrow> list_ex (\<lambda>e. map_option fst e = Some name) es"

primrec spec_place :: "cstring \<times> int \<Rightarrow> dir_list \<Rightarrow> dir_list" where
  "spec_place x [] = [Some x]"
| "spec_place x (e # es) = (if e = None then Some x # es else e # spec_place x es)"

primrec spec_remove :: "cstring \<Rightarrow> dir_list \<Rightarrow> dir_list" where
  "spec_remove name [] = []"
| "spec_remove name (e # es) = (if map_option fst e = Some name then None # es else e # spec_remove name es)"

text \<open>The entry of a page, the names the VFS passes, and entries as the code leaves them.\<close>

definition entry :: "bytes \<Rightarrow> (cstring \<times> int) option" where
  "entry d = (if de_ino d = 0 then None else Some (de_name d, sint (de_ino d)))"

definition name_ok :: "cstring \<Rightarrow> bool" where
  "name_ok name \<longleftrightarrow> name \<noteq> [] \<and> length name < 256 \<and> 0 \<notin> set name"

definition dentry_ok :: "bytes \<Rightarrow> bool" where
  "dentry_ok d \<longleftrightarrow>
     (if de_ino d = 0 then de_namelen d = 0
      else de_namelen d = word_of_int (int (length (de_name d))) \<and> length (de_name d) < 256)"

lemma dentry_offsets [layout]:
  "offset_of xcpfs_dentry ''ino'' = 256" "offset_of xcpfs_dentry ''namelen'' = 260"
  by (simp_all add: xcpfs_dentry_def XCPFS_MAX_FNAME_LEN_def)

lemmas de_defs = de_ino_def de_namelen_def set_de_ino_def set_de_namelen_def

lemma takeWhile_NUL: "(0 :: u8) \<notin> set name \<Longrightarrow> takeWhile (\<lambda>b. b \<noteq> 0) (name @ 0 # rest) = name"
  by (induction name) auto

lemma de_name_iff:
  assumes "0 \<notin> set name" "length name < 256"
  shows "de_name_eq name d \<longleftrightarrow> de_name d = name"
proof
  assume eq: "de_name_eq name d"
  have "map d [0..<256] = map d [0..<length name] @ d (length name) # map d [Suc (length name)..<256]"
    using assms(2) upt_add_eq_append [of 0 "length name" "256 - length name"] by (simp add: upt_rec [of "length name"])
  also have "map d [0..<length name] = name"
    using eq by (intro nth_equalityI) (simp_all add: de_name_eq_def list_all_iff)
  finally show "de_name d = name"
    using assms(1) eq by (simp add: de_name_def XCPFS_MAX_FNAME_LEN_def de_name_eq_def takeWhile_NUL)
next
  assume eq: "de_name d = name"
  let ?l = "map d [0..<256]" and ?P = "\<lambda>b. b \<noteq> 0"
  have n: "name = takeWhile ?P ?l" using eq by (simp add: de_name_def XCPFS_MAX_FNAME_LEN_def)
  have "d i = name ! i" if "i < length name" for i
    using that takeWhile_nth [of i ?P ?l] assms(2) unfolding n by simp
  moreover have "d (length name) = 0"
    using nth_length_takeWhile [of ?P ?l] assms(2) unfolding n by simp
  ultimately show "de_name_eq name d" by (simp add: de_name_eq_def list_all_iff)
qed

lemma short_word_inject:
  "m < 256 \<Longrightarrow> n < 256 \<Longrightarrow> (word_of_int (int m) :: u32) = word_of_int (int n) \<longleftrightarrow> m = n"
  by (simp add: word_unat_eq_iff unsigned_of_nat take_bit_nat_eq_self)

text \<open>Both comparisons of names in the code.\<close>

lemma name_matches:
  assumes "name_ok name" "dentry_ok d"
  shows "word_of_int (int (length name)) = de_namelen d \<and> de_name_eq name d \<longleftrightarrow> map_option fst (entry d) = Some name"
proof (cases "de_ino d = 0")
  case True
  have "(word_of_int (int (length name)) :: u32) \<noteq> word_of_int (int 0)"
    using assms(1) short_word_inject [of "length name" 0] by (auto simp: name_ok_def)
  then show ?thesis using True assms(2) by (simp add: entry_def dentry_ok_def)
next
  case False
  then show ?thesis
    using assms de_name_iff [of name d] by (auto simp: entry_def dentry_ok_def name_ok_def)
qed

lemma de_name_strcpy:
  assumes "name_ok name" "\<And>i. i < 256 \<Longrightarrow> d i = de_strcpy name d' i"
  shows "de_name d = name"
proof -
  have "de_name_eq name d" using assms by (simp add: de_name_eq_def list_all_iff name_ok_def de_strcpy_def)
  then show ?thesis using assms(1) de_name_iff by (simp add: name_ok_def)
qed

lemma fill_entry_fields:
  assumes "name_ok name" "ino \<noteq> 0" "int32 ino"
  shows "entry (fill_entry name ino d) = Some (name, ino) \<and> dentry_ok (fill_entry name ino d)"
proof -
  have n: "de_name (fill_entry name ino d) = name"
    by (rule de_name_strcpy [OF assms(1), of _ "set_de_ino (word_of_int ino) d"])
      (simp add: fill_entry_def set_de_ino_def set_de_namelen_def layout)
  moreover have "de_ino (fill_entry name ino d) = word_of_int ino"
    "de_namelen (fill_entry name ino d) = word_of_int (int (length name))"
    by (simp_all add: fill_entry_def de_defs layout)
  moreover have "(word_of_int ino :: u32) \<noteq> 0"
    using assms(2,3) sint_of_int32 [OF assms(3)] by fastforce
  ultimately show ?thesis using assms by (simp add: entry_def dentry_ok_def name_ok_def)
qed

lemma clear_entry_fields: "entry (clear_entry d) = None \<and> dentry_ok (clear_entry d)"
  by (simp add: entry_def dentry_ok_def clear_entry_def de_defs layout XCPFS_MAX_FNAME_LEN_def)

section \<open>Scans over pages in memory\<close>

text \<open>The bytes of page \<open>b\<close> of a directory.\<close>

definition dir_data :: "fs \<Rightarrow> int \<Rightarrow> int \<Rightarrow> bytes" where
  "dir_data s dir b = (case cache s (dir, b) of None \<Rightarrow> zero_bytes | Some p \<Rightarrow> pg_data p)"

definition dir_entries :: "fs \<Rightarrow> int \<Rightarrow> dir_list" where
  "dir_entries s dir =
     (case inodes s dir of
        None \<Rightarrow> []
      | Some i \<Rightarrow> map (\<lambda>b. entry (dir_data s dir b)) [0..dir_pages i - 1])"

text \<open>
  A directory of \<open>n\<close> pages in memory: its size is a whole number of pages (every commit makes it
  one), its pages can be used at once and hold entries as the code writes them.
\<close>

definition dir_loaded :: "fs \<Rightarrow> int \<Rightarrow> int \<Rightarrow> bool" where
  "dir_loaded s dir n \<longleftrightarrow> dir \<noteq> 2 \<and> 0 \<le> n \<and> (n + 1) * 4096 < 2 ^ 31 \<and>
     (\<exists>i. inodes s dir = Some i \<and> in_size i = n * 4096) \<and>
     (\<forall>b \<in> {0..<n}. resident s (dir, b) \<and> dentry_ok (dir_data s dir b))"

lemma dir_pages_aligned:
  assumes "in_size i = n * 4096" "0 \<le> n" "(n + 1) * 4096 < 2 ^ 31"
  shows "dir_pages i = n"
proof -
  have "(n * 4096 + 4096 - 1) div 4096 = n" by (rule int_div_pos_eq [where r = 4095]) simp_all
  then show ?thesis
    using assms by (simp add: dir_pages_def PAGE_SIZE_def int_wrap_id int32_def)
qed

lemma dir_loaded_D:
  assumes "dir_loaded s dir n"
  obtains i where "inodes s dir = Some i" "in_size i = n * 4096" "dir_pages i = n"
    "dir_entries s dir = map (\<lambda>b. entry (dir_data s dir b)) [0..n - 1]"
  using assms by (auto simp: dir_loaded_def dir_entries_def dir_pages_aligned)

text \<open>A scan without the pages.\<close>

primrec scan_list :: "(int \<Rightarrow> bytes \<Rightarrow> 'a \<Rightarrow> 'r + 'a) \<Rightarrow> (int \<Rightarrow> bytes) \<Rightarrow> int list \<Rightarrow> 'a \<Rightarrow> 'r + 'a" where
  "scan_list visit f [] acc = Inr acc"
| "scan_list visit f (i # is) acc =
     (case visit i (f i) acc of Inl r \<Rightarrow> Inl r | Inr acc' \<Rightarrow> scan_list visit f is acc')"

lemma scan_resident:
  "\<forall>b \<in> set l. resident s (dir, b) \<Longrightarrow>
    scan_pages (prepare_page bd (Suc m)) dir on_err visit l acc s = Some (scan_list visit (dir_data s dir) l acc, s)"
proof (induction l arbitrary: acc)
  case (Cons b l)
  then have r: "resident s (dir, b)" by simp
  then obtain p where "cache s (dir, b) = Some p" by (auto simp: resident_def split: option.splits)
  then show ?case
    using Cons prepare_resident [OF r, of bd m False False]
    by (auto simp: dir_data_def split: sum.split)
qed simp

lemma find_scan:
  "name_ok name \<Longrightarrow> \<forall>b \<in> set l. dentry_ok (f b) \<Longrightarrow>
    scan_list (find_visit name) f l () =
      (case find (\<lambda>b. map_option fst (entry (f b)) = Some name) l of None \<Rightarrow> Inr () | Some b \<Rightarrow> Inl b)"
proof (induction l)
  case (Cons b l)
  then have m: "word_of_int (int (length name)) = de_namelen (f b) \<and> de_name_eq name (f b) \<longleftrightarrow>
      map_option fst (entry (f b)) = Some name"
    by (intro name_matches) simp_all
  then have "find_visit name b (f b) () = (if map_option fst (entry (f b)) = Some name then Inl b else Inr ())"
    by (auto simp: find_visit_def entry_def split: if_splits)
  then show ?case using Cons by simp
qed simp

lemma add_scan:
  "name_ok name \<Longrightarrow> \<forall>b \<in> set l. dentry_ok (f b) \<and> b \<noteq> n \<Longrightarrow>
    scan_list (add_link_visit name n) f l acc =
      (if spec_has name (map (\<lambda>b. entry (f b)) l) then Inl (- EEXIST)
       else Inr (case find (\<lambda>b. entry (f b) = None) l of Some b \<Rightarrow> if acc = n then b else acc | None \<Rightarrow> acc))"
proof (induction l arbitrary: acc)
  case Nil
  then show ?case by (simp add: spec_has_def)
next
  case (Cons b l)
  then have m: "word_of_int (int (length name)) = de_namelen (f b) \<and> de_name_eq name (f b) \<longleftrightarrow>
      map_option fst (entry (f b)) = Some name"
    by (intro name_matches) simp_all
  have e: "de_ino (f b) = 0 \<longleftrightarrow> entry (f b) = None" by (simp add: entry_def)
  show ?case
    using Cons m e by (auto simp: add_link_visit_def spec_has_def split: option.split)
qed

lemma find_member: "find P l = Some x \<Longrightarrow> x \<in> set l \<and> P x"
  by (induction l) (auto split: if_splits)

lemma spec_lookup_find:
  "spec_lookup name (map g l) =
    (case find (\<lambda>b. map_option fst (g b) = Some name) l of None \<Rightarrow> 0 | Some b \<Rightarrow> snd (the (g b)))"
  by (induction l) (auto split: option.split)

lemma spec_place_map:
  "distinct l \<Longrightarrow> spec_place x (map g l) =
    (case find (\<lambda>b. g b = None) l of Some b \<Rightarrow> map (g(b \<mapsto> x)) l | None \<Rightarrow> map g l @ [Some x])"
  by (induction l) (auto split: option.split dest: find_member)

lemma spec_remove_map:
  "distinct l \<Longrightarrow> spec_remove name (map g l) =
    (case find (\<lambda>b. map_option fst (g b) = Some name) l of Some b \<Rightarrow> map (g(b := None)) l | None \<Rightarrow> map g l)"
  by (induction l) (auto split: option.split dest: find_member)

lemma spec_has_find:
  "spec_has name (map g l) \<longleftrightarrow> find (\<lambda>b. map_option fst (g b) = Some name) l \<noteq> None"
  by (induction l) (simp_all add: spec_has_def)

lemma find_entry_resident:
  assumes d: "dir_loaded s dir n" and name: "name_ok name"
  shows "xcpfs_find_entry (prepare_page bd (Suc m)) s dir name = Some (map_option (Pair dir)
    (find (\<lambda>b. map_option fst (entry (dir_data s dir b)) = Some name) [0..n - 1]), s)"
proof -
  have l: "\<forall>b \<in> set [0..n - 1]. resident s (dir, b)" "\<forall>b \<in> set [0..n - 1]. dentry_ok (dir_data s dir b)"
    using d by (auto simp: dir_loaded_def)
  show ?thesis
    using d by (elim dir_loaded_D)
      (simp add: xcpfs_find_entry_def scan_resident [OF l(1)] find_scan [OF name l(2)] split: option.split)
qed

section \<open>Storing one entry\<close>

text \<open>The page \<open>t\<close> of the directory is given the bytes \<open>d\<close> and committed.\<close>

lemma store_entry:
  assumes d: "dir_loaded s dir n" and t: "0 \<le> t" "t \<le> n" "(t + 2) * 4096 < 2 ^ 31" "\<not> page_locked s (dir, t)"
    and s2: "cache s2 = (cache s)((dir, t) \<mapsto> p)" "inodes s2 = inodes s" "bios s2 = bios s" and ok: "dentry_ok d'"
  shows "\<exists>s3 i. commit_page (dir, t) (set_data (dir, t) d' s2) = Some s3 \<and> cp_sem s3 = cp_sem s2 \<and>
    inodes s3 = (inodes s)(dir \<mapsto> i) \<and>
    (\<forall>f. (\<forall>i. in_size (f i) = in_size i) \<longrightarrow> dir_loaded (upd_inode dir f s3) dir (max n (t + 1)) \<and>
      dir_entries (upd_inode dir f s3) dir =
        map ((\<lambda>b. entry (dir_data s dir b))(t := entry d')) [0..max n (t + 1) - 1])"
proof -
  from d obtain i where i: "inodes s dir = Some i" "in_size i = n * 4096" and nn: "0 \<le> n" "(n + 1) * 4096 < 2 ^ 31" "dir \<noteq> 2"
    by (auto simp: dir_loaded_def)
  define i' where "i' = (if (t + 1) * 4096 > in_size i then i\<lparr>in_size := (t + 1) * 4096, in_dirty := True\<rparr> else i)"
  define s3 where "s3 = (set_data (dir, t) d' s2)\<lparr>cache := (cache s2)((dir, t) \<mapsto> p\<lparr>pg_data := d', pg_uptodate := True, pg_dirty := True\<rparr>),
    inodes := (inodes s)(dir \<mapsto> i')\<rparr>"
  have b: "(t + 1) * 4096 < 2 ^ 31" using t by simp
  have c: "cache (set_data (dir, t) d' s2) (dir, t) = Some (p\<lparr>pg_data := d'\<rparr>)" by (simp add: cache_upd_page s2)
  have upd: "(cache (set_data (dir, t) d' s2))((dir, t) \<mapsto> x) = (cache s2)((dir, t) \<mapsto> x)" for x
    by (simp add: upd_page_def)
  have e: "inodes (set_data (dir, t) d' s2) = inodes s" by (simp add: s2)
  then have "inodes (set_data (dir, t) d' s2) dir = Some i" using i by simp
  from commit_data_page [OF this nn(3) c t(1) b] have 1: "commit_page (dir, t) (set_data (dir, t) d' s2) = Some s3"
    unfolding s3_def i'_def upd e by simp
  have size: "in_size i' = max n (t + 1) * 4096" using i(2) by (auto simp: i'_def max_def)
  have data: "dir_data (upd_inode dir f s3) dir b = (if b = t then d' else dir_data s dir b)" for f b
    by (simp add: dir_data_def upd_inode_def s3_def s2)
  have res: "resident (upd_inode dir f s3) (dir, b)" if "b = t \<or> resident s (dir, b)" for f b
    using that t(4) s2 by (auto simp: resident_def upd_inode_def s3_def page_locked_def)
  have "dir_loaded (upd_inode dir f s3) dir (max n (t + 1)) \<and>
      dir_entries (upd_inode dir f s3) dir = map ((\<lambda>b. entry (dir_data s dir b))(t := entry d')) [0..max n (t + 1) - 1]"
    if f: "\<forall>i. in_size (f i) = in_size i" for f
  proof -
    have j: "inodes (upd_inode dir f s3) dir = Some (f i')" "in_size (f i') = max n (t + 1) * 4096"
      using f size by (simp_all add: upd_inode_def s3_def)
    have l: "dir_loaded (upd_inode dir f s3) dir (max n (t + 1))"
      unfolding dir_loaded_def
    proof (intro conjI ballI)
      show "\<exists>i. inodes (upd_inode dir f s3) dir = Some i \<and> in_size i = max n (t + 1) * 4096" using j by simp
      show "(max n (t + 1) + 1) * 4096 < 2 ^ 31" using nn t by (simp add: max_def)
      fix b assume "b \<in> {0..<max n (t + 1)}"
      then have "b = t \<or> b \<in> {0..<n}" using t(1,2) by (auto simp: max_def split: if_splits)
      then show "resident (upd_inode dir f s3) (dir, b)" "dentry_ok (dir_data (upd_inode dir f s3) dir b)"
        using d ok by (auto simp: dir_loaded_def data intro: res)
    qed (use nn in simp_all)
    then have "dir_entries (upd_inode dir f s3) dir =
        map (\<lambda>b. entry (dir_data (upd_inode dir f s3) dir b)) [0..max n (t + 1) - 1]"
      by (blast elim: dir_loaded_D)
    then show ?thesis using l by (simp add: data fun_upd_def if_distrib cong: map_cong)
  qed
  moreover have "cp_sem s3 = cp_sem s2" "inodes s3 = (inodes s)(dir \<mapsto> i')" by (simp_all add: s3_def)
  ultimately show ?thesis using 1 by blast
qed

section \<open>Properties of directories\<close>

text \<open>C13: Looking up a name in a directory whose pages are in memory gives the number of the first entry with
  that name, 0 when there is none, and changes nothing: the byte-wise search of the pages
  implements the lookup in the list of entries.\<close>

theorem inode_by_name_refines:
  assumes d: "dir_loaded s dir n" and name: "name_ok name"
  shows "xcpfs_inode_by_name (prepare_page bd (Suc m)) s dir name =
    Some (word_of_int (spec_lookup name (dir_entries s dir)), s)"
proof (cases "find (\<lambda>b. map_option fst (entry (dir_data s dir b)) = Some name) [0..n - 1]")
  case None
  then have "spec_lookup name (dir_entries s dir) = 0"
    using d by (elim dir_loaded_D) (simp only: spec_lookup_find option.case)
  then show ?thesis using find_entry_resident [OF d name] None by (simp add: xcpfs_inode_by_name_def)
next
  case (Some b)
  note m = find_member [OF Some]
  then have "resident s (dir, b)" using d by (auto simp: dir_loaded_def)
  then obtain p where p: "cache s (dir, b) = Some p" by (auto simp: resident_def split: option.splits)
  have "spec_lookup name (dir_entries s dir) = sint (de_ino (pg_data p))"
    using d m p Some by (elim dir_loaded_D)
      (simp only: spec_lookup_find option.case, auto simp: entry_def dir_data_def split: if_splits)
  then show ?thesis using find_entry_resident [OF d name, of bd m] Some p by (simp add: xcpfs_inode_by_name_def)
qed

text \<open>There is a place for one more entry: a free one in a page, or an unallocated block behind the end.\<close>

definition dir_room :: "fs \<Rightarrow> int \<Rightarrow> int \<Rightarrow> bool" where
  "dir_room s dir n \<longleftrightarrow> None \<in> set (dir_entries s dir) \<or>
     (\<exists>dk. block_slot s (dir, n) = Some (dk, 0) \<and> data_ino s dir \<and> \<not> page_locked s (dir, n) \<and>
       (\<forall>p. cache s (dir, n) = Some p \<longrightarrow> \<not> pg_uptodate p) \<and> (n + 2) * 4096 < 2 ^ 31)"

lemma add_link_stores:
  assumes d: "dir_loaded s dir n" and name: "name_ok name" "ino \<noteq> 0" "int32 ino"
    and new: "\<not> spec_has name (dir_entries s dir)"
    and t: "t = (case find (\<lambda>b. entry (dir_data s dir b) = None) [0..n - 1] of Some b \<Rightarrow> b | None \<Rightarrow> n)"
      "0 \<le> t" "t \<le> n" "(t + 2) * 4096 < 2 ^ 31" "\<not> page_locked s (dir, t)"
    and pp: "prepare_page bd (Suc m) s dir t True True = Some (Inr (dir, t), s2)"
      "cache s2 = (cache s)((dir, t) \<mapsto> p)" "inodes s2 = inodes s" "bios s2 = bios s"
  shows "\<exists>s'. xcpfs_add_link ev (prepare_page bd (Suc m)) s dir name ino = Some (0, s') \<and>
    dir_loaded s' dir (max n (t + 1)) \<and>
    dir_entries s' dir = map ((\<lambda>b. entry (dir_data s dir b))(t \<mapsto> (name, ino))) [0..max n (t + 1) - 1]"
proof -
  let ?d = "fill_entry name ino (pg_data p)"
  let ?f = "\<lambda>i. i\<lparr>in_mtime := current_time ev, in_atime := current_time ev, in_dirty := True\<rparr>"
  have e: "entry ?d = Some (name, ino)" "dentry_ok ?d" using fill_entry_fields [OF name] by simp_all
  from store_entry [OF d t(2,3,4,5) pp(2,3,4) e(2)] obtain s3 where
    3: "commit_page (dir, t) (set_data (dir, t) ?d s2) = Some s3"
    and r: "dir_loaded (upd_inode dir ?f s3) dir (max n (t + 1)) \<and> dir_entries (upd_inode dir ?f s3) dir =
        map ((\<lambda>b. entry (dir_data s dir b))(t := entry ?d)) [0..max n (t + 1) - 1]"
    by fastforce
  have l: "\<forall>b \<in> set [0..n - 1]. resident s (dir, b)" "\<forall>b \<in> set [0..n - 1]. dentry_ok (dir_data s dir b) \<and> b \<noteq> n"
    using d by (auto simp: dir_loaded_def)
  obtain i where i: "inodes s dir = Some i" "dir_pages i = n"
    "dir_entries s dir = map (\<lambda>b. entry (dir_data s dir b)) [0..n - 1]"
    using d by (blast elim: dir_loaded_D)
  have "scan_list (add_link_visit name n) (dir_data s dir) [0..n - 1] n = Inr t"
    using add_scan [OF name(1) l(2), of n] new i(3) t(1) by (simp split: option.split)
  then have "xcpfs_add_link ev (prepare_page bd (Suc m)) s dir name ino = Some (0, upd_inode dir ?f s3)"
    using i(1,2) pp(1,2) 3 by (simp add: xcpfs_add_link_def scan_resident [OF l(1)])
  then show ?thesis using r e(1) by auto
qed

text \<open>C3: Adding a name to a directory in memory refuses a name that exists with \<open>- EEXIST\<close> and changes nothing;
  otherwise, when there is a free place or an unallocated block behind the last page, it
  returns 0 and the list of entries is the old one with the new entry in the first free place
  or at the end.\<close>

theorem add_link_refines:
  assumes d: "dir_loaded s dir n" and name: "name_ok name" "ino \<noteq> 0" "int32 ino" and room: "dir_room s dir n"
  shows "if spec_has name (dir_entries s dir)
    then xcpfs_add_link ev (prepare_page bd (Suc (Suc m))) s dir name ino = Some (- EEXIST, s)
    else \<exists>s' n'. xcpfs_add_link ev (prepare_page bd (Suc (Suc m))) s dir name ino = Some (0, s') \<and>
      dir_loaded s' dir n' \<and> dir_entries s' dir = spec_place (name, ino) (dir_entries s dir)"
proof -
  have l: "\<forall>b \<in> set [0..n - 1]. resident s (dir, b)" "\<forall>b \<in> set [0..n - 1]. dentry_ok (dir_data s dir b) \<and> b \<noteq> n"
    using d by (auto simp: dir_loaded_def)
  obtain i where i: "inodes s dir = Some i" "dir_pages i = n"
    "dir_entries s dir = map (\<lambda>b. entry (dir_data s dir b)) [0..n - 1]"
    using d by (blast elim: dir_loaded_D)
  have n: "0 \<le> n" "(n + 1) * 4096 < 2 ^ 31" using d by (auto simp: dir_loaded_def)
  show ?thesis
  proof (cases "spec_has name (dir_entries s dir)")
    case True
    then have "scan_list (add_link_visit name n) (dir_data s dir) [0..n - 1] n = Inl (- EEXIST)"
      using add_scan [OF name(1) l(2), of n] i(3) by simp
    then show ?thesis
      using i(1,2) True by (simp add: xcpfs_add_link_def scan_resident [OF l(1)])
  next
    case False
    show ?thesis
    proof (cases "find (\<lambda>b. entry (dir_data s dir b) = None) [0..n - 1]")
      case None
      then have "None \<notin> set (dir_entries s dir)" by (auto simp: i(3) find_None_iff)
      then obtain dk where dk: "block_slot s (dir, n) = Some (dk, 0)" "data_ino s dir" "\<not> page_locked s (dir, n)"
        "\<forall>p. cache s (dir, n) = Some p \<longrightarrow> \<not> pg_uptodate p" "(n + 2) * 4096 < 2 ^ 31"
        using room by (auto simp: dir_room_def)
      have "prepare_page bd (Suc (Suc m)) s dir n True True = Some (Inr (dir, n), load_page s (dir, n) zero_bytes)"
        using prepare_data_page [OF dk(1,2) _ dk(3), of bd m True True] dk(4) by (simp add: blkaddr_ok_def)
      from add_link_stores [where ev = ev, OF d name False _ _ _ dk(5,3) this] None n
      obtain s' where "xcpfs_add_link ev (prepare_page bd (Suc (Suc m))) s dir name ino = Some (0, s')"
        "dir_loaded s' dir (n + 1)"
        "dir_entries s' dir = map ((\<lambda>b. entry (dir_data s dir b))(n \<mapsto> (name, ino))) [0..n]"
        by (fastforce simp: load_page_def)
      moreover have "[0..n] = [0..n - 1] @ [n]" using n(1) by (simp add: upto_rec2)
      ultimately show ?thesis
        using False None by (auto simp: i(3) spec_place_map intro!: exI)
    next
      case (Some t)
      then have t: "0 \<le> t" "t < n" using find_member by fastforce+
      then have r: "resident s (dir, t)" using d by (simp add: dir_loaded_def)
      then obtain p where p: "cache s (dir, t) = Some p" by (auto simp: resident_def split: option.splits)
      have "cache s = (cache s)((dir, t) \<mapsto> p)" using p by (simp add: fun_upd_idem)
      moreover have "\<not> page_locked s (dir, t)" using r by (simp add: resident_def)
      moreover have "(t + 2) * 4096 < 2 ^ 31" "max n (t + 1) = n" using t n by simp_all
      ultimately show ?thesis
        using add_link_stores [where ev = ev and p = p, OF d name False _ _ _ _ _ prepare_resident [OF r, of bd "Suc m" True True]] t False Some
        by (fastforce simp: i(3) spec_place_map)
    qed
  qed
qed

text \<open>A directory of three pages: an entry for itself, the file \<open>a\<close>, and a free place.\<close>

definition sample_page :: "bytes \<Rightarrow> page" where
  "sample_page d = \<lparr>pg_data = d, pg_uptodate = True, pg_dirty = False, pg_writeback = False\<rparr>"

definition sample_dir :: fs where
  "sample_dir = sample_cold\<lparr>
     inodes := (inodes sample_cold)(3 \<mapsto> xcpfs_alloc_inode\<lparr>in_size := 12288\<rparr>, 7 \<mapsto> xcpfs_alloc_inode),
     cache := (cache sample_cold)((3, 0) \<mapsto> sample_page (fill_entry [46] 3 zero_bytes),
       (3, 1) \<mapsto> sample_page (fill_entry [97] 7 zero_bytes), (3, 2) \<mapsto> sample_page zero_bytes)\<rparr>"

lemma three_pages: "b \<in> {0..<3} \<Longrightarrow> b = 0 \<or> b = 1 \<or> b = (2 :: int)"
  by auto

lemma sample_names: "name_ok [46]" "name_ok [97]" "name_ok [98]"
  by (simp_all add: name_ok_def)

lemma zero_entry: "entry zero_bytes = None" "dentry_ok zero_bytes"
  by (simp_all add: entry_def dentry_ok_def de_defs)

lemma sample_dir_data:
  "dir_data sample_dir 3 0 = fill_entry [46] 3 zero_bytes" "dir_data sample_dir 3 1 = fill_entry [97] 7 zero_bytes"
  "dir_data sample_dir 3 2 = zero_bytes" "bios sample_dir = []" "page_locked sample_dir k = False"
  "cp_sem sample_dir = init_xpcfs_rwsem" "inodes sample_dir 7 = Some xcpfs_alloc_inode"
  by (simp_all add: dir_data_def sample_dir_def sample_page_def page_locked_def) (simp_all add: sample_cold_def fs_with_zm_def)

lemma sample_dir_loaded: "dir_loaded sample_dir 3 3"
proof -
  have "resident sample_dir (3, b)" "dentry_ok (dir_data sample_dir 3 b)" if "b \<in> {0..<3}" for b
    using three_pages [OF that] fill_entry_fields [OF sample_names(1), of 3] fill_entry_fields [OF sample_names(2), of 7] zero_entry
    by (auto simp: sample_dir_data resident_def int32_def) (simp_all add: sample_dir_def sample_page_def)
  then show ?thesis by (simp add: dir_loaded_def) (simp add: sample_dir_def)
qed

lemma sample_dir_entries: "dir_entries sample_dir 3 = [Some ([46], 3), Some ([97], 7), None]"
proof -
  have "[0..3 - 1] = [0, 1, 2 :: int]" by (simp add: upto_rec1)
  then show ?thesis
    using sample_dir_loaded fill_entry_fields [OF sample_names(1), of 3] fill_entry_fields [OF sample_names(2), of 7] zero_entry
    by (elim dir_loaded_D) (simp add: sample_dir_data int32_def)
qed

theorem inode_by_name_refines_witness:
  "xcpfs_inode_by_name (prepare_page sample_bd (Suc 0)) sample_dir 3 [97] = Some (7, sample_dir)"
  using inode_by_name_refines [OF sample_dir_loaded sample_names(2), of sample_bd 0] by (simp add: sample_dir_entries)

theorem add_link_refines_witness:
  "\<exists>s'. xcpfs_add_link sample_env (prepare_page sample_bd (Suc (Suc 0))) sample_dir 3 [98] 9 = Some (0, s') \<and>
    dir_entries s' 3 = [Some ([46], 3), Some ([97], 7), Some ([98], 9)]"
proof -
  have "dir_room sample_dir 3 3" by (simp add: dir_room_def sample_dir_entries)
  from add_link_refines [OF sample_dir_loaded sample_names(3) _ _ this, of 9 sample_env sample_bd 0] show ?thesis
    by (auto simp: sample_dir_entries spec_has_def int32_def)
qed

text \<open>C8: Unlinking a name that is not in the directory returns \<open>- ENOENT\<close> and changes nothing.  A name
  that is there is removed: its entry becomes a free place and all others keep theirs, the link
  count of the inode drops by one, and the checkpoint semaphore is released.\<close>

theorem unlink_refines:
  assumes d: "dir_loaded s dir n" and name: "name_ok name" and sem: "\<not> sem_writer (cp_sem s)"
    and i: "inodes s ino = Some i" "ino \<noteq> dir"
  shows "if spec_has name (dir_entries s dir)
    then \<exists>s' j. xcpfs_unlink ev (prepare_page bd (Suc m)) s dir name ino = Some (0, s') \<and>
      dir_loaded s' dir n \<and> dir_entries s' dir = spec_remove name (dir_entries s dir) \<and>
      cp_sem s' = cp_sem s \<and> inodes s' ino = Some j \<and> in_nlink j = in_nlink i - 1
    else xcpfs_unlink ev (prepare_page bd (Suc m)) s dir name ino = Some (- ENOENT, s)"
proof (cases "find (\<lambda>b. map_option fst (entry (dir_data s dir b)) = Some name) [0..n - 1]")
  case None
  have "\<not> spec_has name (dir_entries s dir)"
    using d None by (elim dir_loaded_D) (simp only: spec_has_find not_not)
  then show ?thesis using find_entry_resident [OF d name, of bd m] None by (simp add: xcpfs_unlink_def)
next
  case (Some t)
  have e: "dir_entries s dir = map (\<lambda>b. entry (dir_data s dir b)) [0..n - 1]" using d by (blast elim: dir_loaded_D)
  have has: "spec_has name (dir_entries s dir)" unfolding e by (simp only: spec_has_find Some) simp
  have rm: "spec_remove name (dir_entries s dir) = map ((\<lambda>b. entry (dir_data s dir b))(t := None)) [0..n - 1]"
    unfolding e by (simp add: spec_remove_map Some [simplified])
  have t: "0 \<le> t" "t < n" using find_member [OF Some] by simp_all
  then have r: "resident s (dir, t)" using d by (simp add: dir_loaded_def)
  then obtain p where p: "cache s (dir, t) = Some p" by (auto simp: resident_def split: option.splits)
  define sem' where "sem' = (cp_sem s)\<lparr>sem_readers := Suc (sem_readers (cp_sem s))\<rparr>"
  define s1 where "s1 = s\<lparr>cp_sem := sem'\<rparr>"
  have down: "xcpfs_down_read (cp_sem s) = Some sem'" and up: "xcpfs_up_read sem' = cp_sem s"
    using sem by (simp_all add: rwsem_defs sem'_def)
  have r1: "resident s1 (dir, t)" using r by (simp add: s1_def resident_def page_locked_def)
  have "cache s1 = (cache s)((dir, t) \<mapsto> p)" using p by (simp add: s1_def fun_upd_idem)
  moreover have "inodes s1 = inodes s" "bios s1 = bios s" "\<not> page_locked s (dir, t)" "(t + 2) * 4096 < 2 ^ 31"
    "dentry_ok (clear_entry (pg_data p))"
    using r t d clear_entry_fields by (auto simp: s1_def resident_def dir_loaded_def)
  ultimately obtain s3 j where 3: "commit_page (dir, t) (set_data (dir, t) (clear_entry (pg_data p)) s1) = Some s3"
    "cp_sem s3 = cp_sem s1" "inodes s3 = (inodes s)(dir \<mapsto> j)"
    "\<And>f. (\<forall>i. in_size (f i) = in_size i) \<Longrightarrow> dir_loaded (upd_inode dir f s3) dir (max n (t + 1)) \<and>
      dir_entries (upd_inode dir f s3) dir =
        map ((\<lambda>b. entry (dir_data s dir b))(t := entry (clear_entry (pg_data p)))) [0..max n (t + 1) - 1]"
    using store_entry [OF d t(1), of s1 p "clear_entry (pg_data p)"] t(2) by fastforce
  let ?f = "\<lambda>i. i\<lparr>in_mtime := current_time ev, in_dirty := True\<rparr>"
  define s4 where "s4 = (upd_inode dir ?f s3)\<lparr>cp_sem := cp_sem s\<rparr>"
  have 4: "dir_loaded (upd_inode dir ?f s3) dir n"
    "dir_entries (upd_inode dir ?f s3) dir = spec_remove name (dir_entries s dir)"
    using 3(4) [of ?f] t(2) clear_entry_fields by (simp_all add: rm max_absorb1)
  have del: "xcpfs_delete_entry ev (prepare_page bd (Suc m)) (dir, t) s1 = Some (0, upd_inode dir ?f s3)"
    using prepare_resident [OF r1, of bd m True False] 3(1) p by (simp add: xcpfs_delete_entry_def s1_def)
  have sem4: "cp_sem (upd_inode dir ?f s3) = sem'" using 3(2) by (simp add: upd_inode_def s1_def)
  obtain j' where j': "inodes s4 dir = Some j'" using 3(3) by (simp add: s4_def upd_inode_def)
  define s5 where "s5 = mark_inode_dirty ino (inode_dec_link_count ino (upd_inode ino (\<lambda>i. i\<lparr>in_atime := in_atime j'\<rparr>) s4))"
  have "xcpfs_unlink ev (prepare_page bd (Suc m)) s dir name ino = Some (0, s5)"
    using find_entry_resident [OF d name, of bd m] Some down del j' sem4 up
    by (simp add: xcpfs_unlink_def with_cp_read_def s1_def s4_def s5_def)
  moreover have "dir_loaded s5 dir n" "dir_entries s5 dir = dir_entries (upd_inode dir ?f s3) dir" "cp_sem s5 = cp_sem s"
    using 4(1) i(2) by (auto simp: s5_def s4_def upd_inode_def inode_dec_link_count_def dir_loaded_def dir_entries_def
        dir_data_def resident_def page_locked_def)
  moreover have "\<exists>j. inodes s5 ino = Some j \<and> in_nlink j = in_nlink i - 1"
    using i 3(3) by (simp add: s5_def s4_def upd_inode_def inode_dec_link_count_def)
  ultimately show ?thesis using has 4(2) by auto
qed

theorem unlink_refines_witness:
  "\<exists>s' j. xcpfs_unlink sample_env (prepare_page sample_bd (Suc 0)) sample_dir 3 [97] 7 = Some (0, s') \<and>
    dir_entries s' 3 = [Some ([46], 3), None, None] \<and> inodes s' 7 = Some j \<and> in_nlink j = 0"
proof -
  have "\<not> sem_writer (cp_sem sample_dir)" by (simp add: sample_dir_data init_xpcfs_rwsem_def)
  from unlink_refines [OF sample_dir_loaded sample_names(2) this sample_dir_data(7), of sample_env sample_bd 0]
  show ?thesis by (auto simp: sample_dir_entries spec_has_def xcpfs_alloc_inode_def)
qed

text \<open>C31: Removing a directory that is in memory and has an entry behind its first two is refused with
  \<open>- ENOTEMPTY\<close>: neither it nor its parent changes.\<close>

theorem rmdir_nonempty:
  assumes "dir_loaded s ino n" "x \<in> set (drop 2 (dir_entries s ino))" "x \<noteq> None"
  shows "xcpfs_rmdir ev (prepare_page bd (Suc m)) s dir name ino = Some (- ENOTEMPTY, s)"
proof -
  obtain i where i: "inodes s ino = Some i" "dir_pages i = n"
    "dir_entries s ino = map (\<lambda>b. entry (dir_data s ino b)) [0..n - 1]"
    using assms(1) by (blast elim: dir_loaded_D)
  have "2 < length (dir_entries s ino)" using assms(2) by (cases "length (dir_entries s ino) \<le> 2") auto
  then have n: "2 < n" using i(3) by simp
  then have "[0..n - 1] = 0 # 1 # [2..n - 1]" by (simp add: upto_rec1)
  with assms(2,3) i(3) obtain b where b: "b \<in> set [2..n - 1]" "entry (dir_data s ino b) \<noteq> None" by auto
  have "scan_list empty_dir_visit f l () = Inl ()" if "\<exists>b \<in> set l. entry (f b) \<noteq> None" for f l
    using that by (induction l) (auto simp: empty_dir_visit_def entry_def)
  then have "scan_list empty_dir_visit (dir_data s ino) [2..n - 1] () = Inl ()" using b by blast
  moreover have "\<forall>b \<in> set [2..n - 1]. resident s (ino, b)" using assms(1) by (auto simp: dir_loaded_def)
  ultimately have "xcpfs_empty_dir (prepare_page bd (Suc m)) s ino = Some (False, s)"
    using i(1,2) n by (simp add: xcpfs_empty_dir_def scan_resident)
  then show ?thesis by (simp add: xcpfs_rmdir_def)
qed

definition sample_full_dir :: fs where
  "sample_full_dir = sample_dir\<lparr>cache := (cache sample_dir)((3, 2) \<mapsto> sample_page (fill_entry [98] 9 zero_bytes))\<rparr>"

lemma sample_full_dir:
  "dir_loaded sample_full_dir 3 3" "dir_entries sample_full_dir 3 = [Some ([46], 3), Some ([97], 7), Some ([98], 9)]"
proof -
  have e: "entry (fill_entry [98] 9 zero_bytes) = Some ([98], 9)" "dentry_ok (fill_entry [98] 9 zero_bytes)"
    using fill_entry_fields [OF sample_names(3), of 9] by (simp_all add: int32_def)
  have data: "dir_data sample_full_dir 3 b = (if b = 2 then fill_entry [98] 9 zero_bytes else dir_data sample_dir 3 b)" for b
    by (simp add: dir_data_def sample_full_dir_def sample_page_def)
  have "resident sample_full_dir (3, b)" if "resident sample_dir (3, b)" for b
    using that by (simp add: resident_def page_locked_def sample_full_dir_def sample_page_def)
  then show l: "dir_loaded sample_full_dir 3 3"
    using sample_dir_loaded e by (auto simp: dir_loaded_def data) (simp add: sample_full_dir_def)
  have "[0..3 - 1] = [0, 1, 2 :: int]" by (simp add: upto_rec1)
  moreover have "dir_entries sample_dir 3 = map (\<lambda>b. entry (dir_data sample_dir 3 b)) [0..3 - 1]"
    using sample_dir_loaded by (blast elim: dir_loaded_D)
  moreover have "dir_entries sample_full_dir 3 = map (\<lambda>b. entry (dir_data sample_full_dir 3 b)) [0..3 - 1]"
    using l by (blast elim: dir_loaded_D)
  ultimately show "dir_entries sample_full_dir 3 = [Some ([46], 3), Some ([97], 7), Some ([98], 9)]"
    using sample_dir_entries e by (simp add: data)
qed

theorem rmdir_nonempty_witness:
  "xcpfs_rmdir sample_env (prepare_page sample_bd (Suc 0)) sample_full_dir 1 [100] 3 = Some (- ENOTEMPTY, sample_full_dir)"
  by (rule rmdir_nonempty [OF sample_full_dir(1), of "Some ([98], 9)"]) (simp_all add: sample_full_dir(2))

section \<open>Listing a directory\<close>

lemma readdir_loop_resident:
  assumes "\<forall>b \<in> set l. resident s (dir, b)"
    "\<forall>b \<in> set l. \<forall>nm i. entry (dir_data s dir b) = Some (nm, i) \<longrightarrow> inodes s i \<noteq> None"
  shows "readdir_loop (prepare_page bd (Suc m)) (\<lambda>_. True) dir l ctx s =
    Some (\<lparr>ctx_pos = ctx_pos ctx + int (length l) * 4096,
           ctx_out = ctx_out ctx @ map the (filter (\<lambda>e. e \<noteq> None) (map (\<lambda>b. entry (dir_data s dir b)) l))\<rparr>, s)"
  using assms
proof (induction l arbitrary: ctx)
  case (Cons b l)
  then have r: "resident s (dir, b)" by simp
  then obtain p where p: "cache s (dir, b) = Some p" by (auto simp: resident_def split: option.splits)
  have "\<forall>b \<in> set l. resident s (dir, b)"
    "\<forall>b \<in> set l. \<forall>nm i. entry (dir_data s dir b) = Some (nm, i) \<longrightarrow> inodes s i \<noteq> None"
    using Cons.prems by auto
  note IH = Cons.IH [OF this]
  have z: "sint (de_ino (pg_data p)) = 0 \<longleftrightarrow> entry (dir_data s dir b) = None"
    by (simp add: entry_def dir_data_def p signed_eq_0_iff)
  show ?case
  proof (cases "entry (dir_data s dir b)")
    case None
    then show ?thesis
      using prepare_resident [OF r, of bd m False False] p IH z by (simp add: Let_def PAGE_SIZE_def algebra_simps)
  next
    case (Some e)
    then have e: "e = (de_name (pg_data p), sint (de_ino (pg_data p)))"
      by (simp add: entry_def dir_data_def p split: if_splits)
    then have "inodes s (sint (de_ino (pg_data p))) \<noteq> None" using Cons.prems(2) Some by simp
    then show ?thesis
      using prepare_resident [OF r, of bd m False False] p IH z Some e
      by (simp add: Let_def PAGE_SIZE_def algebra_simps iget_cached)
  qed
qed simp

text \<open>C25: Listing a directory in memory from its start, with a caller that takes every entry, emits exactly the
  entries in the order of their pages and moves the position behind the last page.\<close>

theorem readdir_lists_entries:
  assumes "dir_loaded s dir n" "\<forall>nm i. Some (nm, i) \<in> set (dir_entries s dir) \<longrightarrow> inodes s i \<noteq> None"
  shows "xcpfs_readdir (prepare_page bd (Suc m)) (\<lambda>_. True) s dir \<lparr>ctx_pos = 0, ctx_out = []\<rparr> =
    Some (0, \<lparr>ctx_pos = n * 4096, ctx_out = map the (filter (\<lambda>e. e \<noteq> None) (dir_entries s dir))\<rparr>, s)"
proof -
  obtain i where i: "inodes s dir = Some i" "dir_pages i = n"
    "dir_entries s dir = map (\<lambda>b. entry (dir_data s dir b)) [0..n - 1]"
    using assms(1) by (blast elim: dir_loaded_D)
  have l: "\<forall>b \<in> set [0..n - 1]. resident s (dir, b)" using assms(1) by (auto simp: dir_loaded_def)
  have e: "\<forall>b \<in> set [0..n - 1]. \<forall>nm i. entry (dir_data s dir b) = Some (nm, i) \<longrightarrow> inodes s i \<noteq> None"
  proof (intro ballI allI impI)
    fix b nm i' assume "b \<in> set [0..n - 1]" "entry (dir_data s dir b) = Some (nm, i')"
    then have "Some (nm, i') \<in> set (dir_entries s dir)"
      unfolding i(3) list.set_map by (rule_tac image_eqI) simp_all
    then show "inodes s i' \<noteq> None" using assms(2) by blast
  qed
  have "0 \<le> n" using assms(1) by (simp add: dir_loaded_def)
  then show ?thesis
    using i(1,2) readdir_loop_resident [OF l e]
    by (simp add: xcpfs_readdir_def i(3) PAGE_SIZE_def int_wrap_id int32_def)
qed

theorem readdir_lists_entries_witness:
  "xcpfs_readdir (prepare_page sample_bd (Suc 0)) (\<lambda>_. True) sample_dir 3 \<lparr>ctx_pos = 0, ctx_out = []\<rparr> =
    Some (0, \<lparr>ctx_pos = 12288, ctx_out = [([46], 3), ([97], 7)]\<rparr>, sample_dir)"
proof -
  have "inodes sample_dir 3 \<noteq> None" by (simp add: sample_dir_def)
  then show ?thesis
    using readdir_lists_entries [OF sample_dir_loaded, of sample_bd 0]
    by (auto simp: sample_dir_entries sample_dir_data(7))
qed

text \<open>C30: A caller that comes back for the rest gets nothing: from any position behind the start, a directory
  of up to 4096 pages in memory emits no entry, because the byte position is used as a page
  index.\<close>

theorem readdir_restart_emits_nothing:
  assumes "dir_loaded s dir n" "n \<le> 4096" "0 < ctx_pos ctx" "ctx_pos ctx < 2 ^ 31 - 4096"
  shows "\<exists>pos. xcpfs_readdir pp actor s dir ctx = Some (0, ctx\<lparr>ctx_pos := pos\<rparr>, s)"
proof -
  obtain i where i: "inodes s dir = Some i" "dir_pages i = n" using assms(1) by (blast elim: dir_loaded_D)
  define q where "q = (4095 + ctx_pos ctx) div 4096"
  have "1 \<le> q" using assms(3) zdiv_mono1 [of 4096 "4095 + ctx_pos ctx" 4096] by (simp add: q_def)
  moreover have "q * 4096 \<le> 4095 + ctx_pos ctx"
    using div_mult_mod_eq [of "4095 + ctx_pos ctx" 4096] pos_mod_sign [of 4096 "4095 + ctx_pos ctx"] unfolding q_def by linarith
  ultimately have "int_wrap (q * 4096) = q * 4096" "n - 1 < q * 4096" "int_wrap (ctx_pos ctx) = ctx_pos ctx"
    using assms by (simp_all add: int_wrap_id int32_def)
  moreover have "(ctx_pos ctx + 4095) div 4096 = q" by (simp add: q_def add.commute)
  ultimately show ?thesis
    using i by (auto simp: xcpfs_readdir_def PAGE_SIZE_def Let_def q_def [symmetric])
qed

theorem readdir_restart_emits_nothing_witness:
  "\<exists>pos. xcpfs_readdir (prepare_page sample_bd (Suc 0)) (\<lambda>_. True) sample_dir 3 \<lparr>ctx_pos = 4096, ctx_out = []\<rparr> =
    Some (0, \<lparr>ctx_pos = pos, ctx_out = []\<rparr>, sample_dir)"
  using readdir_restart_emits_nothing [OF sample_dir_loaded, of "\<lparr>ctx_pos = 4096, ctx_out = []\<rparr>"
      "prepare_page sample_bd (Suc 0)" "\<lambda>_. True"] by simp

section \<open>Making a directory never fails\<close>

text \<open>Whatever goes wrong, \<open>xcpfs_mkdir\<close> returns 0.\<close>

lemma mkdir_returns_0:
  "xcpfs_mkdir ev bd pp dev s dir name mode = Some (r, s') \<Longrightarrow> r = 0"
  by (auto simp: xcpfs_mkdir_def xcpfs_new_inode_def bind_eq_Some_conv Let_def split: if_splits sum.splits)

end
