(* ===== verification/Checkpoint.thy ===== *)
theory Checkpoint
  imports Dir
begin

text \<open>
  The checkpoint (\<open>checkpoint.c\<close>, \<open>flush_nat\<close> of \<open>nat_mgmt.c\<close>, \<open>flush_zit\<close> of
  \<open>zone_mgmt.c\<close>), the raw I/O of the super block (\<open>data.c\<close>) and the unmount part of
  \<open>super.c\<close>.  The kernel's writeback is modelled by its contract: it visits the dirty inodes and
  the dirty pages of a range in the order the parameter \<open>wb\<close> gives, and each write completes
  before the next page is visited.
\<close>

section \<open>Flushing the tables to their pages\<close>

text \<open>One round of \<open>flush_nat\<close>, for the entry of \<open>nat_list\<close> with the given node id.\<close>

definition put_raw_ne :: "nat \<Rightarrow> nat_entry \<Rightarrow> bytes \<Rightarrow> bytes" where
  "put_raw_ne off ne d =
     set_raw_ne_ino off (word_of_int (ne_ino ne)) (set_raw_ne_block_addr off (word_of_int (ne_block_addr ne)) d)"

definition flush_nat_entry :: "reader \<Rightarrow> int \<Rightarrow> fs \<Rightarrow> fs option" where
  "flush_nat_entry pp nid s = do {
     ne \<leftarrow> find_nid nid (nat_list (nm s));
     if \<not> ne_dirty ne then Some s
     else do {
       let off = umod nid (of_nat NAT_ENTRY_PER_BLOCK);
       (r, s1) \<leftarrow> read_raw_nat_block pp s (udiv nid (of_nat NAT_ENTRY_PER_BLOCK)) True;
       k \<leftarrow> page_of r;
       pg \<leftarrow> cache s1 k;
       ne1 \<leftarrow> find_nid nid (nat_list (nm s1));
       let s2 = set_data k (put_raw_ne (nat off) ne1 (pg_data pg)) s1;
       commit_page k (s2\<lparr>nm := write_nat nid (\<lambda>e. e\<lparr>ne_dirty := False\<rparr>) (nm s2)\<rparr>)
     }
   }"

text \<open>\<open>list_for_each_entry_safe\<close>: entries that are inserted meanwhile go to the head and are not visited.\<close>

definition flush_nat :: "reader \<Rightarrow> fs \<Rightarrow> (int \<times> fs) option" where
  "flush_nat pp s = map_option (Pair 0) (for_each (flush_nat_entry pp) (map ne_nid (nat_list (nm s))) s)"

definition put_ze :: "nat \<Rightarrow> xcpfs_zone_info \<Rightarrow> bytes \<Rightarrow> bytes" where
  "put_ze k zi d =
     copy_to_ze_valid_map k (zi_valid_map zi) (set_ze_vblocks k (zi_vblocks zi) (set_ze_zone_type k (zi_zone_type zi) d))"

definition flush_zit_zone :: "reader \<Rightarrow> nat \<Rightarrow> fs \<Rightarrow> fs option" where
  "flush_zit_zone pp i s = do {
     zi \<leftarrow> zone_at (zm s) (int i);
     if \<not> zi_dirty zi then Some s
     else do {
       (r, s1) \<leftarrow> pp s (fs_meta_ino s) (int (i div ZIT_ENTRY_PER_BLOCK + ZIT_START)) True True;
       k \<leftarrow> page_of r;
       pg \<leftarrow> cache s1 k;
       zi1 \<leftarrow> zone_at (zm s1) (int i);
       s2 \<leftarrow> commit_page k (set_data k (put_ze (i mod ZIT_ENTRY_PER_BLOCK) zi1 (pg_data pg)) s1);
       Some (s2\<lparr>zm := zone_upd (int i) (\<lambda>z. z\<lparr>zi_dirty := False\<rparr>) (zm s2)\<rparr>)
     }
   }"

definition flush_zit :: "reader \<Rightarrow> fs \<Rightarrow> (int \<times> fs) option" where
  "flush_zit pp s = map_option (Pair 0) (for_each (flush_zit_zone pp) [0..<nat (nr_zones (zm s))] s)"

section \<open>Writeback\<close>

text \<open>What the kernel finds: the dirty inodes, and the dirty pages of an inode in a range.\<close>

record writeback =
  wb_inodes :: "fs \<Rightarrow> int list"
  wb_pages :: "fs \<Rightarrow> int \<Rightarrow> int \<Rightarrow> int option \<Rightarrow> int list"

definition write_and_wait :: "bdev \<Rightarrow> reader \<Rightarrow> device \<Rightarrow> pkey \<Rightarrow> fs \<Rightarrow> fs option" where
  "write_and_wait bd pp dev k s = do {
     pg \<leftarrow> cache s k;
     if \<not> pg_dirty pg then Some s
     else do {
       (_, s1) \<leftarrow> xcpfs_write_data_page bd pp (upd_page k (\<lambda>p. p\<lparr>pg_dirty := False\<rparr>) s) k False;
       wait_on_page_writeback pp dev k s1
     }
   }"

text \<open>\<open>filemap_write_and_wait_range\<close>, with the range in pages.\<close>

definition filemap_write_and_wait_range ::
    "bdev \<Rightarrow> reader \<Rightarrow> device \<Rightarrow> writeback \<Rightarrow> int \<Rightarrow> int \<Rightarrow> int option \<Rightarrow> fs \<Rightarrow> fs option" where
  "filemap_write_and_wait_range bd pp dev wb ino first lim s =
     for_each (\<lambda>i. write_and_wait bd pp dev (ino, i)) (wb_pages wb s ino first lim) s"

text \<open>\<open>sync_inodes_sb\<close>: the pages of each dirty inode, then the inode itself when it is still dirty.\<close>

definition sync_inode :: "bdev \<Rightarrow> reader \<Rightarrow> device \<Rightarrow> writeback \<Rightarrow> int \<Rightarrow> fs \<Rightarrow> fs option" where
  "sync_inode bd pp dev wb ino s = do {
     s1 \<leftarrow> filemap_write_and_wait_range bd pp dev wb ino 0 None s;
     i \<leftarrow> inodes s1 ino;
     if in_dirty i
     then map_option snd (xcpfs_write_inode bd pp dev (upd_inode ino (\<lambda>i. i\<lparr>in_dirty := False\<rparr>) s1) ino True)
     else Some s1
   }"

definition sync_inodes_sb :: "bdev \<Rightarrow> reader \<Rightarrow> device \<Rightarrow> writeback \<Rightarrow> fs \<Rightarrow> fs option" where
  "sync_inodes_sb bd pp dev wb s = for_each (sync_inode bd pp dev wb) (wb_inodes wb s) s"

section \<open>The checkpoint\<close>

text \<open>\<open>init_cpsb\<close>; the field \<open>restart\<close> keeps what the allocator left in it.\<close>

definition init_cpsb :: "xcpfs_cpc \<Rightarrow> fs \<Rightarrow> xcpfs_cpc" where
  "init_cpsb c s = c\<lparr>cpc_nat_ptr := 0, cpc_raw_sb :=
     set_meta_nat_cnt 0
     (set_sb32 ''ssa_page_count'' (word_of_int (ssa_page_count s))
     (set_sb32 ''zit_page_count'' (word_of_int (zit_page_count s))
     (set_sb32 ''nat_page_count'' (word_of_int (nat_page_count s))
     (set_sb32 ''root_ino'' (word_of_int (fs_root_ino s))
     (set_sb32 ''node_ino'' (word_of_int (fs_node_ino s))
     (set_sb32 ''meta_ino'' (word_of_int (fs_meta_ino s))
     (set_sb32 ''magic'' XCPFS_MAGIC zero_bytes)))))))\<rparr>"

text \<open>
  The block at the label \<open>restart\<close>: the array of entries is cleared.  \<open>META_NAT_NR\<close> entries reach
  beyond the page, and then the store has no defined result.
\<close>

definition restart_cpsb :: "xcpfs_cpc \<Rightarrow> xcpfs_cpc option" where
  "restart_cpsb c =
     (let off = offset_of xcpfs_super_block ''meta_nat''; n = META_NAT_NR * sizeof xcpfs_nat_entry_sb in
      if off + n > PAGE_SIZE then None
      else Some (c\<lparr>cpc_restart := False, cpc_raw_sb := set_meta_nat_cnt 0 (zero_range (cpc_raw_sb c) off n)\<rparr>))"

text \<open>\<open>cp_append_nat(sb, lookup_nat(sb, nid))\<close>; an id without entry is dereferenced as NULL.\<close>

definition append_nid :: "reader \<Rightarrow> int \<Rightarrow> fs \<Rightarrow> fs option" where
  "append_nid pp nid s = do {
     (r, s1) \<leftarrow> lookup_nat pp s nid;
     ne \<leftarrow> r;
     cp_append_nat s1 ne
   }"

text \<open>One pass of \<open>do_checkpoint\<close> from the label on.\<close>

definition checkpoint_pass :: "bdev \<Rightarrow> reader \<Rightarrow> device \<Rightarrow> writeback \<Rightarrow> fs \<Rightarrow> fs option" where
  "checkpoint_pass bd pp dev wb s = do {
     c \<leftarrow> cpc s;
     c1 \<leftarrow> (if cpc_restart c then restart_cpsb c else Some c);
     sem \<leftarrow> xcpfs_down_write (cp_sem s);
     s1 \<leftarrow> sync_inodes_sb bd pp dev wb (s\<lparr>cpc := Some c1, cp_sem := sem, cp_phase := 1\<rparr>);
     s2 \<leftarrow> filemap_write_and_wait_range bd pp dev wb (fs_node_ino s1) (int (REG_NAT_START * NAT_ENTRY_PER_BLOCK)) None s1;
     (_, s3) \<leftarrow> flush_nat pp (s2\<lparr>cp_phase := 2\<rparr>);
     (_, s4) \<leftarrow> flush_zit pp s3;
     s5 \<leftarrow> filemap_write_and_wait_range bd pp dev wb (fs_meta_ino s4) (int REG_NAT_START) None s4;
     s6 \<leftarrow> filemap_write_and_wait_range bd pp dev wb (fs_meta_ino s5) 0 None s5;
     s7 \<leftarrow> filemap_write_and_wait_range bd pp dev wb (fs_node_ino s6) 0
             (Some (int (REG_NAT_START * NAT_ENTRY_PER_BLOCK) - 1)) s6;
     s8 \<leftarrow> append_nid pp 1 s7;
     s9 \<leftarrow> append_nid pp 3 s8;
     Some (s9\<lparr>cp_sem := xcpfs_up_write (cp_sem s9)\<rparr>)
   }"

partial_function (option) checkpoint_loop :: "bdev \<Rightarrow> reader \<Rightarrow> device \<Rightarrow> writeback \<Rightarrow> fs \<Rightarrow> (int \<times> fs) option" where
  "checkpoint_loop bd pp dev wb s = do {
     s1 \<leftarrow> checkpoint_pass bd pp dev wb s;
     c \<leftarrow> cpc s1;
     if cpc_restart c then checkpoint_loop bd pp dev wb s1 else Some (0, s1)
   }"

text \<open>\<open>junk\<close> is the memory \<open>kmalloc\<close> returns for the first \<open>struct xcpfs_cpc\<close>.\<close>

definition do_checkpoint :: "bdev \<Rightarrow> reader \<Rightarrow> device \<Rightarrow> writeback \<Rightarrow> xcpfs_cpc \<Rightarrow> fs \<Rightarrow> (int \<times> fs) option" where
  "do_checkpoint bd pp dev wb junk s =
     checkpoint_loop bd pp dev wb
       (case cpc s of None \<Rightarrow> s\<lparr>cpc := Some (init_cpsb junk s)\<rparr> | Some _ \<Rightarrow> s)"

section \<open>Raw I/O of the super block\<close>

text \<open>
  \<open>submit_bio_wait\<close> on a read and on a zone append: an error number (0 on success), and for the
  append the sector the device chose.
\<close>

record sb_device =
  sbd_read :: "int \<Rightarrow> int"
  sbd_append :: "sector \<Rightarrow> int \<times> sector"

definition xcpfs_grab_page :: "sb_device \<Rightarrow> fs \<Rightarrow> int \<Rightarrow> int + bytes" where
  "xcpfs_grab_page sd s block =
     (let b = int_wrap (block * 2 ^ PAGE_SECTORS_SHIFT) div 2 ^ PAGE_SECTORS_SHIFT; ret = sbd_read sd b in
      if ret \<noteq> 0 then Inl ret else Inr (disk s b))"

definition xcpfs_append_page :: "sb_device \<Rightarrow> fs \<Rightarrow> bytes \<Rightarrow> int \<Rightarrow> (int \<times> fs) option" where
  "xcpfs_append_page sd s d zid = do {
     zi \<leftarrow> zone_at (zm s) zid;
     let (ret, sector) = sbd_append sd (zi_start zi);
     if ret \<noteq> 0 then Some (ret, s)
     else Some (0, s\<lparr>disk := (disk s)(to_int (drop_bit PAGE_SECTORS_SHIFT sector) := d)\<rparr>)
   }"

text \<open>
  The comparison \<open>read_super\<close> and \<open>flush_super_block\<close> share, over the first two zones.
\<close>

definition sb_zone :: "xcpfs_zm_info \<Rightarrow> int option" where
  "sb_zone m = do {
     zone0 \<leftarrow> zone_at m 0;
     zone1 \<leftarrow> zone_at m 1;
     Some (if zi_cond zone0 = COND_EMPTY then 1
           else if zi_cond zone1 = COND_EMPTY then 0
           else if zi_wp zone0 > zi_wp zone1 - zone_size m then 1
           else 0)
   }"

text \<open>
  \<open>flush_super_block\<close>: without a checkpoint the page is a NULL dereference, and when the append
  fails the page is freed twice.
\<close>

definition flush_super_block :: "sb_device \<Rightarrow> fs \<Rightarrow> fs option" where
  "flush_super_block sd s = do {
     c \<leftarrow> cpc s;
     zid \<leftarrow> sb_zone (zm s);
     (ret, s1) \<leftarrow> xcpfs_append_page sd s (cpc_raw_sb c) zid;
     if ret \<noteq> 0 then None else Some s1
   }"

text \<open>\<open>xcpfs_put_super\<close> frees everything in memory; what remains is the medium.\<close>

definition xcpfs_put_super :: "sb_device \<Rightarrow> fs \<Rightarrow> (int \<Rightarrow> bytes) option" where
  "xcpfs_put_super sd s = map_option disk (flush_super_block sd s)"

section \<open>Flushing the NAT\<close>

text \<open>The entry of a node id in its NAT block, as stored in the page.\<close>

definition raw_nat :: "fs \<Rightarrow> int \<Rightarrow> int \<times> int" where
  "raw_nat s nid =
     (case cache s (nat_page s (nid div 455)) of
        None \<Rightarrow> (0, 0)
      | Some p \<Rightarrow> (sint (raw_ne_ino (pg_data p) (nat (nid mod 455))), sint (raw_ne_block_addr (pg_data p) (nat (nid mod 455)))))"

definition clean :: "nat_entry \<Rightarrow> nat_entry" where
  "clean e = e\<lparr>ne_dirty := False\<rparr>"

text \<open>The NAT blocks of the entries in use are in memory, and the entries fit the disk format.\<close>

definition nat_flushable :: "fs \<Rightarrow> bool" where
  "nat_flushable s \<longleftrightarrow> nat_ok (nm s) \<and> fs_meta_ino s \<noteq> 2 \<and> inodes s (fs_meta_ino s) \<noteq> None \<and>
     (\<forall>e \<in> set (nat_list (nm s)). 0 \<le> ne_nid e \<and> int32 (ne_nid e) \<and> int32 (ne_ino e) \<and> int32 (ne_block_addr e) \<and>
        resident s (nat_page s (ne_nid e div 455)))"

lemma nid_coords_eq: "(m :: int) div 455 = n div 455 \<Longrightarrow> m mod 455 = n mod 455 \<Longrightarrow> m = n"
  by (metis div_mult_mod_eq)

lemma raw_ne_put:
  assumes "int32 (ne_ino e)" "int32 (ne_block_addr e)"
  shows "sint (raw_ne_ino (put_raw_ne off e d) j) = (if j = off then ne_ino e else sint (raw_ne_ino d j))"
    "sint (raw_ne_block_addr (put_raw_ne off e d) j) = (if j = off then ne_block_addr e else sint (raw_ne_block_addr d j))"
  using assms by (simp_all add: put_raw_ne_def field_simps_disk)

lemma commit_other_page:
  assumes "inodes s ino = Some i" "ino \<noteq> 2" "cache s (ino, b) = Some p"
  shows "\<exists>i'. commit_page (ino, b) s = Some (s\<lparr>cache := (cache s)((ino, b) \<mapsto> p\<lparr>pg_uptodate := True, pg_dirty := True\<rparr>),
    inodes := (inodes s)(ino \<mapsto> i')\<rparr>)"
proof (cases "int_wrap (page_offset (ino, b) + 4096) > in_size i")
  case True
  then show ?thesis
    using assms by (auto simp: commit_page_def xcpfs_commit_write_def commit_write_locked_def PAGE_SIZE_def
        xcpfs_dirty_folio_def upd_page_def)
next
  case False
  have "(inodes s)(ino \<mapsto> i) = inodes s" using assms(1) by (simp add: fun_upd_idem)
  then have "commit_page (ino, b) s = Some (s\<lparr>cache := (cache s)((ino, b) \<mapsto> p\<lparr>pg_uptodate := True, pg_dirty := True\<rparr>),
      inodes := (inodes s)(ino \<mapsto> i)\<rparr>)"
    using assms False by (simp add: commit_page_def xcpfs_commit_write_def commit_write_locked_def PAGE_SIZE_def
        xcpfs_dirty_folio_def upd_page_def)
  then show ?thesis by blast
qed

lemma flush_nat_entry_dirty:
  assumes P: "nat_flushable s" and e: "find_nid nid (nat_list (nm s)) = Some e" "ne_dirty e"
  shows "\<exists>s'. flush_nat_entry (prepare_page bd (Suc n)) nid s = Some s' \<and> nat_flushable s' \<and>
    nm s' = write_nat nid clean (nm s) \<and> (\<forall>m. raw_nat s' m = (if m = nid then (ne_ino e, ne_block_addr e) else raw_nat s m)) \<and>
    fs_meta_ino s' = fs_meta_ino s \<and> (\<forall>k. resident s k \<longrightarrow> resident s' k)"
proof -
  let ?k = "nat_page s (nid div 455)"
  have m: "e \<in> set (nat_list (nm s))" "ne_nid e = nid" using find_nid_Some [OF e(1)] by simp_all
  then have w: "0 \<le> nid" "int32 nid" "int32 (ne_ino e)" "int32 (ne_block_addr e)" and r: "resident s ?k"
    using P by (auto simp: nat_flushable_def)
  obtain p where p: "cache s ?k = Some p" using r by (auto simp: resident_def split: option.splits)
  have coord: "udiv nid (of_nat NAT_ENTRY_PER_BLOCK) = nid div 455" "umod nid (of_nat NAT_ENTRY_PER_BLOCK) = nid mod 455"
    using w by (simp_all add: udiv_nonneg umod_nonneg layout)
  let ?d = "put_raw_ne (nat (nid mod 455)) e (pg_data p)"
  define s2 where "s2 = (set_data ?k ?d s)\<lparr>nm := write_nat nid clean (nm s)\<rparr>"
  obtain i where i: "inodes s (fs_meta_ino s) = Some i" "fs_meta_ino s \<noteq> 2" using P by (auto simp: nat_flushable_def)
  have "inodes s2 (fs_meta_ino s) = Some i" "cache s2 (fs_meta_ino s, nid div 455) = Some (p\<lparr>pg_data := ?d\<rparr>)"
    using i p by (simp_all add: s2_def cache_upd_page nat_page_def)
  from commit_other_page [OF this(1) i(2) this(2)] obtain i' where c:
    "commit_page ?k s2 = Some (s2\<lparr>cache := (cache s2)(?k \<mapsto> p\<lparr>pg_data := ?d, pg_uptodate := True, pg_dirty := True\<rparr>),
      inodes := (inodes s2)(fs_meta_ino s \<mapsto> i')\<rparr>)"
    by (auto simp: nat_page_def)
  define s' where "s' = s2\<lparr>cache := (cache s2)(?k \<mapsto> p\<lparr>pg_data := ?d, pg_uptodate := True, pg_dirty := True\<rparr>),
      inodes := (inodes s2)(fs_meta_ino s \<mapsto> i')\<rparr>"
  have run: "flush_nat_entry (prepare_page bd (Suc n)) nid s = Some s'"
    using prepare_resident [of s "fs_meta_ino s" "nid div 455" bd n True True] r e p c
    by (simp add: flush_nat_entry_def read_raw_nat_block_def page_of_def coord s2_def s'_def nat_page_def clean_def [abs_def])
  have nm: "nm s' = write_nat nid clean (nm s)" by (simp add: s'_def s2_def)
  have meta: "fs_meta_ino s' = fs_meta_ino s" by (simp add: s'_def s2_def)
  have cache: "cache s' k = (if k = ?k then Some (p\<lparr>pg_data := ?d, pg_uptodate := True, pg_dirty := True\<rparr>) else cache s k)" for k
    by (simp add: s'_def s2_def cache_upd_page)
  have bios: "bios s' = bios s" by (simp add: s'_def s2_def)
  have res: "resident s' k" if "resident s k" for k
    using that bios by (auto simp: resident_def cache page_locked_def split: option.splits)
  have raw: "raw_nat s' m = (if m = nid then (ne_ino e, ne_block_addr e) else raw_nat s m)" for m
  proof (cases "m div 455 = nid div 455")
    case True
    then have "m = nid \<longleftrightarrow> nat (m mod 455) = nat (nid mod 455)"
      using nid_coords_eq [of m nid] by (auto simp: eq_nat_nat_iff)
    with True show ?thesis
      by (simp add: raw_nat_def cache nat_page_def meta raw_ne_put [OF w(3,4)] p [unfolded nat_page_def])
  next
    case False
    then have "m \<noteq> nid" by blast
    then show ?thesis using False by (simp add: raw_nat_def cache nat_page_def meta)
  qed
  have set: "e' \<in> set (upd_nid nid clean l) \<Longrightarrow> \<exists>e \<in> set l. e' = e \<or> e' = clean e" for e' l
    by (induction l) (auto split: if_splits)
  have ok: "nat_ok (nm s')"
    unfolding nm using P by (intro write_nat_ok) (simp_all add: nat_flushable_def clean_def)
  have "nat_flushable s'"
    unfolding nat_flushable_def
  proof (intro conjI ballI)
    show "inodes s' (fs_meta_ino s') \<noteq> None" by (simp add: meta) (simp add: s'_def)
    fix e' assume "e' \<in> set (nat_list (nm s'))"
    then obtain e0 where "e0 \<in> set (nat_list (nm s))" "e' = e0 \<or> e' = clean e0"
      using set e(1) by (auto simp: nm write_nat_def)
    moreover from this have "0 \<le> ne_nid e0 \<and> int32 (ne_nid e0) \<and> int32 (ne_ino e0) \<and> int32 (ne_block_addr e0) \<and>
        resident s (nat_page s (ne_nid e0 div 455))"
      using P by (simp add: nat_flushable_def)
    ultimately show "0 \<le> ne_nid e'" "int32 (ne_nid e')" "int32 (ne_ino e')" "int32 (ne_block_addr e')"
      "resident s' (nat_page s' (ne_nid e' div 455))"
      using res by (auto simp: clean_def nat_page_def meta)
  qed (use ok i meta in simp_all)
  then show ?thesis using run nm raw meta res by blast
qed

lemma clean_nid [simp]: "ne_nid (clean e) = ne_nid e" "\<not> ne_dirty (clean e)" "ne_block_addr (clean e) = ne_block_addr e"
  by (simp_all add: clean_def)

lemma find_write_clean:
  "find_nid n (nat_list (write_nat nid clean m)) =
    (if n = nid then map_option clean (find_nid n (nat_list m)) else find_nid n (nat_list m))"
  by (auto simp: write_nat_def find_upd_nid)

text \<open>What flushing the entries of the given ids does to the cached entries and to the blocks.\<close>

definition nat_flushed :: "int set \<Rightarrow> fs \<Rightarrow> fs \<Rightarrow> bool" where
  "nat_flushed N s s' \<longleftrightarrow> fs_meta_ino s' = fs_meta_ino s \<and> (\<forall>k. resident s k \<longrightarrow> resident s' k) \<and>
     (\<forall>m. find_nid m (nat_list (nm s')) =
        (if m \<in> N then map_option clean (find_nid m (nat_list (nm s))) else find_nid m (nat_list (nm s)))) \<and>
     (\<forall>m. raw_nat s' m =
        (case find_nid m (nat_list (nm s)) of
           Some e \<Rightarrow> if ne_dirty e \<and> m \<in> N then (ne_ino e, ne_block_addr e) else raw_nat s m
         | None \<Rightarrow> raw_nat s m))"

lemma clean_clean [simp]: "clean (clean e) = clean e" "\<not> ne_dirty e \<Longrightarrow> clean e = e"
  by (simp_all add: clean_def)

lemma nat_flushed_step:
  assumes P: "nat_flushable s" and e: "find_nid nid (nat_list (nm s)) = Some e"
  shows "\<exists>s'. flush_nat_entry (prepare_page bd (Suc n)) nid s = Some s' \<and> nat_flushable s' \<and> nat_flushed {nid} s s'"
proof (cases "ne_dirty e")
  case True
  from flush_nat_entry_dirty [OF P e True, of bd n] show ?thesis
    by (auto simp: nat_flushed_def find_write_clean e True split: option.split)
next
  case False
  then show ?thesis using e P by (auto simp: flush_nat_entry_def nat_flushed_def split: option.split)
qed

lemma nat_flushed_comp:
  assumes "nat_flushed N s s1" "nat_flushed M s1 s'" "N \<inter> M = {}"
  shows "nat_flushed (N \<union> M) s s'"
proof -
  have "raw_nat s' m = (case find_nid m (nat_list (nm s)) of
      Some e \<Rightarrow> if ne_dirty e \<and> m \<in> N \<union> M then (ne_ino e, ne_block_addr e) else raw_nat s m
    | None \<Rightarrow> raw_nat s m)" for m
    using assms by (cases "find_nid m (nat_list (nm s))"; cases "m \<in> N") (auto simp: nat_flushed_def)
  moreover have "find_nid m (nat_list (nm s')) =
      (if m \<in> N \<union> M then map_option clean (find_nid m (nat_list (nm s))) else find_nid m (nat_list (nm s)))" for m
    using assms by (auto simp: nat_flushed_def option.map_comp comp_def)
  ultimately show ?thesis using assms(1,2) by (simp add: nat_flushed_def)
qed

lemma flush_loop:
  assumes "nat_flushable s" "\<forall>nid \<in> set l. find_nid nid (nat_list (nm s)) \<noteq> None" "distinct l"
  shows "\<exists>s'. for_each (flush_nat_entry (prepare_page bd (Suc n))) l s = Some s' \<and> nat_flushable s' \<and>
    nat_flushed (set l) s s'"
  using assms
proof (induction l arbitrary: s)
  case Nil
  then show ?case by (auto simp: nat_flushed_def split: option.split)
next
  case (Cons nid l)
  obtain e where "find_nid nid (nat_list (nm s)) = Some e" using Cons.prems(2) by auto
  from nat_flushed_step [OF Cons.prems(1) this, of bd n] obtain s1 where
    1: "flush_nat_entry (prepare_page bd (Suc n)) nid s = Some s1" "nat_flushable s1" "nat_flushed {nid} s s1" by blast
  have "\<forall>m \<in> set l. find_nid m (nat_list (nm s1)) \<noteq> None"
    using Cons.prems(2) 1(3) by (auto simp: nat_flushed_def)
  from Cons.IH [OF 1(2) this] Cons.prems(3) obtain s' where
    2: "for_each (flush_nat_entry (prepare_page bd (Suc n))) l s1 = Some s'" "nat_flushable s'" "nat_flushed (set l) s1 s'"
    by auto
  have "nat_flushed (set (nid # l)) s s'"
    using nat_flushed_comp [OF 1(3) 2(3)] Cons.prems(3) by simp
  then show ?case using 1(1) 2(1,2) by auto
qed

lemma lookup_uncached:
  assumes ok: "nat_ok m" and nid: "0 \<le> nid" "nat_block_ok (nid div 455)" "lookup_nat_cached m nid = None"
    and page: "resident s (nat_page s (nid div 455))"
  shows "\<exists>s'. lookup_nat (prepare_page bd (Suc n)) (s\<lparr>nm := m\<rparr>) nid =
    Some (if nid < 3 then None else Some (fresh_entry nid (raw_nat s nid)), s')"
proof -
  obtain pg where pg: "cache s (nat_page s (nid div 455)) = Some pg" using page by (auto simp: resident_def split: option.splits)
  have "nid < (nid div 455 + 1) * 455" by presburger
  then have "int32 nid" using nid unfolding nat_block_ok_def int32_def by linarith
  with nid have u: "udiv nid (of_nat NAT_ENTRY_PER_BLOCK) = nid div 455" by (simp add: udiv_455)
  have "lookup_nat_cached (insert_nat_block (nid div 455) (pg_data pg) m) nid =
      (if nid < 3 then None else Some (fresh_entry nid (raw_nat s nid)))"
    using nid(3) view_after_load [OF ok nid(2), of pg nid] by (simp add: nat_view_lookup raw_nat_def pg page_entry_def)
  moreover have "resident (s\<lparr>nm := m\<rparr>) (nat_page (s\<lparr>nm := m\<rparr>) (nid div 455))"
    "cache (s\<lparr>nm := m\<rparr>) (nat_page (s\<lparr>nm := m\<rparr>) (nid div 455)) = Some pg" using page pg by simp_all
  ultimately show ?thesis
    using load_nat_block_resident [of "s\<lparr>nm := m\<rparr>" "nid div 455" pg bd n] nid(3) by (simp add: lookup_nat_def u)
qed

section \<open>Properties of the checkpoint\<close>

text \<open>C6: With the NAT blocks in memory, \<open>flush_nat\<close> returns 0, leaves no entry of \<open>nat_list\<close> dirty, and
  writes the owner and block address of every dirty entry to its place in its block, and no other
  place.  From any cache that has forgotten the node id \<open>lookup_nat\<close> then finds them, except for the
  node ids below 3: those are written too, but \<open>lookup_nat\<close> skips them and returns NULL.\<close>

theorem flush_nat_lookup:
  assumes P: "nat_flushable s" and e: "e \<in> set (nat_list (nm s))" "ne_dirty e" "nat_block_ok (ne_nid e div 455)"
  shows "\<exists>s'. flush_nat (prepare_page bd (Suc n)) s = Some (0, s') \<and> (\<forall>x \<in> set (nat_list (nm s')). \<not> ne_dirty x) \<and>
    raw_nat s' (ne_nid e) = (ne_ino e, ne_block_addr e) \<and>
    (\<forall>k. (\<forall>x \<in> set (nat_list (nm s)). ne_dirty x \<longrightarrow> ne_nid x \<noteq> k) \<longrightarrow> raw_nat s' k = raw_nat s k) \<and>
    (\<forall>m. nat_ok m \<and> lookup_nat_cached m (ne_nid e) = None \<longrightarrow>
      (\<exists>s''. lookup_nat (prepare_page bd (Suc n)) (s'\<lparr>nm := m\<rparr>) (ne_nid e) =
        Some (if ne_nid e < 3 then None else Some (fresh_entry (ne_nid e) (ne_ino e, ne_block_addr e)), s'')))"
proof -
  let ?l = "map ne_nid (nat_list (nm s))"
  have ok: "nat_ok (nm s)" using P by (simp add: nat_flushable_def)
  then have d: "distinct ?l" by (simp add: nat_ok_def)
  have "\<forall>nid \<in> set ?l. find_nid nid (nat_list (nm s)) \<noteq> None" by (auto simp: find_nid_None)
  from flush_loop [OF P this d, of bd n] obtain s' where
    1: "for_each (flush_nat_entry (prepare_page bd (Suc n))) ?l s = Some s'" "nat_flushable s'" "nat_flushed (set ?l) s s'"
    by blast
  have "\<not> ne_dirty x" if x: "x \<in> set (nat_list (nm s'))" for x
  proof -
    have "nat_ok (nm s')" using 1(2) by (simp add: nat_flushable_def)
    then have "find_nid (ne_nid x) (nat_list (nm s')) = Some x" using find_nid_in [OF x] by (simp add: nat_ok_def)
    then have "map_option clean (find_nid (ne_nid x) (nat_list (nm s))) = Some x"
      using 1(3) by (auto simp: nat_flushed_def find_nid_None split: if_splits dest: find_nid_Some)
    then show ?thesis by auto
  qed
  moreover have "find_nid (ne_nid e) (nat_list (nm s)) = Some e" using find_nid_in [OF e(1) d] .
  then have raw: "raw_nat s' (ne_nid e) = (ne_ino e, ne_block_addr e)"
    using 1(3) e(1,2) by (simp add: nat_flushed_def)
  have res: "resident s' (nat_page s' (ne_nid e div 455))"
    using P e(1) 1(3) by (simp add: nat_flushable_def nat_flushed_def nat_page_def)
  have nid0: "0 \<le> ne_nid e" using P e(1) by (simp add: nat_flushable_def)
  have "\<exists>s''. lookup_nat (prepare_page bd (Suc n)) (s'\<lparr>nm := m\<rparr>) (ne_nid e) =
      Some (if ne_nid e < 3 then None else Some (fresh_entry (ne_nid e) (ne_ino e, ne_block_addr e)), s'')"
    if "nat_ok m" "lookup_nat_cached m (ne_nid e) = None" for m
    using lookup_uncached [OF that(1) nid0 e(3) that(2) res, of bd n] unfolding raw .
  moreover have "raw_nat s' k = raw_nat s k" if "\<forall>x \<in> set (nat_list (nm s)). ne_dirty x \<longrightarrow> ne_nid x \<noteq> k" for k
    using 1(3) that by (auto simp: nat_flushed_def split: option.split dest: find_nid_Some)
  ultimately show ?thesis using 1(1) raw by (simp add: flush_nat_def)
qed

text \<open>A NAT cache whose entry for node id 7 is dirty.\<close>

definition sample_dirty_nat :: fs where
  "sample_dirty_nat = sample_nat_fs\<lparr>nm := \<lparr>cached_nat_count = 1, nat_list = [(sample_ne 7 50)\<lparr>ne_dirty := True\<rparr>],
     free_nat = [], cp_nat = []\<rparr>\<rparr>"

theorem flush_nat_lookup_witness:
  "\<exists>s' s''. flush_nat (prepare_page sample_bd (Suc 0)) sample_dirty_nat = Some (0, s') \<and>
    lookup_nat (prepare_page sample_bd (Suc 0)) (s'\<lparr>nm := sample_nm\<rparr>) 7 = Some (Some (fresh_entry 7 (7, 50)), s'')"
proof -
  have "inodes sample_nat_fs 1 \<noteq> None" by (simp add: sample_nat_fs_def sample_cold_def)
  then have P: "nat_flushable sample_dirty_nat"
    by (simp add: nat_flushable_def sample_dirty_nat_def nat_ok_def sample_ne_def int32_def nat_page_def)
  have "lookup_nat_cached sample_nm 7 = None" by (simp add: lookup_nat_cached_def sample_nm_def sample_ne_def)
  with flush_nat_lookup [OF P, of "(sample_ne 7 50)\<lparr>ne_dirty := True\<rparr>" sample_bd 0] sample_nm_ok show ?thesis
    by (auto simp: sample_dirty_nat_def sample_ne_def nat_block_ok_def)
qed

section \<open>The super block being built\<close>

text \<open>The entries of a super block, and its scalar fields.\<close>

definition sb_entry :: "bytes \<Rightarrow> nat \<Rightarrow> int \<times> int \<times> int" where
  "sb_entry d k = (sint (meta_nat32 d k ''nid''), sint (meta_nat32 d k ''ino''), sint (meta_nat32 d k ''block_addr''))"

definition sb_entries :: "bytes \<Rightarrow> (int \<times> int \<times> int) list" where
  "sb_entries d = map (sb_entry d) [0..<unat (meta_nat_cnt d)]"

definition sb_scalars :: "bytes \<Rightarrow> u32 list" where
  "sb_scalars d = map (sb32 d) [''magic'', ''root_ino'', ''meta_ino'', ''node_ino'', ''nat_page_count'',
     ''zit_page_count'', ''ssa_page_count'']"

text \<open>The page after \<open>cp_append_nat\<close>.\<close>

definition append_entry :: "nat_entry \<Rightarrow> bytes \<Rightarrow> bytes" where
  "append_entry ne d = (let n = unat (meta_nat_cnt d) in
     set_meta_nat_cnt (meta_nat_cnt d + 1)
       (set_meta_nat32 n ''ino'' (word_of_int (ne_ino ne))
         (set_meta_nat32 n ''block_addr'' (word_of_int (ne_block_addr ne))
           (set_meta_nat32 n ''nid'' (word_of_int (ne_nid ne)) d))))"

lemma meta_nat_set [field_simps_disk]:
  assumes "f \<in> {''nid'', ''ino'', ''block_addr''}" "g \<in> {''nid'', ''ino'', ''block_addr''}"
  shows "meta_nat32 (set_meta_nat32 k f v d) j g = (if j = k \<and> f = g then v else meta_nat32 d j g)"
  using assms array_disjoint [of j k 30 13]
  by (cases "j = k") (auto simp: meta_nat32_def set_meta_nat32_def sb_offsets)

lemma meta_nat_other [field_simps_disk]:
  assumes "f \<in> {''nid'', ''ino'', ''block_addr''}"
  shows "meta_nat_cnt (set_meta_nat32 k f v d) = meta_nat_cnt d" "meta_nat32 (set_meta_nat_cnt c d) k f = meta_nat32 d k f"
    "sb_scalars (set_meta_nat32 k f v d) = sb_scalars d"
  using assms by (auto simp: sb_field_defs sb_offsets sb_scalars_def)

lemma meta_nat_cnt_set [field_simps_disk]:
  "meta_nat_cnt (set_meta_nat_cnt c d) = c" "sb_scalars (set_meta_nat_cnt c d) = sb_scalars d"
  by (simp_all add: sb_field_defs sb_offsets sb_scalars_def)

lemma append_entry_fields:
  assumes n: "unat (meta_nat_cnt d) < 312"
  shows "sb_entries (append_entry ne d) = sb_entries d @
      [(sint (word_of_int (ne_nid ne) :: u32), sint (word_of_int (ne_ino ne) :: u32), sint (word_of_int (ne_block_addr ne) :: u32))]"
    "sb_scalars (append_entry ne d) = sb_scalars d"
proof -
  have c: "unat (meta_nat_cnt d + 1) = Suc (unat (meta_nat_cnt d))"
    using n by (simp add: unat_word_ariths)
  have "sb_entry (append_entry ne d) k = (if k = unat (meta_nat_cnt d)
      then (sint (word_of_int (ne_nid ne) :: u32), sint (word_of_int (ne_ino ne) :: u32), sint (word_of_int (ne_block_addr ne) :: u32))
      else sb_entry d k)" for k
    by (simp add: sb_entry_def append_entry_def Let_def field_simps_disk)
  moreover have "meta_nat_cnt (append_entry ne d) = meta_nat_cnt d + 1"
    by (simp add: append_entry_def Let_def field_simps_disk)
  ultimately show "sb_entries (append_entry ne d) = sb_entries d @
      [(sint (word_of_int (ne_nid ne) :: u32), sint (word_of_int (ne_ino ne) :: u32), sint (word_of_int (ne_block_addr ne) :: u32))]"
    by (simp add: sb_entries_def c)
  show "sb_scalars (append_entry ne d) = sb_scalars d"
    by (simp add: append_entry_def Let_def field_simps_disk)
qed

lemma cp_append_nat_eq:
  assumes "cpc s = Some c"
  shows "cp_append_nat s ne =
    (if unat (meta_nat_cnt (cpc_raw_sb c)) < 312
     then Some (s\<lparr>cpc := Some (c\<lparr>cpc_raw_sb := append_entry ne (cpc_raw_sb c)\<rparr>)\<rparr>) else None)"
  using assms by (simp add: cp_append_nat_def append_entry_def Let_def layout PAGE_SIZE_def field_simps_disk)

text \<open>C29: The super block has room for 312 entries, one less than \<open>META_NAT_NR\<close>: \<open>cp_append_nat\<close> stores an
  entry behind the ones there are and keeps all scalar fields as long as there are fewer, and
  the next entry leaves the page.\<close>

theorem cp_append_nat_bound:
  assumes c: "cpc s = Some c" and e: "int32 (ne_nid ne)" "int32 (ne_ino ne)" "int32 (ne_block_addr ne)"
  shows "META_NAT_NR = 313 \<and>
    (if unat (meta_nat_cnt (cpc_raw_sb c)) < 312
     then \<exists>d. cp_append_nat s ne = Some (s\<lparr>cpc := Some (c\<lparr>cpc_raw_sb := d\<rparr>)\<rparr>) \<and>
       sb_entries d = sb_entries (cpc_raw_sb c) @ [(ne_nid ne, ne_ino ne, ne_block_addr ne)] \<and>
       sb_scalars d = sb_scalars (cpc_raw_sb c)
     else cp_append_nat s ne = None)"
proof (cases "unat (meta_nat_cnt (cpc_raw_sb c)) < 312")
  case True
  with append_entry_fields [of "cpc_raw_sb c" ne] e show ?thesis
    by (intro conjI) (simp add: layout, simp add: cp_append_nat_eq [OF c], blast)
next
  case False
  then show ?thesis by (simp add: cp_append_nat_eq [OF c] layout)
qed

theorem cp_append_nat_bound_witness:
  "\<exists>d. cp_append_nat (sample_cold\<lparr>cpc := Some \<lparr>cpc_nat_ptr = 0, cpc_restart = False, cpc_raw_sb = zero_bytes\<rparr>\<rparr>) (sample_ne 1 16) =
      Some (sample_cold\<lparr>cpc := Some \<lparr>cpc_nat_ptr = 0, cpc_restart = False, cpc_raw_sb = d\<rparr>\<rparr>) \<and>
    sb_entries d = [(1, 1, 16)]"
proof -
  have "meta_nat_cnt zero_bytes = 0" by (simp add: sb_field_defs)
  then show ?thesis
    using cp_append_nat_bound [of "sample_cold\<lparr>cpc := Some \<lparr>cpc_nat_ptr = 0, cpc_restart = False, cpc_raw_sb = zero_bytes\<rparr>\<rparr>"
        "\<lparr>cpc_nat_ptr = 0, cpc_restart = False, cpc_raw_sb = zero_bytes\<rparr>" "sample_ne 1 16"]
    by (auto simp: sample_ne_def int32_def sb_entries_def)
qed

section \<open>A checkpoint\<close>

lemma lookup_nat_nid: "lookup_nat pp s nid = Some (Some ne, s') \<Longrightarrow> ne_nid ne = nid"
  by (auto simp: lookup_nat_def bind_eq_Some_conv lookup_nat_cached_def dest!: find_nid_Some split: option.splits)

lemma append_nid_result:
  assumes "append_nid pp nid s = Some s'" "int32 nid"
  shows "\<exists>c0 c x. cpc s' = Some c \<and> cpc_restart c = cpc_restart c0 \<and> sb_entries (cpc_raw_sb c) = sb_entries (cpc_raw_sb c0) @ [x] \<and>
    fst x = nid \<and> (\<exists>s1 r. lookup_nat pp s nid = Some (r, s1) \<and> cpc s1 = Some c0)"
proof -
  from assms(1) obtain ne s1 where 1: "lookup_nat pp s nid = Some (Some ne, s1)" "cp_append_nat s1 ne = Some s'"
    by (auto simp: append_nid_def bind_eq_Some_conv)
  then obtain c0 where c0: "cpc s1 = Some c0" by (auto simp: cp_append_nat_def bind_eq_Some_conv)
  with 1(2) have n: "unat (meta_nat_cnt (cpc_raw_sb c0)) < 312"
    "s' = s1\<lparr>cpc := Some (c0\<lparr>cpc_raw_sb := append_entry ne (cpc_raw_sb c0)\<rparr>)\<rparr>"
    by (simp_all add: cp_append_nat_eq split: if_splits)
  from append_entry_fields(1) [OF n(1), of ne] lookup_nat_nid [OF 1(1)] show ?thesis
    using n(2) 1(1) c0 assms(2) by auto
qed

text \<open>What the last two steps of a pass leave in the super block.\<close>

definition records_roots :: "fs \<Rightarrow> bool" where
  "records_roots s \<longleftrightarrow> \<not> sem_writer (cp_sem s) \<and>
     (\<exists>c l x y. cpc s = Some c \<and> sb_entries (cpc_raw_sb c) = l @ [x, y] \<and> fst x = 1 \<and> fst y = 3)"

lemma checkpoint_pass_records:
  assumes "checkpoint_pass bd (prepare_page bd n) dev wb s = Some s'"
  shows "records_roots s'"
proof -
  from assms obtain s7 s8 s9 where
    1: "append_nid (prepare_page bd n) 1 s7 = Some s8" "append_nid (prepare_page bd n) 3 s8 = Some s9"
    "s' = s9\<lparr>cp_sem := xcpfs_up_write (cp_sem s9)\<rparr>"
    unfolding checkpoint_pass_def bind_eq_Some_conv case_prod_unfold by blast
  have i: "int32 1" "int32 3" by (simp_all add: int32_def)
  from append_nid_result [OF 1(1) i(1)] obtain c x where 8: "cpc s8 = Some c" "fst x = 1"
    "\<exists>l. sb_entries (cpc_raw_sb c) = l @ [x]" by blast
  from append_nid_result [OF 1(2) i(2)] obtain c0 c' y s1 r where 9: "cpc s9 = Some c'" "fst y = 3"
    "sb_entries (cpc_raw_sb c') = sb_entries (cpc_raw_sb c0) @ [y]"
    "lookup_nat (prepare_page bd n) s8 3 = Some (r, s1)" "cpc s1 = Some c0" by blast
  have "cpc s1 = cpc s8" using pr.lookup_nat_ext [OF 9(4)] by (rule read_ext_same)
  then have "c0 = c" using 8(1) 9(5) by simp
  then obtain l where "sb_entries (cpc_raw_sb c') = l @ [x, y]" using 8(3) 9(3) by auto
  moreover have "cpc s' = Some c'" "\<not> sem_writer (cp_sem s')" using 1(3) 9(1) by (simp_all add: xcpfs_up_write_def)
  ultimately show ?thesis using 8(2) 9(2) unfolding records_roots_def by blast
qed

text \<open>C19: A checkpoint that comes to its end returns 0, has released the semaphore, is not due for another
  pass, and the last two entries of its super block are those of the meta inode (node id 1)
  and of the root (node id 3), whatever it wrote on the way.\<close>

theorem checkpoint_records_roots:
  assumes "do_checkpoint bd (prepare_page bd n) dev wb junk s = Some (r, s')"
  shows "r = 0 \<and> records_roots s' \<and> \<not> (case cpc s' of Some c \<Rightarrow> cpc_restart c | None \<Rightarrow> True)"
proof -
  have "q = prepare_page bd n \<longrightarrow>
      fst x = 0 \<and> records_roots (snd x) \<and> \<not> (case cpc (snd x) of Some c \<Rightarrow> cpc_restart c | None \<Rightarrow> True)"
    if "checkpoint_loop bd q dev wb s = Some x" for q s x
    using that
  proof (rule checkpoint_loop.raw_induct [where P = "\<lambda>bd q dev wb s x. q = prepare_page bd n \<longrightarrow>
      fst x = 0 \<and> records_roots (snd x) \<and> \<not> (case cpc (snd x) of Some c \<Rightarrow> cpc_restart c | None \<Rightarrow> True)", rotated])
    fix f bd q dev wb s and x :: "int \<times> fs"
    assume IH: "\<And>bd q dev wb s x. f bd q dev wb s = Some x \<Longrightarrow> q = prepare_page bd n \<longrightarrow>
        fst x = 0 \<and> records_roots (snd x) \<and> \<not> (case cpc (snd x) of Some c \<Rightarrow> cpc_restart c | None \<Rightarrow> True)"
      and run: "do { s1 \<leftarrow> checkpoint_pass bd q dev wb s; c \<leftarrow> cpc s1;
        if cpc_restart c then f bd q dev wb s1 else Some (0, s1) } = Some x"
    show "q = prepare_page bd n \<longrightarrow>
        fst x = 0 \<and> records_roots (snd x) \<and> \<not> (case cpc (snd x) of Some c \<Rightarrow> cpc_restart c | None \<Rightarrow> True)"
    proof
      assume q: "q = prepare_page bd n"
      from run obtain s1 c where 1: "checkpoint_pass bd q dev wb s = Some s1" "cpc s1 = Some c"
        "(if cpc_restart c then f bd q dev wb s1 else Some (0, s1)) = Some x"
        by (auto simp: bind_eq_Some_conv)
      show "fst x = 0 \<and> records_roots (snd x) \<and> \<not> (case cpc (snd x) of Some c \<Rightarrow> cpc_restart c | None \<Rightarrow> True)"
      proof (cases "cpc_restart c")
        case True
        then show ?thesis using IH [of bd q dev wb s1 x] 1(3) q by simp
      next
        case False
        then have "x = (0, s1)" using 1(3) by simp
        then show ?thesis using checkpoint_pass_records 1(1,2) q False by auto
      qed
    qed
  qed
  from this [of "prepare_page bd n" _ "(r, s')"] show ?thesis using assms by (simp add: do_checkpoint_def)
qed

section \<open>A checkpoint with nothing to write\<close>

text \<open>Nothing is dirty, nobody holds the semaphore, and the entries of the two roots are cached.\<close>

definition idle :: "fs \<Rightarrow> writeback \<Rightarrow> nat_entry \<Rightarrow> nat_entry \<Rightarrow> bool" where
  "idle s wb e1 e3 \<longleftrightarrow> wb_inodes wb = (\<lambda>_. []) \<and> wb_pages wb = (\<lambda>_ _ _ _. []) \<and>
     nat_ok (nm s) \<and> (\<forall>e \<in> set (nat_list (nm s)). \<not> ne_dirty e) \<and>
     0 \<le> nr_zones (zm s) \<and> length (zone_info (zm s)) = nat (nr_zones (zm s)) \<and> (\<forall>z \<in> set (zone_info (zm s)). \<not> zi_dirty z) \<and>
     \<not> xcpfs_rwsem_is_locked (cp_sem s) \<and> lookup_nat_cached (nm s) 1 = Some e1 \<and> lookup_nat_cached (nm s) 3 = Some e3"

lemma for_each_same: "\<forall>i \<in> set l. f i s = Some s \<Longrightarrow> for_each f l s = Some s"
  by (induction l) auto

lemma flush_nat_idle:
  assumes "nat_ok (nm s)" "\<forall>e \<in> set (nat_list (nm s)). \<not> ne_dirty e"
  shows "flush_nat pp s = Some (0, s)"
proof -
  have "flush_nat_entry pp nid s = Some s" if nid: "nid \<in> set (map ne_nid (nat_list (nm s)))" for nid
  proof -
    obtain e where e: "find_nid nid (nat_list (nm s)) = Some e" using nid find_nid_None [of nid "nat_list (nm s)"] by auto
    then have "\<not> ne_dirty e" using find_nid_Some [OF e] assms(2) by blast
    then show ?thesis using e by (simp add: flush_nat_entry_def)
  qed
  then show ?thesis using for_each_same [of _ "flush_nat_entry pp" s] by (simp add: flush_nat_def)
qed

lemma flush_zit_idle:
  assumes "0 \<le> nr_zones (zm s)" "length (zone_info (zm s)) = nat (nr_zones (zm s))" "\<forall>z \<in> set (zone_info (zm s)). \<not> zi_dirty z"
  shows "flush_zit pp s = Some (0, s)"
proof -
  have "flush_zit_zone pp i s = Some s" if "i \<in> set [0..<nat (nr_zones (zm s))]" for i
    using that assms by (simp add: flush_zit_zone_def zone_at_def)
  then show ?thesis using for_each_same [of _ "flush_zit_zone pp" s] by (simp add: flush_zit_def)
qed

lemma append_cached:
  assumes "lookup_nat_cached (nm s) nid = Some e" "cpc s = Some c" "unat (meta_nat_cnt (cpc_raw_sb c)) < 312"
  shows "append_nid pp nid s = Some (s\<lparr>cpc := Some (c\<lparr>cpc_raw_sb := append_entry e (cpc_raw_sb c)\<rparr>)\<rparr>)"
  using assms by (simp add: append_nid_def lookup_nat_def cp_append_nat_eq)

lemma init_cpsb_fields:
  "meta_nat_cnt (cpc_raw_sb (init_cpsb junk s)) = 0" "cpc_restart (init_cpsb junk s) = cpc_restart junk"
  "sb_scalars (cpc_raw_sb (init_cpsb junk s)) = [XCPFS_MAGIC, word_of_int (fs_root_ino s), word_of_int (fs_meta_ino s),
     word_of_int (fs_node_ino s), word_of_int (nat_page_count s), word_of_int (zit_page_count s), word_of_int (ssa_page_count s)]"
  by (simp_all add: init_cpsb_def sb_field_defs sb_offsets sb_scalars_def)

lemma checkpoint_idle_result:
  assumes idle: "idle s wb e1 e3" and new: "cpc s = None" "\<not> cpc_restart junk"
    and e: "int32 (ne_ino e1)" "int32 (ne_block_addr e1)" "int32 (ne_ino e3)" "int32 (ne_block_addr e3)"
  shows "\<exists>c. do_checkpoint bd pp dev wb junk s = Some (0, s\<lparr>cpc := Some c, cp_phase := 2\<rparr>) \<and> \<not> cpc_restart c \<and>
    sb_entries (cpc_raw_sb c) = [(1, ne_ino e1, ne_block_addr e1), (3, ne_ino e3, ne_block_addr e3)] \<and>
    sb_scalars (cpc_raw_sb c) = [XCPFS_MAGIC, word_of_int (fs_root_ino s), word_of_int (fs_meta_ino s),
      word_of_int (fs_node_ino s), word_of_int (nat_page_count s), word_of_int (zit_page_count s), word_of_int (ssa_page_count s)]"
proof -
  let ?c = "init_cpsb junk s"
  define d1 where "d1 = append_entry e1 (cpc_raw_sb ?c)"
  define d3 where "d3 = append_entry e3 d1"
  let ?sem = "(cp_sem s)\<lparr>sem_writer := True\<rparr>"
  let ?s = "s\<lparr>cpc := Some ?c, cp_sem := ?sem, cp_phase := 2\<rparr>"
  have n: "ne_nid e1 = 1" "ne_nid e3 = 3"
    using idle by (auto simp: idle_def lookup_nat_cached_def dest!: find_nid_Some split: option.splits)
  have cnt: "unat (meta_nat_cnt (cpc_raw_sb ?c)) < 312" "meta_nat_cnt d1 = 1"
    by (simp_all add: init_cpsb_fields d1_def append_entry_def Let_def field_simps_disk)
  have sem: "xcpfs_down_write (cp_sem s) = Some ?sem" "xcpfs_up_write ?sem = cp_sem s"
    using idle by (simp_all add: idle_def rwsem_defs)
  have fn: "flush_nat pp ?s = Some (0, ?s)" using idle by (intro flush_nat_idle) (simp_all add: idle_def)
  have fz: "flush_zit pp ?s = Some (0, ?s)" using idle by (intro flush_zit_idle) (simp_all add: idle_def)
  have a1: "append_nid pp 1 ?s = Some (?s\<lparr>cpc := Some (?c\<lparr>cpc_raw_sb := d1\<rparr>)\<rparr>)"
    using append_cached [of ?s 1 e1 ?c] idle cnt(1) by (simp add: idle_def d1_def)
  have a3: "append_nid pp 3 (?s\<lparr>cpc := Some (?c\<lparr>cpc_raw_sb := d1\<rparr>)\<rparr>) = Some (?s\<lparr>cpc := Some (?c\<lparr>cpc_raw_sb := d3\<rparr>)\<rparr>)"
    using append_cached [of "?s\<lparr>cpc := Some (?c\<lparr>cpc_raw_sb := d1\<rparr>)\<rparr>" 3 e3 "?c\<lparr>cpc_raw_sb := d1\<rparr>"] idle cnt(2)
    by (simp add: idle_def d3_def)
  have wbs: "filemap_write_and_wait_range bd pp dev wb ino a l t = Some t" "sync_inodes_sb bd pp dev wb t = Some t" for ino a l t
    using idle by (simp_all add: idle_def filemap_write_and_wait_range_def sync_inodes_sb_def)
  have "checkpoint_pass bd pp dev wb (s\<lparr>cpc := Some ?c\<rparr>) = Some (s\<lparr>cpc := Some (?c\<lparr>cpc_raw_sb := d3\<rparr>), cp_phase := 2\<rparr>)"
    using new fn fz a1 a3 sem by (simp add: checkpoint_pass_def wbs init_cpsb_fields)
  then have run: "do_checkpoint bd pp dev wb junk s = Some (0, s\<lparr>cpc := Some (?c\<lparr>cpc_raw_sb := d3\<rparr>), cp_phase := 2\<rparr>)"
    using new by (simp add: do_checkpoint_def checkpoint_loop.simps init_cpsb_fields)
  have "sb_entries (cpc_raw_sb ?c) = []" by (simp add: sb_entries_def init_cpsb_fields)
  then have "sb_entries d3 = [(1, ne_ino e1, ne_block_addr e1), (3, ne_ino e3, ne_block_addr e3)]"
    using append_entry_fields(1) [OF cnt(1), of e1] append_entry_fields(1) [of d1 e3] cnt(2) e
    by (simp add: d1_def [symmetric] d3_def [symmetric] n)
  moreover have "sb_scalars d3 = sb_scalars (cpc_raw_sb ?c)"
    using append_entry_fields(2) [OF cnt(1), of e1] append_entry_fields(2) [of d1 e3] cnt(2)
    by (simp add: d1_def [symmetric] d3_def [symmetric])
  ultimately show ?thesis
    using run new(2) by (intro exI [of _ "?c\<lparr>cpc_raw_sb := d3\<rparr>"]) (simp add: init_cpsb_fields)
qed

text \<open>C18: A checkpoint of a file system with nothing to write ends after one pass, provided the fresh
  \<open>struct xcpfs_cpc\<close> does not happen to ask for a restart: the super block has the numbers of the
  file system and exactly two entries, those of the meta inode and of the root, and only the
  checkpoint's own state has changed.\<close>

theorem checkpoint_of_idle_fs:
  assumes idle: "idle s wb e1 e3" and new: "cpc s = None" "\<not> cpc_restart junk"
    and e: "int32 (ne_ino e1)" "int32 (ne_block_addr e1)" "int32 (ne_ino e3)" "int32 (ne_block_addr e3)"
  shows "\<exists>c. do_checkpoint bd pp dev wb junk s = Some (0, s\<lparr>cpc := Some c, cp_phase := 2\<rparr>) \<and> \<not> cpc_restart c \<and>
    sb_entries (cpc_raw_sb c) = [(1, ne_ino e1, ne_block_addr e1), (3, ne_ino e3, ne_block_addr e3)] \<and>
    sb_scalars (cpc_raw_sb c) = [XCPFS_MAGIC, word_of_int (fs_root_ino s), word_of_int (fs_meta_ino s),
      word_of_int (fs_node_ino s), word_of_int (nat_page_count s), word_of_int (zit_page_count s), word_of_int (ssa_page_count s)]"
  by (rule checkpoint_idle_result [OF assms])

definition no_writeback :: writeback where
  "no_writeback = \<lparr>wb_inodes = (\<lambda>_. []), wb_pages = (\<lambda>_ _ _ _. [])\<rparr>"

definition sample_junk :: xcpfs_cpc where
  "sample_junk = \<lparr>cpc_nat_ptr = 7, cpc_restart = False, cpc_raw_sb = zero_bytes\<rparr>"

lemma sample_idle: "idle sample_cold no_writeback (sample_ne 1 16) (sample_ne 3 32)"
proof -
  have "\<forall>z \<in> set (zone_info sample_zm). \<not> zi_dirty z" by (simp add: sample_zm_def sample_zone_def)
  moreover have "nr_zones sample_zm = 4" "length (zone_info sample_zm) = 4" by (simp_all add: sample_zm_def)
  moreover have "\<not> xcpfs_rwsem_is_locked (cp_sem sample_cold)"
    by (simp add: sample_cold_def fs_with_zm_def init_xpcfs_rwsem_def xcpfs_rwsem_is_locked_def)
  ultimately show ?thesis
    using sample_nm_ok
    by (simp add: idle_def no_writeback_def) (simp add: lookup_nat_cached_def sample_nm_def sample_ne_def)
qed

theorem checkpoint_of_idle_fs_witness:
  "\<exists>c. do_checkpoint sample_bd (prepare_page sample_bd 1) (\<lambda>_ _. 0) no_writeback sample_junk sample_cold =
      Some (0, sample_cold\<lparr>cpc := Some c, cp_phase := 2\<rparr>) \<and>
    sb_entries (cpc_raw_sb c) = [(1, 1, 16), (3, 3, 32)]"
  using checkpoint_of_idle_fs [OF sample_idle, of sample_junk sample_bd "prepare_page sample_bd 1" "\<lambda>_ _. 0"]
  by (auto simp: sample_junk_def sample_ne_def int32_def)

theorem checkpoint_records_roots_witness:
  "\<exists>s'. do_checkpoint sample_bd (prepare_page sample_bd 1) (\<lambda>_ _. 0) no_writeback sample_junk sample_cold = Some (0, s') \<and>
    records_roots s'"
proof -
  obtain s' where run: "do_checkpoint sample_bd (prepare_page sample_bd 1) (\<lambda>_ _. 0) no_writeback sample_junk sample_cold = Some (0, s')"
    using checkpoint_idle_result [OF sample_idle, of sample_junk sample_bd "prepare_page sample_bd 1" "\<lambda>_ _. 0"]
    by (auto simp: sample_junk_def sample_ne_def int32_def)
  from checkpoint_records_roots [OF this] run show ?thesis by blast
qed

section \<open>A checkpoint that is due for another pass\<close>

text \<open>A checkpoint that finds its \<open>restart\<close> flag set has no defined result: clearing \<open>META_NAT_NR\<close> entries
  writes behind the end of the page.  The flag is set whenever a pass ran out of room, and by
  whatever \<open>kmalloc\<close> left in it.\<close>

lemma checkpoint_restart_overruns:
  assumes "case cpc s of Some c \<Rightarrow> cpc_restart c | None \<Rightarrow> cpc_restart junk"
  shows "do_checkpoint bd pp dev wb junk s = None"
proof -
  have "offset_of xcpfs_super_block ''meta_nat'' = 30" by (simp add: layout_structs)
  then have "restart_cpsb c = None" for c by (simp add: restart_cpsb_def Let_def PAGE_SIZE_def layout)
  then show ?thesis
    using assms by (simp add: do_checkpoint_def checkpoint_loop.simps checkpoint_pass_def init_cpsb_fields split: option.splits)
qed

end
