(* ===== verification/Mount.thy ===== *)
theory Mount
  imports Checkpoint
begin

text \<open>
  Mounting and unmounting (\<open>xcpfs.c\<close>): the zone table from the device's report, the super block,
  the zone information table, and \<open>kill_xcpfs_super\<close>.  Memory that \<open>kmalloc\<close> returns and the code
  does not initialise is a parameter.
\<close>

section \<open>The zone table\<close>

definition sector_to_block :: "sector \<Rightarrow> int" where
  "sector_to_block sector = to_int (drop_bit 3 sector)"

text \<open>\<open>struct blk_zone\<close> as the device reports it.\<close>

record blk_zone =
  bz_start :: sector
  bz_len :: sector
  bz_wp :: sector
  bz_cond :: zone_cond
  bz_capacity :: sector

text \<open>\<open>array[count++] = zi\<close>; a store outside the array has no defined result.\<close>

definition push_slot :: "nat option list \<Rightarrow> int \<Rightarrow> nat \<Rightarrow> nat option list option" where
  "push_slot xs count k = (if 0 \<le> count \<and> nat count < length xs then Some (xs[nat count := Some k]) else None)"

definition xcpfs_report_zones_cb :: "blk_zone \<Rightarrow> nat \<Rightarrow> xcpfs_zm_info \<Rightarrow> xcpfs_zm_info option" where
  "xcpfs_report_zones_cb zone idx m =
     (if length (zone_info m) \<le> idx then None
      else do {
        let m1 = m\<lparr>zone_size := bz_len zone, zone_capacity := bz_capacity zone,
          zone_info := (zone_info m)[idx := (zone_info m ! idx)\<lparr>zi_cond := bz_cond zone, zi_wp := bz_wp zone,
            zi_zone_id := int idx, zi_start := bz_start zone\<rparr>]\<rparr>;
        if bz_cond zone = COND_IMP_OPEN \<or> bz_cond zone = COND_EXP_OPEN then do {
          opened \<leftarrow> push_slot (zone_opened m1) (zone_opened_count m1) idx;
          active \<leftarrow> push_slot (zone_active m1) (zone_active_count m1) idx;
          Some (m1\<lparr>zone_opened := opened, zone_opened_count := zone_opened_count m1 + 1,
                   zone_active := active, zone_active_count := zone_active_count m1 + 1\<rparr>)
        }
        else if bz_cond zone = COND_CLOSED then do {
          active \<leftarrow> push_slot (zone_active m1) (zone_active_count m1) idx;
          Some (m1\<lparr>zone_active := active, zone_active_count := zone_active_count m1 + 1\<rparr>)
        }
        else Some m1
      })"

text \<open>
  \<open>xcpfs_init_zm_info\<close>.  \<open>junk\<close> is the memory of the structure and of its arrays; the report and
  the limits come from the device.
\<close>

definition xcpfs_init_zm_info ::
    "xcpfs_zm_info \<Rightarrow> int \<Rightarrow> int \<Rightarrow> blk_zone list \<Rightarrow> xcpfs_zm_info option" where
  "xcpfs_init_zm_info junk max_open max_active zones = do {
     m \<leftarrow> for_each (\<lambda>idx. xcpfs_report_zones_cb (zones ! idx) idx) [0..<length zones]
       (junk\<lparr>nr_zones := int (length zones), max_open_zones := max_open, max_active_zones := max_active\<rparr>);
     Some (m\<lparr>limit_type := (limit_type m)[2 := 1, 3 := 2, 4 := max_open - 1 - 1 - 2 - 1 - 1]\<rparr>)
   }"

definition xcpfs_init_nat_info :: xcpfs_nat_info where
  "xcpfs_init_nat_info = \<lparr>cached_nat_count = 0, nat_list = [], free_nat = [], cp_nat = []\<rparr>"

section \<open>The super block\<close>

text \<open>
  The loop over the entries of the super block.  The test \<open>if(err = -EEXIST)\<close> assigns, so the
  address is updated every time.  An entry beyond the page has no defined contents.
\<close>

definition insert_meta_nat :: "bytes \<Rightarrow> nat \<Rightarrow> fs \<Rightarrow> fs option" where
  "insert_meta_nat d i s =
     (let nid = sint (meta_nat32 d i ''nid''); ino = sint (meta_nat32 d i ''ino'');
          blk = sint (meta_nat32 d i ''block_addr'') in
      if PAGE_SIZE < meta_nat_off i ''nid'' + sizeof xcpfs_nat_entry_sb then None
      else if nid = 0 then Some s
      else Some (snd (update_nat (snd (insert_nat s nid ino blk True True)) nid blk True)))"

text \<open>\<open>xcpfs_read_super\<close>: when the page cannot be read the result is 0 all the same.\<close>

definition xcpfs_read_super :: "sb_device \<Rightarrow> fs \<Rightarrow> (int \<times> fs) option" where
  "xcpfs_read_super sd s = do {
     zid \<leftarrow> sb_zone (zm s);
     zi \<leftarrow> zone_at (zm s) zid;
     (case xcpfs_grab_page sd s (sector_to_block (zi_wp zi - 1)) of
        Inl e \<Rightarrow> Some (0, s)
      | Inr d \<Rightarrow>
          if sb32 d ''magic'' \<noteq> XCPFS_MAGIC then Some (- EIO, s)
          else map_option (Pair 0) (for_each (insert_meta_nat d) [0..<unat (meta_nat_cnt d)]
            (s\<lparr>fs_root_ino := sint (sb32 d ''root_ino''), fs_meta_ino := sint (sb32 d ''meta_ino''),
               fs_node_ino := sint (sb32 d ''node_ino''), nat_page_count := sint (sb32 d ''nat_page_count''),
               zit_page_count := sint (sb32 d ''zit_page_count''),
               ssa_page_count := sint (sb32 d ''ssa_page_count'')\<rparr>)))
   }"

section \<open>The zone information table\<close>

text \<open>
  The entry of zone \<open>z\<close> in the loop of \<open>xcpfs_get_zit_info\<close>.  The bitmap is copied from the
  first entry of the block: \<open>ze->valid_map\<close>, and not \<open>ze[j].valid_map\<close>.
\<close>

definition read_ze :: "bytes \<Rightarrow> nat \<Rightarrow> nat \<Rightarrow> xcpfs_zm_info \<Rightarrow> xcpfs_zm_info option" where
  "read_ze d j z m = do {
     zi \<leftarrow> zone_at m (int z);
     if zi_cond zi = COND_EMPTY then Some m
     else do {
       let ty = unat (ze_zone_type d j);
       _ \<leftarrow> (if ty < length (nr_type m) then Some () else None);
       let m1 = zone_upd (int z) (\<lambda>zi. zi\<lparr>zi_zone_type := ze_zone_type d j, zi_vblocks := ze_vblocks d j,
         zi_dirty := True, zi_valid_map := copy_from_ze_valid_map d 0 (zi_valid_map zi)\<rparr>) m;
       Some (m1\<lparr>nr_type := (nr_type m1)[ty := nr_type m1 ! ty + 1]\<rparr>)
     }
   }"

definition read_zit_block :: "reader \<Rightarrow> nat \<Rightarrow> fs \<Rightarrow> fs option" where
  "read_zit_block pp i s = do {
     (r, s1) \<leftarrow> pp s (fs_meta_ino s) (int (i + ZIT_START)) False False;
     (case r of
        Inl e \<Rightarrow> Some s1
      | Inr k \<Rightarrow> do {
          pg \<leftarrow> cache s1 k;
          let nr = nat (nr_zones (zm s1)) - i * ZIT_ENTRY_PER_BLOCK;
          m \<leftarrow> for_each (\<lambda>j. read_ze (pg_data pg) j (i * ZIT_ENTRY_PER_BLOCK + j))
            [0..<min ZIT_ENTRY_PER_BLOCK nr] (zm s1);
          Some (s1\<lparr>zm := m\<rparr>)
        })
   }"

definition xcpfs_get_zit_info :: "reader \<Rightarrow> (nat \<Rightarrow> bytes) \<Rightarrow> fs \<Rightarrow> fs option" where
  "xcpfs_get_zit_info pp junk s =
     (let m = fold (\<lambda>z. zone_upd (int z) (\<lambda>zi. zi\<lparr>zi_valid_map := junk z, zi_write_inflight := 0\<rparr>))
                [0..<nat (nr_zones (zm s))] (zm s) in
      for_each (read_zit_block pp) [0..<nat (DIV_ROUND_UP (nr_zones m) (int ZIT_ENTRY_PER_BLOCK))] (s\<lparr>zm := m\<rparr>))"

section \<open>Mounting\<close>

text \<open>\<open>kzalloc\<close> of \<open>struct xcpfs_sb_info\<close>, with the zone table and an empty NAT cache.\<close>

definition new_fs :: "xcpfs_zm_info \<Rightarrow> (int \<Rightarrow> bytes) \<Rightarrow> fs" where
  "new_fs m medium = \<lparr>fs_root_ino = 0, fs_meta_ino = 0, fs_node_ino = 0, nat_page_count = 0, zit_page_count = 0,
     ssa_page_count = 0, zm = m, nm = xcpfs_init_nat_info, cp_sem = init_xpcfs_rwsem, cp_phase = 0, cpc = None,
     cache = (\<lambda>_. None), inodes = (\<lambda>_. None), disk = medium, bios = []\<rparr>"

definition set_zone_type :: "int \<Rightarrow> u8 \<Rightarrow> xcpfs_zm_info \<Rightarrow> xcpfs_zm_info option" where
  "set_zone_type z ty m = do {
     _ \<leftarrow> zone_at m z;
     Some (zone_upd z (\<lambda>zi. zi\<lparr>zi_zone_type := ty, zi_dirty := True\<rparr>) m)
   }"

text \<open>
  \<open>xcpfs_fill_super\<close>.  The result of \<open>xcpfs_read_super\<close> is ignored; an error pointer from
  \<open>xcpfs_iget\<close> is not recognised, and its first use crashes.
\<close>

definition iget_valid :: "reader \<Rightarrow> int \<Rightarrow> fs \<Rightarrow> fs option" where
  "iget_valid pp ino s = do {
     (r, s1) \<leftarrow> xcpfs_iget pp s ino;
     (case r of Inl e \<Rightarrow> None | Inr i \<Rightarrow> Some s1)
   }"

definition xcpfs_fill_super ::
    "reader \<Rightarrow> sb_device \<Rightarrow> xcpfs_zm_info \<Rightarrow> (nat \<Rightarrow> bytes) \<Rightarrow> int \<Rightarrow> int \<Rightarrow> blk_zone list \<Rightarrow> (int \<Rightarrow> bytes) \<Rightarrow>
      (int \<times> fs) option" where
  "xcpfs_fill_super pp sd junk maps max_open max_active zones medium = do {
     m0 \<leftarrow> xcpfs_init_zm_info junk max_open max_active zones;
     m1 \<leftarrow> set_zone_type 3 (type_code META_NODE) m0;
     m2 \<leftarrow> set_zone_type 5 (type_code REG_NODE) m1;
     m3 \<leftarrow> set_zone_type 6 (type_code REG_DATA) m2;
     (_, s1) \<leftarrow> xcpfs_read_super sd (new_fs m3 medium);
     s2 \<leftarrow> iget_valid pp (fs_node_ino s1) s1;
     s3 \<leftarrow> iget_valid pp (fs_meta_ino s2) s2;
     s4 \<leftarrow> iget_valid pp (fs_root_ino s3) s3;
     s5 \<leftarrow> xcpfs_get_zit_info pp maps s4;
     Some (0, s5\<lparr>cp_phase := 0\<rparr>)
   }"

section \<open>Unmounting\<close>

text \<open>
  \<open>kill_xcpfs_super\<close>: a checkpoint, then the kernel's \<open>kill_block_super\<close>, which syncs, evicts
  the inodes in the order \<open>evict\<close> gives, and calls \<open>xcpfs_put_super\<close>.
\<close>

definition kill_block_super ::
    "env \<Rightarrow> bdev \<Rightarrow> reader \<Rightarrow> device \<Rightarrow> writeback \<Rightarrow> sb_device \<Rightarrow> (fs \<Rightarrow> int list) \<Rightarrow> fs \<Rightarrow> (int \<Rightarrow> bytes) option" where
  "kill_block_super ev bd pp dev wb sd evict s = do {
     s1 \<leftarrow> sync_inodes_sb bd pp dev wb s;
     s2 \<leftarrow> for_each (\<lambda>ino s. xcpfs_evict_inode ev bd pp dev s ino) (evict s1) s1;
     xcpfs_put_super sd s2
   }"

definition kill_xcpfs_super ::
    "env \<Rightarrow> bdev \<Rightarrow> reader \<Rightarrow> device \<Rightarrow> writeback \<Rightarrow> sb_device \<Rightarrow> (fs \<Rightarrow> int list) \<Rightarrow> xcpfs_cpc \<Rightarrow> fs \<Rightarrow>
      (int \<Rightarrow> bytes) option" where
  "kill_xcpfs_super ev bd pp dev wb sd evict junk s = do {
     (_, s1) \<leftarrow> do_checkpoint bd pp dev wb junk s;
     kill_block_super ev bd pp dev wb sd evict s1
   }"

section \<open>Reading a super block\<close>

text \<open>The cached entry \<open>xcpfs_read_super\<close> makes of an entry of the super block.\<close>

definition meta_entry :: "int \<times> int \<times> int \<Rightarrow> nat_entry" where
  "meta_entry e = (case e of (nid, ino, blk) \<Rightarrow>
     \<lparr>ne_pinned = True, ne_dirty = False, ne_nid = nid, ne_ino = ino, ne_block_addr = blk\<rparr>)"

lemma update_same:
  "find_nid nid (nat_list m) = None \<or> (\<exists>e. find_nid nid (nat_list m) = Some e \<and> ne_block_addr e = a) \<Longrightarrow>
    snd (update_nat_cached m nid a p) = m"
  by (auto simp: update_nat_cached_def)

lemma insert_meta_nat_new:
  assumes ok: "nat_ok (nm s)" and new: "nat_view (nm s) nid = None" and e: "sb_entry d i = (nid, ino, blk)" "nid \<noteq> 0" "i < 312"
  shows "\<exists>m. insert_meta_nat d i s = Some (s\<lparr>nm := m\<rparr>) \<and> nat_ok m \<and>
    nat_view m = (nat_view (nm s))(nid \<mapsto> (blk \<noteq> 0, meta_entry (nid, ino, blk)))"
proof -
  let ?m = "snd (insert_nat_cached (nm s) nid ino blk True True)"
  have v: "nat_view ?m = (nat_view (nm s))(nid \<mapsto> (blk \<noteq> 0, meta_entry (nid, ino, blk)))"
    using nat_view_insert [OF ok] new by (simp add: nat_view_lookup meta_entry_def)
  then have "nat_view ?m nid = Some (blk \<noteq> 0, meta_entry (nid, ino, blk))" by simp
  then have "find_nid nid (nat_list ?m) = None \<or> (\<exists>e. find_nid nid (nat_list ?m) = Some e \<and> ne_block_addr e = blk)"
    by (auto simp: nat_view_def meta_entry_def split: option.splits)
  note same = update_same [OF this]
  have b: "\<not> PAGE_SIZE < meta_nat_off i ''nid'' + sizeof xcpfs_nat_entry_sb" using e(3) by (simp add: layout PAGE_SIZE_def)
  have "insert_meta_nat d i s = Some (s\<lparr>nm := ?m\<rparr>)"
    using e b same [of True]
    by (simp add: insert_meta_nat_def sb_entry_def insert_nat_def update_nat_def Let_def case_prod_unfold)
  then show ?thesis using v insert_nat_cached_ok [OF ok] by blast
qed

lemma insert_all_meta:
  assumes "\<forall>i \<in> set l. fst (sb_entry d i) \<noteq> 0 \<and> i < 312 \<and> nat_view (nm s) (fst (sb_entry d i)) = None"
    "distinct (map (fst \<circ> sb_entry d) l)" "nat_ok (nm s)"
  shows "\<exists>m. for_each (insert_meta_nat d) l s = Some (s\<lparr>nm := m\<rparr>) \<and> nat_ok m \<and>
    (\<forall>i \<in> set l. nat_view m (fst (sb_entry d i)) = Some (snd (snd (sb_entry d i)) \<noteq> 0, meta_entry (sb_entry d i))) \<and>
    (\<forall>n. n \<notin> (fst \<circ> sb_entry d) ` set l \<longrightarrow> nat_view m n = nat_view (nm s) n)"
  using assms
proof (induction l arbitrary: s)
  case Nil
  then show ?case by (intro exI [of _ "nm s"]) simp
next
  case (Cons i l)
  obtain nid ino blk where e: "sb_entry d i = (nid, ino, blk)" by (metis prod_cases3)
  with Cons.prems have i: "nid \<noteq> 0" "i < 312" "nat_view (nm s) nid = None" by auto
  from insert_meta_nat_new [OF Cons.prems(3) i(3) e i(1,2)] obtain m1 where
    1: "insert_meta_nat d i s = Some (s\<lparr>nm := m1\<rparr>)" "nat_ok m1"
      "nat_view m1 = (nat_view (nm s))(nid \<mapsto> (blk \<noteq> 0, meta_entry (nid, ino, blk)))" by blast
  have nin: "nid \<notin> (fst \<circ> sb_entry d) ` set l" using Cons.prems(2) e by simp
  then have "\<forall>j \<in> set l. fst (sb_entry d j) \<noteq> 0 \<and> j < 312 \<and> nat_view (nm (s\<lparr>nm := m1\<rparr>)) (fst (sb_entry d j)) = None"
    using Cons.prems(1) 1(3) by (auto simp: image_iff)
  from Cons.IH [OF this] Cons.prems(2) 1(2) obtain m where
    2: "for_each (insert_meta_nat d) l (s\<lparr>nm := m1\<rparr>) = Some (s\<lparr>nm := m\<rparr>)" "nat_ok m"
      "\<forall>i \<in> set l. nat_view m (fst (sb_entry d i)) = Some (snd (snd (sb_entry d i)) \<noteq> 0, meta_entry (sb_entry d i))"
      "\<forall>n. n \<notin> (fst \<circ> sb_entry d) ` set l \<longrightarrow> nat_view m n = nat_view m1 n"
    by auto
  have "nat_view m nid = Some (blk \<noteq> 0, meta_entry (nid, ino, blk))" using 2(4) nin 1(3) by simp
  then show ?case
    using 1(1,3) 2 e by (intro exI [of _ m]) auto
qed

text \<open>A page that is a super block with entries of different nonzero ids.\<close>

definition sb_ok :: "bytes \<Rightarrow> bool" where
  "sb_ok d \<longleftrightarrow> sb32 d ''magic'' = XCPFS_MAGIC \<and> unat (meta_nat_cnt d) \<le> 312 \<and>
     distinct (map fst (sb_entries d)) \<and> 0 \<notin> fst ` set (sb_entries d)"

text \<open>What mounting takes from it.\<close>

definition mounted_from :: "bytes \<Rightarrow> fs \<Rightarrow> bool" where
  "mounted_from d s \<longleftrightarrow> fs_root_ino s = sint (sb32 d ''root_ino'') \<and> fs_meta_ino s = sint (sb32 d ''meta_ino'') \<and>
     fs_node_ino s = sint (sb32 d ''node_ino'') \<and> nat_page_count s = sint (sb32 d ''nat_page_count'') \<and>
     zit_page_count s = sint (sb32 d ''zit_page_count'') \<and> ssa_page_count s = sint (sb32 d ''ssa_page_count'') \<and>
     nat_ok (nm s) \<and>
     (\<forall>e \<in> set (sb_entries d). nat_view (nm s) (fst e) = Some (snd (snd e) \<noteq> 0, meta_entry e)) \<and>
     (\<forall>n. n \<notin> fst ` set (sb_entries d) \<longrightarrow> nat_view (nm s) n = None)"

text \<open>The block in front of the write pointer of the zone that is read.\<close>

definition sb_at :: "xcpfs_zm_info \<Rightarrow> int \<Rightarrow> bool" where
  "sb_at m b \<longleftrightarrow> blkaddr_ok b \<and>
     (\<exists>z zi. sb_zone m = Some z \<and> zone_at m z = Some zi \<and> zi_wp zi = word_of_int (b * 8 + 8))"

lemma sector_before_wp:
  assumes "blkaddr_ok b"
  shows "sector_to_block (word_of_int (b * 8 + 8) - 1) = b"
proof -
  have "(word_of_int (b * 8 + 8) - 1 :: sector) = word_of_int (b * 8 + 7)" by simp
  moreover have "uint (word_of_int (b * 8 + 7) :: sector) = b * 8 + 7"
    using assms by (subst uint_word_of_int) (simp add: blkaddr_ok_def)
  moreover have "(b * 8 + 7) div 8 = b" by simp
  ultimately have "uint (drop_bit 3 (word_of_int (b * 8 + 8) - 1) :: sector) = b"
    using assms by (simp only: unsigned_drop_bit_eq) (simp add: drop_bit_eq_div blkaddr_ok_def take_bit_int_eq_self)
  then show ?thesis
    using assms by (simp add: sector_to_block_def to_int_small blkaddr_ok_def)
qed

lemma read_super_result:
  assumes at: "sb_at m b" and sd: "sbd_read sd b = 0" and ok: "sb_ok (medium b)"
  shows "\<exists>s. xcpfs_read_super sd (new_fs m medium) = Some (0, s) \<and> mounted_from (medium b) s \<and>
    zm s = m \<and> disk s = medium \<and> cache s = (\<lambda>_. None) \<and> inodes s = (\<lambda>_. None) \<and> bios s = []"
proof -
  let ?d = "medium b"
  from at obtain z zi where z: "sb_zone m = Some z" "zone_at m z = Some zi" "zi_wp zi = word_of_int (b * 8 + 8)" and b: "blkaddr_ok b"
    by (auto simp: sb_at_def)
  have "int_wrap (b * 8) = b * 8" using b by (intro int_wrap_id) (simp add: blkaddr_ok_def int32_def)
  then have grab: "xcpfs_grab_page sd (new_fs m medium) (sector_to_block (zi_wp zi - 1)) = Inr ?d"
    unfolding z(3) sector_before_wp [OF b]
    using sd by (simp add: xcpfs_grab_page_def PAGE_SECTORS_SHIFT_def new_fs_def Let_def)
  let ?s = "(new_fs m medium)\<lparr>fs_root_ino := sint (sb32 ?d ''root_ino''), fs_meta_ino := sint (sb32 ?d ''meta_ino''),
     fs_node_ino := sint (sb32 ?d ''node_ino''), nat_page_count := sint (sb32 ?d ''nat_page_count''),
     zit_page_count := sint (sb32 ?d ''zit_page_count''), ssa_page_count := sint (sb32 ?d ''ssa_page_count'')\<rparr>"
  let ?l = "[0..<unat (meta_nat_cnt ?d)]"
  have nm: "nm ?s = xcpfs_init_nat_info" by (simp add: new_fs_def)
  have ok0: "nat_ok (nm ?s)" "\<And>n. nat_view (nm ?s) n = None"
    by (simp_all add: nm xcpfs_init_nat_info_def nat_ok_def nat_view_def)
  have ents: "\<forall>i \<in> set ?l. fst (sb_entry ?d i) \<noteq> 0 \<and> i < 312 \<and> nat_view (nm ?s) (fst (sb_entry ?d i)) = None"
    using ok ok0(2) by (force simp: sb_ok_def sb_entries_def image_iff)
  have dist: "distinct (map (fst \<circ> sb_entry ?d) ?l)" using ok by (simp add: sb_ok_def sb_entries_def)
  from insert_all_meta [OF ents dist ok0(1)] obtain m' where
    1: "for_each (insert_meta_nat ?d) ?l ?s = Some (?s\<lparr>nm := m'\<rparr>)" "nat_ok m'"
      "\<forall>i \<in> set ?l. nat_view m' (fst (sb_entry ?d i)) = Some (snd (snd (sb_entry ?d i)) \<noteq> 0, meta_entry (sb_entry ?d i))"
      "\<forall>n. n \<notin> (fst \<circ> sb_entry ?d) ` set ?l \<longrightarrow> nat_view m' n = nat_view (nm ?s) n" by blast
  have "mounted_from ?d (?s\<lparr>nm := m'\<rparr>)"
    using 1(2,3,4) ok0(2) by (auto simp: mounted_from_def sb_entries_def image_comp)
  moreover have "xcpfs_read_super sd (new_fs m medium) = Some (0, ?s\<lparr>nm := m'\<rparr>)"
    using z(1,2) grab ok 1(1) by (simp add: xcpfs_read_super_def sb_ok_def) (simp add: new_fs_def z)
  ultimately show ?thesis by (intro exI [of _ "?s\<lparr>nm := m'\<rparr>"]) (simp add: new_fs_def)
qed

text \<open>
  What the device reports of the first two zones at the mount that follows an append at \<open>sector\<close> to
  zone \<open>z\<close>: that zone is written up to the end of the block, the other one is as it was.
\<close>

definition remounted :: "xcpfs_zm_info \<Rightarrow> int \<Rightarrow> sector \<Rightarrow> xcpfs_zm_info \<Rightarrow> bool" where
  "remounted m z sector m' \<longleftrightarrow> zone_size m' = zone_size m \<and>
     (\<exists>zi. zone_at m' z = Some zi \<and> zi_cond zi \<noteq> COND_EMPTY \<and> zi_wp zi = sector + 8) \<and>
     (\<exists>zi zi'. zone_at m (1 - z) = Some zi \<and> zone_at m' (1 - z) = Some zi' \<and>
        zi_cond zi' = zi_cond zi \<and> zi_wp zi' = zi_wp zi)"

lemma to_int_block_sector:
  assumes "blkaddr_ok b"
  shows "to_int (drop_bit 3 (word_of_int (b * 8) :: sector)) = b"
proof -
  have "uint (word_of_int (b * 8) :: sector) = b * 8"
    using assms by (subst uint_word_of_int) (simp add: blkaddr_ok_def)
  then have "uint (drop_bit 3 (word_of_int (b * 8) :: sector)) = b"
    using assms by (simp only: unsigned_drop_bit_eq) (simp add: drop_bit_eq_div blkaddr_ok_def take_bit_int_eq_self)
  then show ?thesis using assms by (simp add: to_int_small blkaddr_ok_def)
qed

lemma put_super_medium:
  assumes c: "cpc s = Some c" and z: "sb_zone (zm s) = Some z" "zone_at (zm s) z = Some zi"
    and b: "sbd_append sd (zi_start zi) = (0, word_of_int (b * 8))" "blkaddr_ok b"
  shows "xcpfs_put_super sd s = Some ((disk s)(b := cpc_raw_sb c))"
  using c z b(1) to_int_block_sector [OF b(2)]
  by (simp add: xcpfs_put_super_def flush_super_block_def xcpfs_append_page_def PAGE_SECTORS_SHIFT_def)

text \<open>C7: The super block survives an unmount as long as one of the first two zones is empty, which is how
  \<open>mkfs\<close> leaves them: when the append of \<open>xcpfs_put_super\<close> to the other zone succeeds and the next mount
  finds the two zones as the append left them, \<open>xcpfs_read_super\<close> chooses the zone that was written,
  returns 0 with the numbers and page counts of the super block, and the NAT cache holds exactly
  its entries, pinned, with their owners and blocks.  No other block of the medium changes.\<close>

theorem put_super_read_super:
  assumes c: "cpc s = Some c" and ok: "sb_ok (cpc_raw_sb c)"
    and z: "zone_at (zm s) 0 = Some z0" "zone_at (zm s) 1 = Some z1" "zi_cond z0 = COND_EMPTY \<or> zi_cond z1 = COND_EMPTY"
    and b: "sbd_append sd (zi_start (if zi_cond z0 = COND_EMPTY then z1 else z0)) = (0, word_of_int (b * 8))"
      "blkaddr_ok b" "sbd_read sd b = 0"
    and next_mount: "remounted (zm s) (if zi_cond z0 = COND_EMPTY then 1 else 0) (word_of_int (b * 8)) m"
  shows "\<exists>medium s'. xcpfs_put_super sd s = Some medium \<and> (\<forall>a. a \<noteq> b \<longrightarrow> medium a = disk s a) \<and>
    xcpfs_read_super sd (new_fs m medium) = Some (0, s') \<and> mounted_from (cpc_raw_sb c) s'"
proof -
  let ?medium = "(disk s)(b := cpc_raw_sb c)" and ?z = "if zi_cond z0 = COND_EMPTY then 1 else 0 :: int"
  have "sb_zone (zm s) = Some ?z" "zone_at (zm s) ?z = Some (if zi_cond z0 = COND_EMPTY then z1 else z0)"
    using z by (auto simp: sb_zone_def)
  from put_super_medium [OF c this b(1,2)] have "xcpfs_put_super sd s = Some ?medium" .
  moreover have "sb_at m b"
  proof (cases "zi_cond z0 = COND_EMPTY")
    case True
    with next_mount z(1) obtain zi zi' where "zone_at m 1 = Some zi" "zi_wp zi = word_of_int (b * 8) + 8"
      "zone_at m 0 = Some zi'" "zi_cond zi' = COND_EMPTY" by (auto simp: remounted_def)
    then show ?thesis using b(2) by (simp add: sb_at_def sb_zone_def)
  next
    case False
    with next_mount z obtain zi zi' where "zone_at m 0 = Some zi" "zi_wp zi = word_of_int (b * 8) + 8"
      "zi_cond zi \<noteq> COND_EMPTY" "zone_at m 1 = Some zi'" "zi_cond zi' = COND_EMPTY" by (auto simp: remounted_def)
    then show ?thesis using b(2) by (simp add: sb_at_def sb_zone_def)
  qed
  then obtain s' where "xcpfs_read_super sd (new_fs m ?medium) = Some (0, s')" "mounted_from (cpc_raw_sb c) s'"
    using read_super_result [OF _ b(3), of m ?medium] ok by auto
  ultimately show ?thesis by (intro exI [of _ ?medium] exI [of _ s']) simp
qed

text \<open>C34: With both super block zones in use the comparison of their write pointers goes wrong: when zone 1
  is one block behind zone 0, \<open>xcpfs_put_super\<close> appends the super block to zone 1, both zones are then
  filled equally, and the next mount reads the old super block at the end of zone 0 instead of the
  one that was just written.\<close>

theorem put_super_read_super_stale:
  assumes c: "cpc s = Some c" and ok: "sb_ok (disk s a)"
    and z: "zone_at (zm s) 0 = Some z0" "zone_at (zm s) 1 = Some z1" "zi_cond z0 \<noteq> COND_EMPTY" "zi_cond z1 \<noteq> COND_EMPTY"
    and behind: "zi_wp z1 - zone_size (zm s) < zi_wp z0" "zi_wp z1 + 8 - zone_size (zm s) = zi_wp z0"
    and old: "zi_wp z0 = word_of_int (a * 8 + 8)" "blkaddr_ok a" "sbd_read sd a = 0"
    and new: "zi_wp z1 = word_of_int (b * 8)" "sbd_append sd (zi_start z1) = (0, zi_wp z1)" "blkaddr_ok b" "b \<noteq> a"
    and next_mount: "remounted (zm s) 1 (zi_wp z1) m"
  shows "\<exists>s'. xcpfs_put_super sd s = Some ((disk s)(b := cpc_raw_sb c)) \<and>
    xcpfs_read_super sd (new_fs m ((disk s)(b := cpc_raw_sb c))) = Some (0, s') \<and> mounted_from (disk s a) s'"
proof -
  let ?medium = "(disk s)(b := cpc_raw_sb c)"
  have "sb_zone (zm s) = Some 1" using z behind(1) by (simp add: sb_zone_def)
  from put_super_medium [OF c this z(2) _ new(3)] have put: "xcpfs_put_super sd s = Some ?medium" using new(1,2) by simp
  obtain zi zi' where m: "zone_at m 1 = Some zi" "zi_cond zi \<noteq> COND_EMPTY" "zi_wp zi = zi_wp z1 + 8"
    "zone_at m 0 = Some zi'" "zi_cond zi' = zi_cond z0" "zi_wp zi' = zi_wp z0" "zone_size m = zone_size (zm s)"
    using next_mount z(1) by (auto simp: remounted_def)
  have "sb_zone m = Some 0" using m z(3) behind(2) by (simp add: sb_zone_def)
  then have "sb_at m a" using m(4,6) old(1,2) by (simp add: sb_at_def)
  then show ?thesis using read_super_result [of m a sd ?medium] put ok old(3) new(4) by auto
qed

text \<open>A super block with one entry, and a device that appends at sector 8, of zone 0.\<close>

definition sample_sb :: xcpfs_cpc where
  "sample_sb = \<lparr>cpc_nat_ptr = 0, cpc_restart = False,
     cpc_raw_sb = append_entry (sample_ne 1 16) (set_sb32 ''magic'' XCPFS_MAGIC zero_bytes)\<rparr>"

definition sample_sbd :: sb_device where
  "sample_sbd = \<lparr>sbd_read = (\<lambda>_. 0), sbd_append = (\<lambda>_. (0, 8))\<rparr>"

lemma sample_sb_fields:
  "sb_entries (cpc_raw_sb sample_sb) = [(1, 1, 16)]" "sb_ok (cpc_raw_sb sample_sb)"
proof -
  let ?d = "set_sb32 ''magic'' XCPFS_MAGIC zero_bytes"
  have "meta_nat_cnt ?d = 0" "sb_scalars ?d = [XCPFS_MAGIC, 0, 0, 0, 0, 0, 0]"
    by (simp_all add: sb_field_defs sb_offsets sb_scalars_def)
  moreover from this have "sb_entries ?d = []" by (simp add: sb_entries_def)
  ultimately have e: "sb_entries (append_entry (sample_ne 1 16) ?d) = [(1, 1, 16)]"
    "sb_scalars (append_entry (sample_ne 1 16) ?d) = [XCPFS_MAGIC, 0, 0, 0, 0, 0, 0]"
    using append_entry_fields [of ?d "sample_ne 1 16"] by (simp_all add: sample_ne_def)
  then have "length (sb_entries (append_entry (sample_ne 1 16) ?d)) = 1" by simp
  then have "unat (meta_nat_cnt (append_entry (sample_ne 1 16) ?d)) = 1" by (simp add: sb_entries_def)
  then show "sb_entries (cpc_raw_sb sample_sb) = [(1, 1, 16)]" "sb_ok (cpc_raw_sb sample_sb)"
    using e by (simp_all add: sample_sb_def sb_ok_def sb_scalars_def)
qed

theorem put_super_read_super_witness:
  "\<exists>medium s'. xcpfs_put_super sample_sbd (sample_cold\<lparr>cpc := Some sample_sb\<rparr>) = Some medium \<and>
    xcpfs_read_super sample_sbd (new_fs (sample_zm\<lparr>zone_info := (zone_info sample_zm)[0 := (sample_zone 0 COND_EXP_OPEN 0 16)]\<rparr>) medium) = Some (0, s') \<and>
    nat_view (nm s') 1 = Some (True, meta_entry (1, 1, 16))"
proof -
  let ?m = "sample_zm\<lparr>zone_info := (zone_info sample_zm)[0 := (sample_zone 0 COND_EXP_OPEN 0 16)]\<rparr>"
  let ?s = "sample_cold\<lparr>cpc := Some sample_sb\<rparr>"
  have z: "zone_at (zm ?s) 0 = Some (sample_zone 0 COND_EXP_OPEN 0 8)" "zone_at (zm ?s) 1 = Some (sample_zone 1 COND_EMPTY 0 0)"
    by (simp_all add: zone_at_def sample_cold_def fs_with_zm_def sample_zm_def)
  have e: "zi_cond (sample_zone 0 COND_EXP_OPEN 0 8) \<noteq> COND_EMPTY" "zi_cond (sample_zone 1 COND_EMPTY 0 0) = COND_EMPTY"
    by (simp_all add: sample_zone_def)
  have r: "remounted (zm ?s) 0 (word_of_int (1 * 8)) ?m"
    by (simp add: remounted_def zone_at_def sample_cold_def fs_with_zm_def sample_zm_def) (simp add: sample_zone_def)
  obtain medium s' where r: "xcpfs_put_super sample_sbd ?s = Some medium"
    "xcpfs_read_super sample_sbd (new_fs ?m medium) = Some (0, s')" "mounted_from (cpc_raw_sb sample_sb) s'"
    using put_super_read_super [OF _ sample_sb_fields(2) z, of sample_sbd 1 ?m] e r
    by (auto simp: sample_sbd_def blkaddr_ok_def)
  then have "nat_view (nm s') 1 = Some (True, meta_entry (1, 1, 16))"
    by (simp add: mounted_from_def sample_sb_fields)
  with r(1,2) show ?thesis by blast
qed

text \<open>Zone 0 filled to sector 16 and zone 1 to its sector 8; the last super block of zone 0 is block 1.\<close>

theorem put_super_read_super_stale_witness:
  "\<exists>s'. xcpfs_read_super (sample_sbd\<lparr>sbd_append := (\<lambda>_. (0, 136))\<rparr>)
     (new_fs (sample_zm\<lparr>zone_info := [sample_zone 0 COND_EXP_OPEN 0 16, sample_zone 1 COND_EXP_OPEN 0 16]\<rparr>)
       ((\<lambda>b. if b = 1 then cpc_raw_sb sample_sb else zero_bytes)(17 := zero_bytes))) = Some (0, s') \<and>
    nat_view (nm s') 1 = Some (True, meta_entry (1, 1, 16))"
proof -
  let ?sd = "sample_sbd\<lparr>sbd_append := (\<lambda>_. (0, 136))\<rparr>"
  let ?m = "sample_zm\<lparr>zone_info := [sample_zone 0 COND_EXP_OPEN 0 16, sample_zone 1 COND_EXP_OPEN 0 16]\<rparr>"
  let ?old = "sample_zm\<lparr>zone_info := [sample_zone 0 COND_EXP_OPEN 0 16, sample_zone 1 COND_EXP_OPEN 0 8]\<rparr>"
  let ?s = "(new_fs ?old (\<lambda>b. if b = 1 then cpc_raw_sb sample_sb else zero_bytes))\<lparr>cpc := Some (sample_sb\<lparr>cpc_raw_sb := zero_bytes\<rparr>)\<rparr>"
  have s: "zm ?s = ?old" "disk ?s = (\<lambda>b. if b = 1 then cpc_raw_sb sample_sb else zero_bytes)" by (simp_all add: new_fs_def)
  have z: "zone_at (zm ?s) 0 = Some (sample_zone 0 COND_EXP_OPEN 0 16)" "zone_at (zm ?s) 1 = Some (sample_zone 1 COND_EXP_OPEN 0 8)"
    unfolding s by (simp_all add: zone_at_def)
  have zone: "zi_cond (sample_zone i COND_EXP_OPEN t w) \<noteq> COND_EMPTY" "zi_wp (sample_zone i COND_EXP_OPEN t w) = word_of_int (128 * i) + w" for i t w
    by (simp_all add: sample_zone_def)
  have z': "zone_at ?m 0 = Some (sample_zone 0 COND_EXP_OPEN 0 16)" "zone_at ?m 1 = Some (sample_zone 1 COND_EXP_OPEN 0 16)"
    by (simp_all add: zone_at_def)
  have r: "remounted (zm ?s) 1 (zi_wp (sample_zone 1 COND_EXP_OPEN 0 8)) ?m"
    unfolding remounted_def using z(1) z' by (simp add: zone new_fs_def)
  have size: "zone_size (zm ?s) = 128" unfolding s by (simp add: sample_zm_def)
  have d: "sb_ok (disk ?s 1)" "disk ?s 1 = cpc_raw_sb sample_sb" unfolding s by (simp_all add: sample_sb_fields)
  obtain s' where "xcpfs_read_super ?sd (new_fs ?m ((disk ?s)(17 := zero_bytes))) = Some (0, s')" "mounted_from (disk ?s 1) s'"
    using put_super_read_super_stale [of ?s "sample_sb\<lparr>cpc_raw_sb := zero_bytes\<rparr>" 1, OF _ d(1) z zone(1) zone(1), of ?sd 17 ?m] r
    unfolding size zone(2) by (force simp: sample_sbd_def blkaddr_ok_def)
  then show ?thesis by (auto simp: s mounted_from_def sample_sb_fields)
qed

section \<open>Zone information on the medium\<close>

lemma ze_bits_put:
  "ze_bits (put_ze k zi d) k = push_bit 6 (word_of_int (zi_vblocks zi)) OR take_bit 6 (ucast (zi_zone_type zi))"
proof -
  have 1: "ze_bits (copy_to_ze_valid_map k m d) k = ze_bits d k" for m d
    unfolding ze_bits_def by (rule rd_cong) (auto simp: copy_to_ze_valid_map_def layout)
  have 2: "ze_bits (set_ze_vblocks k v d) k = push_bit 6 (word_of_int v) OR take_bit 6 (ze_bits d k)" for v d
    by (simp add: ze_bits_def set_ze_vblocks_def layout)
  have 3: "ze_bits (set_ze_zone_type k v d) k = push_bit 6 (drop_bit 6 (ze_bits d k)) OR take_bit 6 (ucast v)" for v d
    by (simp add: ze_bits_def set_ze_zone_type_def layout)
  have "take_bit 6 (push_bit 6 a OR take_bit 6 b) = take_bit 6 b" for a b :: u16
    by (rule bit_word_eqI) (auto simp: bit_take_bit_iff bit_or_iff bit_push_bit_iff)
  then show ?thesis by (simp add: put_ze_def 1 2 3)
qed

text \<open>Reading back the entry \<open>flush_zit\<close> wrote for a zone.\<close>

lemma ze_put_same:
  "ze_zone_type (put_ze k zi d) k = take_bit 6 (zi_zone_type zi)"
  "ze_vblocks (put_ze k zi d) k = zi_vblocks zi mod 1024"
  "i < 64 \<Longrightarrow> ze_valid_map (put_ze k zi d) k i = zi_valid_map zi i"
proof -
  show "ze_zone_type (put_ze k zi d) k = take_bit 6 (zi_zone_type zi)"
    unfolding ze_zone_type_def ze_bits_put
    by (rule bit_word_eqI) (auto simp: bit_take_bit_iff bit_or_iff bit_push_bit_iff bit_unsigned_iff)
  have "drop_bit 6 (push_bit 6 (a :: u16) OR take_bit 6 b) = take_bit 10 a" for a b
    by (rule bit_word_eqI) (auto simp: bit_take_bit_iff bit_or_iff bit_push_bit_iff bit_drop_bit_eq)
  then have "ze_vblocks (put_ze k zi d) k = uint (take_bit 10 (word_of_int (zi_vblocks zi) :: u16))"
    by (simp only: ze_vblocks_def ze_bits_put)
  also have "\<dots> = take_bit 10 (zi_vblocks zi)"
    by (simp add: unsigned_take_bit_eq unsigned_of_int)
  finally show "ze_vblocks (put_ze k zi d) k = zi_vblocks zi mod 1024" by (simp add: take_bit_eq_mod)
  show "i < 64 \<Longrightarrow> ze_valid_map (put_ze k zi d) k i = zi_valid_map zi i"
    by (simp add: ze_valid_map_def put_ze_def copy_to_ze_valid_map_def layout layout_consts)
qed

text \<open>Entries of the same block do not disturb each other.\<close>

lemma ze_put_other:
  assumes "j \<noteq> k"
  shows "ze_valid_map (put_ze k zi d) j i = ze_valid_map d j i \<or> 64 \<le> i"
  using array_disjoint [OF assms, of 0 74]
  by (auto simp: ze_valid_map_def put_ze_def copy_to_ze_valid_map_def set_ze_vblocks_def set_ze_zone_type_def layout layout_consts wr_le_def)

text \<open>C28: The zone table comes back from the medium only in part.  Take a block of the zone table in which
  \<open>flush_zit\<close> has written an entry behind the first one, for a zone of one of the five types.
  Reading that entry for a zone in use restores the type, and the count of valid blocks modulo
  1024, but as the zone's bitmap it takes the one of entry 0 of the block, and of that the first
  512 bits; everything else in the bitmap is left as \<open>kmalloc\<close> returned it.\<close>

theorem zit_restores_wrong_bitmap:
  assumes z: "zone_at m (int n) = Some zi0" "zi_cond zi0 \<noteq> COND_EMPTY" and ty: "zi_zone_type zi < 5" "length (nr_type m) = 5"
    and j: "0 < j"
  shows "\<exists>m' zi'. read_ze (put_ze j zi d) j n m = Some m' \<and> zone_at m' (int n) = Some zi' \<and>
    zi_zone_type zi' = zi_zone_type zi \<and> zi_vblocks zi' = zi_vblocks zi mod 1024 \<and> zi_dirty zi' \<and>
    (\<forall>i < 64. zi_valid_map zi' i = ze_valid_map d 0 i) \<and> (\<forall>i \<ge> 64. zi_valid_map zi' i = zi_valid_map zi0 i)"
proof -
  have t: "take_bit 6 (zi_zone_type zi) = zi_zone_type zi"
    using ty(1) by (simp add: word_uint_eq_iff unsigned_take_bit_eq take_bit_int_eq_self word_less_def)
  have len: "unat (zi_zone_type zi) < 5" using ty(1) by (simp add: word_less_nat_alt)
  have "ze_valid_map (put_ze j zi d) 0 i = ze_valid_map d 0 i" if "i < 64" for i
    using ze_put_other [of 0 j zi d i] j that by auto
  moreover have "n < length (zone_info m)" "zone_info m ! n = zi0" using z(1) by (simp_all add: zone_at_Some)
  ultimately show ?thesis
    using z len ty(2) by (auto simp: read_ze_def ze_put_same t Let_def zone_at_def zone_upd_def copy_from_ze_valid_map_def ZONE_VALID_MAP_SIZE_def)
qed

theorem zit_restores_wrong_bitmap_witness:
  "\<exists>m' zi'. read_ze (put_ze 2 (sample_zone 2 COND_EXP_OPEN 4 8) zero_bytes) 2 2 sample_zm = Some m' \<and>
    zone_at m' 2 = Some zi' \<and> zi_zone_type zi' = 4"
proof -
  have "zone_at sample_zm (int 2) = Some (sample_zone 2 COND_EXP_OPEN 4 8)" "length (nr_type sample_zm) = 5"
    by (simp_all add: zone_at_def sample_zm_def)
  from zit_restores_wrong_bitmap [OF this(1) _ _ this(2), of "sample_zone 2 COND_EXP_OPEN 4 8" 2 zero_bytes] show ?thesis
    by (force simp: sample_zone_def)
qed

end
