(* ===== verification/Mkfs.thy ===== *)
theory Mkfs
  imports Mount
begin

text \<open>
  The formatting tool (\<open>mkfs/mkfs.c\<close>).  The zoned device behind \<open>libnvme\<close> is a parameter: its
  state, and the two commands the tool sends.  What the tool relies on is \<open>zns_law\<close>, the behaviour
  the NVMe specification gives these commands; \<open>mkfs_result\<close> says what is then written and where.
\<close>

section \<open>The device\<close>

text \<open>
  \<open>nvme_zns_append\<close> yields a status and the block it wrote to; \<open>nvme_zns_mgmt_send\<close> with the
  action \<open>NVME_ZNS_ZSA_OPEN\<close> a status.  Both take the first block of a zone.
\<close>

record 'd zns =
  zns_append :: "int \<Rightarrow> bytes \<Rightarrow> 'd \<Rightarrow> (int \<times> int) \<times> 'd"
  zns_open :: "int \<Rightarrow> 'd \<Rightarrow> int \<times> 'd"

definition zone2zslba :: "int \<Rightarrow> int" where
  "zone2zslba zoneid = c_div (int_wrap (int_wrap (zoneid * 8) * 1024)) 4"

definition zone_append :: "'d zns \<Rightarrow> int \<Rightarrow> bytes \<Rightarrow> 'd \<Rightarrow> (int \<times> int) \<times> 'd" where
  "zone_append z zoneid page = zns_append z (zone2zslba zoneid) page"

definition zone_mgmt :: "'d zns \<Rightarrow> int \<Rightarrow> 'd \<Rightarrow> int \<times> 'd" where
  "zone_mgmt z zoneid = zns_open z (zone2zslba zoneid)"

section \<open>The first inodes\<close>

definition alloc_page :: bytes where
  "alloc_page = zero_bytes"

text \<open>The entries \<open>.\<close> and \<open>..\<close> of the root directory, in the same page one after the other.\<close>

definition mkfs_dentry :: "cstring \<Rightarrow> bytes \<Rightarrow> bytes" where
  "mkfs_dentry name d = de_strcpy name (set_de_namelen (word_of_int (int (length name))) (set_de_ino 3 d))"

definition S_IRWXU :: u16 where "S_IRWXU = 0x01c0"
definition S_IRGRP :: u16 where "S_IRGRP = 0x0020"
definition S_IXGRP :: u16 where "S_IXGRP = 0x0008"
definition S_IROTH :: u16 where "S_IROTH = 0x0004"
definition S_IXOTH :: u16 where "S_IXOTH = 0x0001"

definition root_page :: bytes where
  "root_page =
     set_ri32 ''i_links'' 2
     (set_ri32 ''i_uid'' 1000 (set_ri32 ''i_gid'' 1000
     (set_ri64 ''i_atime'' 0 (set_ri64 ''i_ctime'' 0 (set_ri64 ''i_mtime'' 0
     (set_ri64 ''i_blocks'' 2 (set_ri64 ''i_size'' (2 * of_nat PAGE_SIZE)
     (set_ri16 ''i_mode'' (S_IFDIR OR S_IRWXU OR (S_IRGRP OR S_IXGRP) OR (S_IROTH OR S_IXOTH)) alloc_page))))))))"

text \<open>\<open>init_root\<close>: the block of the root inode, or \<open>- 1\<close>.\<close>

definition init_root :: "'d zns \<Rightarrow> 'd \<Rightarrow> int \<times> 'd" where
  "init_root z d =
     (let (r1, d1) = zone_mgmt z 6 d in
      if r1 \<noteq> 0 then (-1, d1)
      else let dot = mkfs_dentry [46] alloc_page; ((r2, lba2), d2) = zone_append z 6 dot d1 in
      if r2 \<noteq> 0 then (-1, d2)
      else let root1 = set_i_addr root_page 0 (word_of_int lba2); dotdot = mkfs_dentry [46, 46] dot;
               ((r3, lba3), d3) = zone_append z 6 dotdot d2 in
      if r3 \<noteq> 0 then (-1, d3)
      else let root2 = set_i_addr root1 1 (word_of_int lba3); (r4, d4) = zone_mgmt z 5 d3 in
      if r4 \<noteq> 0 then (-1, d4)
      else let ((r5, lba5), d5) = zone_append z 5 root2 d4 in
      if r5 \<noteq> 0 then (-1, d5) else (lba5, d5))"

definition meta_page :: bytes where
  "meta_page =
     set_ri32 ''i_links'' 1 (set_ri32 ''i_uid'' 1000 (set_ri32 ''i_gid'' 1000
     (set_ri64 ''i_blocks'' 0 (set_ri64 ''i_size'' 0 (set_ri16 ''i_mode'' (S_IFREG OR S_IRWXU) alloc_page)))))"

definition init_meta :: "'d zns \<Rightarrow> 'd \<Rightarrow> int \<times> 'd" where
  "init_meta z d =
     (let (r1, d1) = zone_mgmt z 3 d in
      if r1 \<noteq> 0 then (-1, d1)
      else let ((r2, lba), d2) = zone_append z 3 meta_page d1 in
      if r2 \<noteq> 0 then (-1, d2) else (lba, d2))"

section \<open>The super block\<close>

text \<open>The page \<open>main\<close> writes, from the blocks of the root inode and of the meta inode.\<close>

definition mkfs_super :: "int \<Rightarrow> int \<Rightarrow> bytes" where
  "mkfs_super root_lba meta_lba =
     set_meta_nat32 1 ''block_addr'' (word_of_int meta_lba) (set_meta_nat32 1 ''ino'' 1 (set_meta_nat32 1 ''nid'' 1
     (set_meta_nat32 0 ''block_addr'' (word_of_int root_lba) (set_meta_nat32 0 ''ino'' 3 (set_meta_nat32 0 ''nid'' 3
     (set_meta_nat_cnt 2 (set_sb32 ''ssa_page_count'' 1 (set_sb32 ''zit_page_count'' 1 (set_sb32 ''nat_page_count'' 1
     (set_sb32 ''root_ino'' 3 (set_sb32 ''node_ino'' 2 (set_sb32 ''meta_ino'' 1
     (set_sb32 ''magic'' XCPFS_MAGIC alloc_page)))))))))))))"

text \<open>\<open>main\<close>: its exit status, the status and the block of the last append, and the device.\<close>

definition mkfs_main :: "'d zns \<Rightarrow> 'd \<Rightarrow> (int \<times> (int \<times> int)) \<times> 'd" where
  "mkfs_main z d =
     (let (root_lba, d1) = init_root z d; (meta_lba, d2) = init_meta z d1; (_, d3) = zone_mgmt z 0 d2;
          (r, d4) = zone_append z 0 (mkfs_super root_lba meta_lba) d3
      in ((0, r), d4))"

section \<open>Zoned devices\<close>

text \<open>
  What the commands change of the device's state: the contents of its blocks, the number of blocks
  written in each zone, and the zones that are open.  A zone is 2048 blocks long.
\<close>

record 'd zns_view =
  zv_rd :: "'d \<Rightarrow> int \<Rightarrow> bytes"
  zv_written :: "'d \<Rightarrow> nat \<Rightarrow> nat"
  zv_open :: "'d \<Rightarrow> nat set"

text \<open>
  The behaviour the NVMe specification documents for the first \<open>nz\<close> zones, each with \<open>cap\<close> writable
  blocks, at most \<open>lim\<close> of them open.  A zone that is not full can be opened while there are open
  resources left.  An append to the start of an open zone that is not full writes the block behind the
  last one written in that zone and reports its address; the zone leaves the open state when it is
  full.  Nothing is assumed of the other addresses and of commands the device may refuse.
\<close>

definition zns_law :: "'d zns \<Rightarrow> 'd zns_view \<Rightarrow> nat \<Rightarrow> nat \<Rightarrow> nat \<Rightarrow> bool" where
  "zns_law z V nz cap lim \<longleftrightarrow>
     (\<forall>k d. k < nz \<and> zv_written V d k < cap \<and> (k \<in> zv_open V d \<or> card (zv_open V d) < lim) \<longrightarrow>
        (\<exists>d'. zns_open z (2048 * int k) d = (0, d') \<and> zv_rd V d' = zv_rd V d \<and> zv_written V d' = zv_written V d \<and>
           zv_open V d' = insert k (zv_open V d))) \<and>
     (\<forall>k p d. k < nz \<and> zv_written V d k < cap \<and> k \<in> zv_open V d \<longrightarrow>
        (\<exists>d'. zns_append z (2048 * int k) p d = ((0, 2048 * int k + int (zv_written V d k)), d') \<and>
           zv_rd V d' = (zv_rd V d)(2048 * int k + int (zv_written V d k) := p) \<and>
           zv_written V d' = (zv_written V d)(k := zv_written V d k + 1) \<and>
           zv_open V d' = (if zv_written V d k + 1 = cap then zv_open V d - {k} else zv_open V d)))"

text \<open>A device after a reset: every zone is empty and none is open.\<close>

definition zns_fresh :: "'d zns_view \<Rightarrow> 'd \<Rightarrow> bool" where
  "zns_fresh V d \<longleftrightarrow> (\<forall>k. zv_written V d k = 0) \<and> zv_open V d = {}"

lemma zone2zslba_start: "k < 2 ^ 17 \<Longrightarrow> zone2zslba (int k) = 2048 * int k"
proof -
  assume "k < 2 ^ 17"
  then have "int_wrap (int k * 8) = int k * 8" "int_wrap (int k * 8 * 1024) = int k * 8 * 1024"
    by (intro int_wrap_id; simp add: int32_def)+
  moreover have "int k * 8 * 1024 div 4 = 2048 * int k" by simp
  ultimately show ?thesis by (cases "k = 0") (simp_all add: zone2zslba_def c_div_def)
qed

lemma open_zone:
  assumes "zns_law z V nz cap lim" "k < nz" "k < 2 ^ 17" "zv_written V d k < cap" "card (zv_open V d) < lim"
  shows "\<exists>d'. zone_mgmt z (int k) d = (0, d') \<and> zv_rd V d' = zv_rd V d \<and> zv_written V d' = zv_written V d \<and>
    zv_open V d' = insert k (zv_open V d)"
  using assms unfolding zns_law_def zone_mgmt_def zone2zslba_start [OF assms(3)] by blast

lemma append_zone:
  assumes "zns_law z V nz cap lim" "k < nz" "k < 2 ^ 17" "zv_written V d k < cap" "k \<in> zv_open V d"
  shows "\<exists>d'. zone_append z (int k) p d = ((0, 2048 * int k + int (zv_written V d k)), d') \<and>
    zv_rd V d' = (zv_rd V d)(2048 * int k + int (zv_written V d k) := p) \<and>
    zv_written V d' = (zv_written V d)(k := zv_written V d k + 1) \<and>
    zv_open V d' = (if zv_written V d k + 1 = cap then zv_open V d - {k} else zv_open V d)"
  using assms unfolding zns_law_def zone_append_def zone2zslba_start [OF assms(3)] by blast

section \<open>What the tool puts on the medium\<close>

text \<open>Fields of the pages.\<close>

lemma ri_set_i_addr:
  "ri16 (set_i_addr d k v) ''i_mode'' = ri16 d ''i_mode''" "ri64 (set_i_addr d k v) ''i_size'' = ri64 d ''i_size''"
  "ri32 (set_i_addr d k v) ''i_links'' = ri32 d ''i_links''"
  by (simp_all add: inode_field_defs set_i_addr_def layout)

lemma root_page_fields:
  "S_ISDIR (ri16 root_page ''i_mode'')" "ri64 root_page ''i_size'' = 8192" "ri32 root_page ''i_links'' = 2"
  "i_addr root_page j = 0" "i_nid root_page j = 0"
proof -
  show "S_ISDIR (ri16 root_page ''i_mode'')"
    by (simp add: root_page_def inode_field_defs layout S_ISDIR_def S_IFMT_def S_IFDIR_def S_IRWXU_def S_IRGRP_def
        S_IXGRP_def S_IROTH_def S_IXOTH_def)
  show "ri64 root_page ''i_size'' = 8192" "ri32 root_page ''i_links'' = 2"
    by (simp_all add: root_page_def inode_field_defs layout PAGE_SIZE_def)
  show "i_addr root_page j = 0" "i_nid root_page j = 0"
    by (simp_all add: root_page_def inode_field_defs layout i_addr_def i_nid_def alloc_page_def)
qed

lemma mkfs_dentry_fields:
  assumes "name_ok name"
  shows "entry (mkfs_dentry name d) = Some (name, 3) \<and> dentry_ok (mkfs_dentry name d)"
proof -
  have "de_name (mkfs_dentry name d) = name"
    by (rule de_name_strcpy [OF assms, of _ "set_de_namelen (word_of_int (int (length name))) (set_de_ino 3 d)"])
      (simp add: mkfs_dentry_def)
  moreover have cp: "rd32 (de_strcpy name x) off = rd32 x off" if "256 \<le> off" for x off
    using that assms by (intro rd_cong) (auto simp: de_strcpy_def name_ok_def)
  have "de_ino (mkfs_dentry name d) = 3" "de_namelen (mkfs_dentry name d) = word_of_int (int (length name))"
    by (simp_all add: mkfs_dentry_def de_defs layout cp)
  ultimately show ?thesis using assms by (simp add: entry_def dentry_ok_def name_ok_def)
qed

lemma sint_blkaddr: "blkaddr_ok b \<Longrightarrow> sint (word_of_int b :: u32) = b"
  by (rule sint_of_int32) (simp add: blkaddr_ok_def int32_def)

text \<open>What the tool writes on a device after a reset, and where.\<close>

definition dot_page :: bytes where
  "dot_page = mkfs_dentry [46] alloc_page"

definition dotdot_page :: bytes where
  "dotdot_page = mkfs_dentry [46, 46] dot_page"

definition root_inode_page :: bytes where
  "root_inode_page = set_i_addr (set_i_addr root_page 0 12288) 1 12289"

definition mkfs_image :: "(int \<Rightarrow> bytes) \<Rightarrow> int \<Rightarrow> bytes" where
  "mkfs_image medium = medium(12288 := dot_page, 12289 := dotdot_page, 10240 := root_inode_page, 6144 := meta_page,
     0 := mkfs_super 10240 6144)"

lemma init_root_result:
  assumes z: "zns_law z V nz cap lim" "7 \<le> nz" "2 \<le> cap" "4 \<le> lim" and d: "zns_fresh V d"
  obtains d' where "init_root z d = (10240, d')"
    "zv_rd V d' = (zv_rd V d)(12288 := dot_page, 12289 := dotdot_page, 10240 := root_inode_page)"
    "zv_written V d' = (\<lambda>_. 0)(6 := 2, 5 := 1)" "zv_open V d' \<subseteq> {5, 6}"
proof -
  have w: "zv_written V d = (\<lambda>_. 0)" "zv_open V d = {}" using d by (auto simp: zns_fresh_def)
  obtain d1 where 1: "zone_mgmt z 6 d = (0, d1)" "zv_rd V d1 = zv_rd V d" "zv_written V d1 = (\<lambda>_. 0)" "zv_open V d1 = {6}"
    using open_zone [OF z(1), of 6 d] z w by auto
  obtain d2 where 2: "zone_append z 6 dot_page d1 = ((0, 12288), d2)" "zv_rd V d2 = (zv_rd V d)(12288 := dot_page)"
      "zv_written V d2 = (\<lambda>_. 0)(6 := 1)" "zv_open V d2 = {6}"
    using append_zone [OF z(1), of 6 d1 dot_page] z 1 by auto
  obtain d3 where 3: "zone_append z 6 dotdot_page d2 = ((0, 12289), d3)"
      "zv_rd V d3 = (zv_rd V d)(12288 := dot_page, 12289 := dotdot_page)"
      "zv_written V d3 = (\<lambda>_. 0)(6 := Suc (Suc 0))" "zv_open V d3 \<subseteq> {6}"
    using append_zone [OF z(1), of 6 d2 dotdot_page] z 2 by (auto split: if_split_asm)
  from card_mono [OF _ 3(4)] have "card (zv_open V d3) < lim" using z(4) by simp
  then obtain d4 where 4: "zone_mgmt z 5 d3 = (0, d4)" "zv_rd V d4 = zv_rd V d3" "zv_written V d4 = zv_written V d3"
      "zv_open V d4 = insert 5 (zv_open V d3)"
    using open_zone [OF z(1), of 5 d3] z(2,3) 3(3) by auto
  obtain d5 where 5: "zone_append z 5 root_inode_page d4 = ((0, 10240), d5)"
      "zv_rd V d5 = (zv_rd V d4)(10240 := root_inode_page)"
      "zv_written V d5 = (zv_written V d4)(5 := 1)" "zv_open V d5 \<subseteq> zv_open V d4"
    using append_zone [OF z(1), of 5 d4 root_inode_page] z(2,3) 3(3) 4(3,4) by auto
  have "init_root z d = (10240, d5)"
    using 1(1) 2(1) 3(1) 4(1) 5(1)
    by (simp add: init_root_def Let_def dot_page_def [symmetric] dotdot_page_def [symmetric]
        root_inode_page_def [symmetric] del: One_nat_def)
  moreover have "zv_open V d5 \<subseteq> {5, 6}" using 3(4) 4(4) 5(4) by auto
  ultimately show thesis using that 3(2,3) 4(2,3) 5(2,3) by (simp add: numeral_2_eq_2)
qed

lemma mkfs_result:
  assumes z: "zns_law z V nz cap lim" "7 \<le> nz" "2 \<le> cap" "4 \<le> lim" and d: "zns_fresh V d"
  obtains d' where "mkfs_main z d = ((0, (0, 0)), d')" "zv_rd V d' = mkfs_image (zv_rd V d)"
    "zv_written V d' = (\<lambda>_. 0)(6 := 2, 5 := 1, 3 := 1, 0 := 1)"
proof -
  obtain d1 where 1: "init_root z d = (10240, d1)"
    "zv_rd V d1 = (zv_rd V d)(12288 := dot_page, 12289 := dotdot_page, 10240 := root_inode_page)"
    "zv_written V d1 = (\<lambda>_. 0)(6 := 2, 5 := 1)" "zv_open V d1 \<subseteq> {5, 6}"
    by (rule init_root_result [OF assms])
  from card_mono [OF _ 1(4)] have "card (zv_open V d1) < lim" using z(4) by simp
  then obtain d2 where 2: "zone_mgmt z 3 d1 = (0, d2)" "zv_rd V d2 = zv_rd V d1" "zv_written V d2 = zv_written V d1"
      "zv_open V d2 = insert 3 (zv_open V d1)"
    using open_zone [OF z(1), of 3 d1] z(2,3) 1(3) by auto
  obtain d3 where 3: "zone_append z 3 meta_page d2 = ((0, 6144), d3)" "zv_rd V d3 = (zv_rd V d2)(6144 := meta_page)"
      "zv_written V d3 = (zv_written V d2)(3 := 1)" "zv_open V d3 \<subseteq> zv_open V d2"
    using append_zone [OF z(1), of 3 d2 meta_page] z(2,3) 1(3) 2(3,4) by auto
  have meta: "init_meta z d1 = (6144, d3)" using 2(1) 3(1) by (simp add: init_meta_def)
  have "zv_open V d3 \<subseteq> {3, 5, 6}" using 1(4) 2(4) 3(4) by auto
  from card_mono [OF _ this] have "card (zv_open V d3) < lim" using z(4) by simp
  then obtain d4 where 4: "zone_mgmt z 0 d3 = (0, d4)" "zv_rd V d4 = zv_rd V d3" "zv_written V d4 = zv_written V d3"
      "zv_open V d4 = insert 0 (zv_open V d3)"
    using open_zone [OF z(1), of 0 d3] z(2,3) 1(3) 2(3) 3(3) by auto
  let ?sb = "mkfs_super 10240 6144"
  obtain d5 where 5: "zone_append z 0 ?sb d4 = ((0, 0), d5)" "zv_rd V d5 = (zv_rd V d4)(0 := ?sb)"
      "zv_written V d5 = (zv_written V d4)(0 := 1)"
    using append_zone [OF z(1), of 0 d4 ?sb] z(2,3) 1(3) 2(3) 3(3) 4(3,4) by auto
  have "mkfs_main z d = ((0, (0, 0)), d5)" by (simp add: mkfs_main_def 1(1) meta 4(1) 5(1))
  then show thesis using that 1(2,3) 2(2,3) 3(2,3) 4(2,3) 5(2,3) by (simp add: mkfs_image_def)
qed

text \<open>The entries of the root directory, and the super block.\<close>

lemma dot_entries:
  "entry dot_page = Some ([46], 3)" "dentry_ok dot_page"
  "entry dotdot_page = Some ([46, 46], 3)" "dentry_ok dotdot_page"
proof -
  have "name_ok [46]" "name_ok [46, 46]" by (simp_all add: name_ok_def)
  from mkfs_dentry_fields [OF this(1)] mkfs_dentry_fields [OF this(2)]
  show "entry dot_page = Some ([46], 3)" "dentry_ok dot_page"
    "entry dotdot_page = Some ([46, 46], 3)" "dentry_ok dotdot_page"
    unfolding dot_page_def dotdot_page_def by blast+
qed

lemma mkfs_super_fields:
  assumes "blkaddr_ok root" "blkaddr_ok meta"
  shows "sb_ok (mkfs_super root meta)" "sb_entries (mkfs_super root meta) = [(3, 3, root), (1, 1, meta)]"
    "sb32 (mkfs_super root meta) ''root_ino'' = 3" "sb32 (mkfs_super root meta) ''meta_ino'' = 1"
    "sb32 (mkfs_super root meta) ''node_ino'' = 2"
proof -
  let ?d = "mkfs_super root meta"
  have c: "meta_nat_cnt ?d = 2" by (simp add: mkfs_super_def field_simps_disk)
  have e: "sb_entry ?d 0 = (3, 3, root)" "sb_entry ?d 1 = (1, 1, meta)"
    by (simp_all add: sb_entry_def mkfs_super_def field_simps_disk sint_blkaddr assms)
  then show s: "sb_entries ?d = [(3, 3, root), (1, 1, meta)]" by (simp add: sb_entries_def c upt_rec)
  have "sb_scalars ?d = [XCPFS_MAGIC, 3, 1, 2, 1, 1, 1]"
    by (simp add: mkfs_super_def field_simps_disk) (simp add: sb_scalars_def sb_field_defs sb_offsets)
  then show "sb_ok ?d" "sb32 ?d ''root_ino'' = 3" "sb32 ?d ''meta_ino'' = 1" "sb32 ?d ''node_ino'' = 2"
    using s c by (simp_all add: sb_ok_def sb_scalars_def)
qed

text \<open>
  A device of seven zones of the NVMe specification, at most four of them open; the contents, the
  blocks written in each zone, and the open zones.
\<close>

type_synonym sample_device = "(int \<Rightarrow> bytes) \<times> (nat \<Rightarrow> nat) \<times> nat set"

definition sample_zns :: "sample_device zns" where
  "sample_zns = \<lparr>
     zns_append = (\<lambda>zl p (f, w, opn). let k = nat (zl div 2048); lba = zl + int (w k) in
       if 0 \<le> zl \<and> k < 7 \<and> zl mod 2048 = 0 \<and> w k < 2048 \<and> k \<in> opn
       then ((0, lba), (f(lba := p), w(k := w k + 1), if w k + 1 = 2048 then opn - {k} else opn))
       else ((1, 0), (f, w, opn))),
     zns_open = (\<lambda>zl (f, w, opn). let k = nat (zl div 2048) in
       if 0 \<le> zl \<and> k < 7 \<and> zl mod 2048 = 0 \<and> w k < 2048 \<and> (k \<in> opn \<or> card opn < 4)
       then (0, (f, w, insert k opn)) else (1, (f, w, opn)))\<rparr>"

definition sample_view :: "sample_device zns_view" where
  "sample_view = \<lparr>zv_rd = fst, zv_written = (\<lambda>d. fst (snd d)), zv_open = (\<lambda>d. snd (snd d))\<rparr>"

lemma sample_zns_law: "zns_law sample_zns sample_view 7 2048 4"
  by (auto simp: zns_law_def sample_zns_def sample_view_def Let_def)

end
