(* ===== verification/Mount_Props.thy ===== *)
theory Mount_Props
  imports Mkfs
begin

text \<open>
  What a mount starts with: the zone table agrees with the device's report and keeps the
  invariant of the zone manager, and a medium that \<open>mkfs\<close> has written mounts.
\<close>

section \<open>The zone table of a new mount\<close>

text \<open>The zones of the report with a condition, in the order of the report.\<close>

definition reported :: "(zone_cond \<Rightarrow> bool) \<Rightarrow> blk_zone list \<Rightarrow> nat \<Rightarrow> nat list" where
  "reported C zones n = filter (\<lambda>k. C (bz_cond (zones ! k))) [0..<n]"

lemma reported_Suc:
  "reported C zones (Suc n) = reported C zones n @ (if C (bz_cond (zones ! n)) then [n] else [])"
  by (simp add: reported_def)

lemma reported_le: "n \<le> m \<Longrightarrow> length (reported C zones n) \<le> length (reported C zones m)"
proof -
  assume "n \<le> m"
  then obtain d where "m = n + d" using le_Suc_ex by blast
  then show ?thesis by (simp add: reported_def upt_add_eq_append [of 0 n d])
qed

lemma length_reported: "length (reported C zones (length zones)) = length (filter C (map bz_cond zones))"
proof -
  have "map bz_cond zones = map (\<lambda>k. bz_cond (zones ! k)) [0..<length zones]" by (intro nth_equalityI) simp_all
  then show ?thesis by (simp only: filter_map length_map) (simp add: reported_def comp_def)
qed

text \<open>An array that is filled from its start.\<close>

definition packed :: "nat list \<Rightarrow> int \<Rightarrow> nat option list \<Rightarrow> int \<Rightarrow> bool" where
  "packed ks mx l cnt \<longleftrightarrow> cnt = int (length ks) \<and> (\<exists>r. l = map Some ks @ replicate r None \<and> int (length ks + r) = mx)"

lemma push_packed:
  assumes "packed ks mx l cnt" "int (length ks) < mx"
  shows "\<exists>l'. push_slot l cnt k = Some l' \<and> packed (ks @ [k]) mx l' (cnt + 1)"
proof -
  from assms obtain r where r: "l = map Some ks @ replicate r None" "int (length ks + r) = mx" "cnt = int (length ks)"
    by (auto simp: packed_def)
  then obtain r' where "r = Suc r'" using assms(2) by (cases r) auto
  then show ?thesis using r by (auto simp: push_slot_def packed_def list_update_append)
qed

lemma packed_tracks: "packed ks mx l cnt \<Longrightarrow> distinct ks \<Longrightarrow> tracks l cnt mx (set ks)"
proof -
  assume p: "packed ks mx l cnt" and d: "distinct ks"
  from p obtain r where r: "l = map Some ks @ replicate r None" "int (length ks + r) = mx" "cnt = int (length ks)"
    by (auto simp: packed_def)
  have "slot_set l = set ks" by (auto simp: r slot_set_def)
  moreover have "filter (\<lambda>x. x \<noteq> None) l = map Some ks" by (simp add: r filter_map comp_def)
  then have "slots_distinct l" using d by (simp add: slots_distinct_def distinct_map)
  ultimately show ?thesis using r d by (simp add: tracks_def distinct_card)
qed

text \<open>The table after the first \<open>n\<close> zones of the report.\<close>

definition scanned :: "blk_zone list \<Rightarrow> int \<Rightarrow> int \<Rightarrow> nat \<Rightarrow> xcpfs_zm_info \<Rightarrow> bool" where
  "scanned zones mo ma n m \<longleftrightarrow> length (zone_info m) = length zones \<and> nr_zones m = int (length zones) \<and>
     max_open_zones m = mo \<and> max_active_zones m = ma \<and>
     (\<forall>k < n. zi_zone_id (zone_info m ! k) = int k \<and> zi_cond (zone_info m ! k) = bz_cond (zones ! k) \<and>
        zi_start (zone_info m ! k) = bz_start (zones ! k) \<and> zi_wp (zone_info m ! k) = bz_wp (zones ! k)) \<and>
     packed (reported cond_open zones n) mo (zone_opened m) (zone_opened_count m) \<and>
     packed (reported cond_active zones n) ma (zone_active m) (zone_active_count m)"

lemma report_step:
  assumes I: "scanned zones mo ma n m" and n: "n < length zones"
    and room: "int (length (reported cond_open zones (Suc n))) \<le> mo" "int (length (reported cond_active zones (Suc n))) \<le> ma"
  shows "\<exists>m'. xcpfs_report_zones_cb (zones ! n) n m = Some m' \<and> scanned zones mo ma (Suc n) m'"
proof -
  let ?z = "zones ! n"
  define m1 where "m1 = m\<lparr>zone_size := bz_len ?z, zone_capacity := bz_capacity ?z,
    zone_info := (zone_info m)[n := (zone_info m ! n)\<lparr>zi_cond := bz_cond ?z, zi_wp := bz_wp ?z,
      zi_zone_id := int n, zi_start := bz_start ?z\<rparr>]\<rparr>"
  have f: "zone_opened m1 = zone_opened m" "zone_opened_count m1 = zone_opened_count m"
    "zone_active m1 = zone_active m" "zone_active_count m1 = zone_active_count m"
    by (simp_all add: m1_def)
  have head: "length (zone_info m1) = length zones \<and> nr_zones m1 = int (length zones) \<and>
      max_open_zones m1 = mo \<and> max_active_zones m1 = ma \<and>
      (\<forall>k < Suc n. zi_zone_id (zone_info m1 ! k) = int k \<and> zi_cond (zone_info m1 ! k) = bz_cond (zones ! k) \<and>
        zi_start (zone_info m1 ! k) = bz_start (zones ! k) \<and> zi_wp (zone_info m1 ! k) = bz_wp (zones ! k))"
    using I n by (auto simp: scanned_def m1_def nth_list_update less_Suc_eq)
  have po: "packed (reported cond_open zones n) mo (zone_opened m) (zone_opened_count m)"
    and pa: "packed (reported cond_active zones n) ma (zone_active m) (zone_active_count m)"
    using I by (simp_all add: scanned_def)
  have run: "xcpfs_report_zones_cb ?z n m =
     (if cond_open (bz_cond ?z) then do {
        opened \<leftarrow> push_slot (zone_opened m) (zone_opened_count m) n;
        active \<leftarrow> push_slot (zone_active m) (zone_active_count m) n;
        Some (m1\<lparr>zone_opened := opened, zone_opened_count := zone_opened_count m + 1,
                 zone_active := active, zone_active_count := zone_active_count m + 1\<rparr>)
      }
      else if bz_cond ?z = COND_CLOSED then do {
        active \<leftarrow> push_slot (zone_active m) (zone_active_count m) n;
        Some (m1\<lparr>zone_active := active, zone_active_count := zone_active_count m + 1\<rparr>)
      }
      else Some m1)"
    using I n by (simp add: xcpfs_report_zones_cb_def scanned_def Let_def m1_def cond_open_def)
  consider (opened) "cond_open (bz_cond ?z)" | (closed) "bz_cond ?z = COND_CLOSED"
    | (other) "\<not> cond_active (bz_cond ?z)"
    by (auto simp: cond_active_def)
  then show ?thesis
  proof cases
    case opened
    then have a: "cond_active (bz_cond ?z)" by (simp add: cond_active_def)
    obtain lo where lo: "push_slot (zone_opened m) (zone_opened_count m) n = Some lo"
        "packed (reported cond_open zones (Suc n)) mo lo (zone_opened_count m + 1)"
      using push_packed [OF po, of n] room(1) opened by (auto simp: reported_Suc)
    obtain la where la: "push_slot (zone_active m) (zone_active_count m) n = Some la"
        "packed (reported cond_active zones (Suc n)) ma la (zone_active_count m + 1)"
      using push_packed [OF pa, of n] room(2) a by (auto simp: reported_Suc)
    show ?thesis using opened run lo la head by (simp add: scanned_def)
  next
    case closed
    then obtain la where la: "push_slot (zone_active m) (zone_active_count m) n = Some la"
        "packed (reported cond_active zones (Suc n)) ma la (zone_active_count m + 1)"
      using push_packed [OF pa, of n] room(2) by (auto simp: reported_Suc)
    show ?thesis using closed run la head po f by (simp add: scanned_def reported_Suc)
  next
    case other
    then have "\<not> cond_open (bz_cond ?z)" "bz_cond ?z \<noteq> COND_CLOSED" by (auto simp: cond_active_def)
    then show ?thesis using other run head po pa f by (simp add: scanned_def reported_Suc)
  qed
qed

lemma report_zones:
  assumes I: "scanned zones mo ma 0 m" and n: "n \<le> length zones"
    and room: "int (length (reported cond_open zones (length zones))) \<le> mo"
      "int (length (reported cond_active zones (length zones))) \<le> ma"
  shows "\<exists>m'. for_each (\<lambda>idx. xcpfs_report_zones_cb (zones ! idx) idx) [0..<n] m = Some m' \<and> scanned zones mo ma n m'"
  using n
proof (induction n)
  case 0
  then show ?case using I by simp
next
  case (Suc n)
  then obtain m1 where m1: "for_each (\<lambda>idx. xcpfs_report_zones_cb (zones ! idx) idx) [0..<n] m = Some m1" "scanned zones mo ma n m1"
    by auto
  have "Suc n \<le> length zones" using Suc.prems .
  from reported_le [OF this, of cond_open zones] reported_le [OF this, of cond_active zones] room
  have "int (length (reported cond_open zones (Suc n))) \<le> mo" "int (length (reported cond_active zones (Suc n))) \<le> ma"
    by linarith+
  from report_step [OF m1(2) _ this] Suc.prems m1(1) show ?case by (auto simp: for_each_append)
qed

lemma scanned_zm_ok:
  assumes "scanned zones mo ma (length zones) m"
  shows "zm_ok m" "conds m = map bz_cond zones"
proof -
  let ?n = "length zones"
  have z: "zones_with C m = set (reported C zones ?n)" for C
    using assms by (auto simp: zones_with_def scanned_def reported_def)
  have d: "distinct (reported C zones ?n)" for C by (simp add: reported_def)
  show "zm_ok m"
    using assms packed_tracks [OF _ d] by (auto simp: zm_ok_def z table_ok_def scanned_def)
  show "conds m = map bz_cond zones"
    using assms by (auto simp: conds_def scanned_def intro!: nth_equalityI)
qed

text \<open>Memory for the zone manager that happens to be zero.\<close>

definition zeroed_zm :: "nat \<Rightarrow> int \<Rightarrow> int \<Rightarrow> xcpfs_zm_info \<Rightarrow> bool" where
  "zeroed_zm n mo ma m \<longleftrightarrow> 0 \<le> mo \<and> 0 \<le> ma \<and> length (zone_info m) = n \<and>
     zone_opened_count m = 0 \<and> zone_opened m = replicate (nat mo) None \<and>
     zone_active_count m = 0 \<and> zone_active m = replicate (nat ma) None"

lemma init_zm_info_scanned:
  assumes "zeroed_zm (length zones) mo ma junk"
    "n_with cond_open (map bz_cond zones) \<le> mo" "n_with cond_active (map bz_cond zones) \<le> ma"
  shows "\<exists>m. xcpfs_init_zm_info junk mo ma zones = Some m \<and> scanned zones mo ma (length zones) m"
proof -
  let ?m = "junk\<lparr>nr_zones := int (length zones), max_open_zones := mo, max_active_zones := ma\<rparr>"
  have I: "scanned zones mo ma 0 ?m"
    using assms(1) by (auto simp: scanned_def zeroed_zm_def packed_def reported_def)
  have "int (length (reported cond_open zones (length zones))) \<le> mo"
    "int (length (reported cond_active zones (length zones))) \<le> ma"
    using assms(2,3) by (simp_all only: n_with_def length_reported)
  from report_zones [OF I order_refl this] show ?thesis
    by (auto simp: xcpfs_init_zm_info_def scanned_def)
qed

text \<open>C33: When the memory of the zone manager is zero and no more zones are open or active than the device
  allows, the zone table of a new mount agrees with the device's report zone by zone and keeps
  the invariant of the zone manager.\<close>

theorem init_zm_info_ok:
  assumes "zeroed_zm (length zones) mo ma junk"
    "n_with cond_open (map bz_cond zones) \<le> mo" "n_with cond_active (map bz_cond zones) \<le> ma"
  shows "\<exists>m. xcpfs_init_zm_info junk mo ma zones = Some m \<and> zm_ok m \<and> conds m = map bz_cond zones \<and>
    max_open_zones m = mo \<and> max_active_zones m = ma \<and>
    (\<forall>k < length zones. zi_start (zone_info m ! k) = bz_start (zones ! k) \<and>
      zi_wp (zone_info m ! k) = bz_wp (zones ! k))"
  using init_zm_info_scanned [OF assms] scanned_zm_ok by (fastforce simp: scanned_def)

section \<open>The first pages\<close>





section \<open>A zone information table that does not exist yet\<close>






section \<open>Zone types and bitmaps\<close>

text \<open>Two zone tables that differ in the types and the bitmaps of their zones only.\<close>

definition same_zones :: "xcpfs_zm_info \<Rightarrow> xcpfs_zm_info \<Rightarrow> bool" where
  "same_zones m m' \<longleftrightarrow> nr_zones m' = nr_zones m \<and> length (zone_info m') = length (zone_info m) \<and>
     zone_opened m' = zone_opened m \<and> zone_opened_count m' = zone_opened_count m \<and>
     zone_active m' = zone_active m \<and> zone_active_count m' = zone_active_count m \<and>
     max_open_zones m' = max_open_zones m \<and> max_active_zones m' = max_active_zones m \<and>
     (\<forall>k < length (zone_info m). zi_zone_id (zone_info m' ! k) = zi_zone_id (zone_info m ! k) \<and>
        zi_cond (zone_info m' ! k) = zi_cond (zone_info m ! k) \<and> zi_wp (zone_info m' ! k) = zi_wp (zone_info m ! k))"

lemma same_zones_refl [simp]: "same_zones m m"
  by (simp add: same_zones_def)







section \<open>The root directory of a new mount\<close>






section \<open>Mounting what \<open>mkfs\<close> has written\<close>







lemma new_fs_fields [simp]:
  "zm (new_fs m f) = m" "disk (new_fs m f) = f" "cache (new_fs m f) = (\<lambda>_. None)" "inodes (new_fs m f) = (\<lambda>_. None)"
  "bios (new_fs m f) = []"
  by (simp_all add: new_fs_def)




text \<open>
  The device of seven zones, the zones the tool leaves open, and a zone manager in memory that is
  zero.
\<close>

definition sample_report :: "blk_zone list" where
  "sample_report = map (\<lambda>(k, c, w). \<lparr>bz_start = word_of_int (16384 * k), bz_len = 16384,
       bz_wp = word_of_int (16384 * k + 8 * w), bz_cond = c, bz_capacity = 16384\<rparr>)
     [(0, COND_EXP_OPEN, 1), (1, COND_EMPTY, 0), (2, COND_EMPTY, 0), (3, COND_EXP_OPEN, 1), (4, COND_EMPTY, 0),
      (5, COND_EXP_OPEN, 1), (6, COND_EXP_OPEN, 2)]"

definition sample_zeroed :: xcpfs_zm_info where
  "sample_zeroed = \<lparr>zone_size = 0, zone_capacity = 0, nr_zones = 0, max_open_zones = 0, max_active_zones = 0,
     nr_type = replicate 5 0, limit_type = replicate 5 0, zone_info = replicate 7 (sample_zone 0 COND_EMPTY 0 0),
     zone_opened_count = 0, zone_opened = replicate 8 None, zone_active_count = 0, zone_active = replicate 8 None\<rparr>"

lemma sample_report_limits:
  "length sample_report = 7" "n_with cond_open (map bz_cond sample_report) \<le> 8"
  "n_with cond_active (map bz_cond sample_report) \<le> 8" "zeroed_zm (length sample_report) 8 8 sample_zeroed"
  by (simp_all add: sample_report_def n_with_def cond_active_def cond_open_def zeroed_zm_def sample_zeroed_def)

theorem init_zm_info_ok_witness:
  "\<exists>m. xcpfs_init_zm_info sample_zeroed 8 8 sample_report = Some m \<and> zm_ok m \<and> zi_wp (zone_info m ! 6) = 98320"
proof -
  obtain m where m: "xcpfs_init_zm_info sample_zeroed 8 8 sample_report = Some m" "zm_ok m"
    "\<forall>k < length sample_report. zi_start (zone_info m ! k) = bz_start (sample_report ! k) \<and>
      zi_wp (zone_info m ! k) = bz_wp (sample_report ! k)"
    using init_zm_info_ok [OF sample_report_limits(4,2,3)] by blast
  then have "zi_wp (zone_info m ! 6) = bz_wp (sample_report ! 6)" by (simp add: sample_report_limits(1))
  then show ?thesis using m(1,2) by (simp add: sample_report_def)
qed


end
