(* ===== verification/Spec2Isabelle.thy ===== *)
theory Spec2Isabelle
  imports Mount_Props
begin

text \<open>
  xcpfs is a Linux file system for zoned block devices: a kernel module in C and the formatting
  tool \<open>mkfs\<close>.  This development models the module and the tool, and proves what its parts
  promise each other.

  \<^bold>\<open>The program.\<close>  Data is only ever appended to zones.  Files are trees of node pages (an inode
  page, direct and indirect nodes), addressed by node ids.  The node address table (NAT) maps a
  node id to its owner and its block; it is a file itself (the meta inode, number 1), and so is
  the set of all node pages (the node inode, number 2).  A write appends the page to a zone of
  its type; when the device reports where it went, the address is stored in the parent node
  or in the NAT, and the old block is invalidated in the zone table.  A checkpoint writes
  everything out and collects in the super block the NAT entries of the NAT's own nodes, which
  cannot be found otherwise; zones 0 and 1 hold the super blocks.

  \<^bold>\<open>Theories\<close>, in the order of their imports:
  \<^item> \<open>Prelude\<close>: machine integers and C conversions (\<open>int_wrap\<close>, C division), bytes of a page with little-endian reads and
    writes, bitmaps, \<open>for_each\<close> loops, slot arrays.
  \<^item> \<open>Layout\<close>: \<open>xcpfs.h\<close> and \<open>mkfs/mkfs.h\<close>, every packed structure with its offsets and the typed
    accessors of its fields.
  \<^item> \<open>State\<close>: \<open>xcpfs.h\<close>, \<open>xcpfs_rwsem.h\<close>, the in-memory structures; the record \<open>fs\<close> is
    \<open>struct xcpfs_sb_info\<close> with the page cache, the inode table, the medium and the pending writes.
  \<^item> \<open>Zone\<close>, \<open>Zone_Alloc\<close>: \<open>zone_mgmt.c\<close>.  The arrays of open and active zones are the interface
    \<open>slot_store\<close>; the zone commands refine a table of zone conditions and keep the device's limits.
  \<^item> \<open>Nat_Table\<close>, \<open>Nat_Props\<close>: \<open>nat_mgmt.c\<close>.  The two lists of cached entries are a map with the
    interface \<open>entry_cache\<close>; loading of NAT blocks, allocation and invalidation of node ids.
  \<^item> \<open>Node_Path\<close>: \<open>get_path\<close> and \<open>get_page_type\<close> of \<open>meta.c\<close>.
  \<^item> \<open>Page_IO\<close>: \<open>data.c\<close>, \<open>xio.c\<close>, the node walk of \<open>meta.c\<close>, \<open>xcpfs_iget\<close>.  \<open>Reader\<close> states the contract
    of a page reader as a locale and shows that \<open>prepare_page\<close> keeps it; \<open>Page_Props\<close> shows what
    reading, writing back and reading again give.
  \<^item> \<open>Inode\<close>: \<open>inode.c\<close> and \<open>xcpfs_write_inode\<close>.  A new inode whose number is taken in the inode table
    stays outside it (\<open>private_inode\<close>); \<open>with_obj\<close> runs an operation on it.
  \<^item> \<open>Truncate\<close>: \<open>file.c\<close>, \<open>reg.c\<close> and \<open>xcpfs_evict_inode\<close>.  The loops over block addresses are the
    interface \<open>slot_page\<close>, interpreted for inode pages and for direct nodes.
  \<^item> \<open>Dir\<close>: \<open>dir.c\<close>.  A directory in memory is a list of entries and free places; adding, finding and
    removing names refine the operations on that list.
  \<^item> \<open>Checkpoint\<close>: \<open>checkpoint.c\<close>, \<open>flush_nat\<close>, \<open>flush_zit\<close>, the super block's raw I/O, \<open>put_super\<close>.
  \<^item> \<open>Mount\<close>: \<open>xcpfs.c\<close>, from the zone report to \<open>xcpfs_fill_super\<close>, and \<open>kill_xcpfs_super\<close>.
  \<^item> \<open>Mkfs\<close>: \<open>mkfs/mkfs.c\<close>, the law of a zoned device (\<open>zns_law\<close>) and what the tool writes on a fresh one.
  \<^item> \<open>Mount_Props\<close>: the zone table of a new mount agrees with the report of the device, and what \<open>mkfs\<close>
    has written mounts, up to a lookup in the root directory.

  \<^bold>\<open>How the model reads.\<close>  A function of the code is a definition of the same name (a leading
  \<open>__\<close> becomes a suffix such as \<open>_cached\<close> or \<open>_locked\<close>).  It takes the state and returns the C
  result with the new state.  Error numbers are values; \<open>None\<close> is an execution without a defined
  result: a NULL or error pointer that is dereferenced, an index outside an array, or a thread
  that waits for ever.  Machine integers have their width where it matters (\<open>to_int\<close>, \<open>int_wrap\<close>
  and words); pages are bytes.

  \<^bold>\<open>Nesting and loops.\<close>  Preparing a page prepares node pages, whose addresses come from the NAT,
  whose blocks are pages again.  \<open>prepare_page\<close> has the nesting depth as its argument; depth 1 is
  enough for a page in memory and depth 2 for a data page whose node pages are in memory,
  which is what the properties that claim a result assume.  The loops of \<open>get_zone\<close>,
  \<open>alloc_free_nat\<close> and \<open>do_checkpoint\<close> may not end and are partial functions: that they return is
  proved where they do (\<open>get_zone_returns\<close>, \<open>alloc_free_nat_returns\<close>, \<open>checkpoint_of_idle_fs\<close>), and
  \<open>get_zone_hangs\<close> shows a state from which \<open>get_zone\<close> never does.

  \<^bold>\<open>Parameters.\<close>  The block device (results of zone commands, the sector of an append, errors of
  raw super block I/O), the order in which the kernel writes dirty pages and inodes, the
  time and credentials, the kernel's checks in \<open>setattr\<close>, the caller of \<open>readdir\<close>, memory that
  \<open>kmalloc\<close> returns uninitialised, the report of the zones at a mount, and \<open>libnvme\<close>.  Reads complete
  at once; writes are queued in \<open>bios\<close> and completed by \<open>xcpfs_write_end_io\<close>.

  \<^bold>\<open>Bounds.\<close>  Page indices are below 2^31 and block addresses of devices that are read below 2^28
  (the sector of a bio is computed in \<open>int\<close>); zones have at most 2048 blocks, the size of the
  bitmap in memory.

  \<^bold>\<open>Not modelled.\<close>  Concurrency: spin locks, page locks and reference counts have no state, and a
  page of a pending write counts as locked.  Inodes under construction (\<open>I_NEW\<close>); an inode outside the
  inode table is followed to the end of the operation that created it.
  \<open>xcpfs_getattr\<close>, \<open>xcpfs_statfs\<close>, \<open>dump_fs\<close> and the module entry points call the kernel or print.
  Truncation across node pages is modelled but only its direct parts are covered by
  theorems.
\<close>

end
